(* ===== verification/Prelude.thy ===== *)
theory Prelude
  imports Main "HOL-Library.AList" "HOL-Library.Word"
begin

text \<open>
  Shared vocabulary of the development: the machine integers of the C++ code, its two associative
  containers and the small facts about lists and words that the component theories share.

  \<^item> \<open>u8\<close>, \<open>u32\<close>, \<open>u64\<close> are the unsigned integers at their width, so that \<open>+\<close> wraps as in C++.
    Container sizes and reference counts (\<open>size_t\<close>) are \<open>nat\<close>; 64-bit signed identifiers are
    \<open>int\<close>.
  \<^item> \<open>umap\<close> is \<open>std::unordered_map\<close>: an association list with one entry per key, whose order has no
    meaning. \<open>omap\<close> is \<open>std::map\<close>: an association list kept in ascending key order, because loops
    over it visit the keys in that order.
  \<^item> \<open>cstr\<close> is \<open>xmrig::String\<close> (and \<open>const char *\<close>): \<open>None\<close> is the null pointer, \<open>Some s\<close> the
    bytes before the terminating NUL.
  \<^item> \<open>key_store\<close> is the interface of both containers: the laws of lookup, insertion and erasure, from
    which the facts about repeated erasure and insertion are derived once.
\<close>

unbundle bit_operations_syntax

type_synonym u8 = "8 word"
type_synonym u16 = "16 word"
type_synonym u32 = "32 word"
type_synonym u64 = "64 word"
type_synonym cstr = "string option"
type_synonym ('k, 'v) umap = "('k \<times> 'v) list"
type_synonym ('k, 'v) omap = "('k \<times> 'v) list"

named_theorems store_rules "lookup equations and well-formedness of the containers"
named_theorems frame_rules "fields and entries an operation leaves alone"

section \<open>Strings\<close>

text \<open>\<open>String::size\<close>, \<open>String::isNull\<close>, \<open>String::isEmpty\<close>.\<close>

definition str_size :: "cstr \<Rightarrow> nat" where
  "str_size s = (case s of None \<Rightarrow> 0 | Some t \<Rightarrow> length t)"

definition str_is_null :: "cstr \<Rightarrow> bool" where
  "str_is_null s = (s = None)"

definition str_is_empty :: "cstr \<Rightarrow> bool" where
  "str_is_empty s = (str_size s = 0)"

lemma str_is_empty_iff [simp]: "str_is_empty s \<longleftrightarrow> s = None \<or> s = Some []"
  by (auto simp: str_is_empty_def str_size_def split: option.splits)

text \<open>\<open>std::tolower\<close> in the C locale.\<close>

definition to_lower :: "char \<Rightarrow> char" where
  "to_lower c = (let n = of_char c :: nat in if 65 \<le> n \<and> n \<le> 90 then char_of (n + 32) else c)"
lemma of_char_to_lower: "of_char (to_lower c) = (let n = of_char c :: nat in if 65 \<le> n \<and> n \<le> 90 then n + 32 else n)"
  by (auto simp: to_lower_def Let_def)

text \<open>Two hexadecimal digits make a byte: the shift and the bitwise or of the code are a sum.\<close>

lemma nibble_or: "l < 16 \<Longrightarrow> push_bit 4 h OR l = 16 * h + (l::nat)"
proof -
  assume l: "l < 16"
  have "16 * h + l = push_bit 4 h + l" by (simp add: push_bit_eq_mult)
  also have "\<dots> = push_bit 4 h OR l"
  proof (rule disjunctive_add)
    fix n show "\<not> bit (push_bit 4 h) n \<or> \<not> bit l n"
    proof (cases "n < 4")
      case False
      then have "l < 2 ^ n" using l power_increasing[of 4 n "2::nat"] by simp
      then have "\<not> bit l n" by (simp add: bit_iff_odd)
      then show ?thesis ..
    qed (simp add: bit_push_bit_iff)
  qed
  finally show ?thesis by simp
qed

section \<open>Containers\<close>

subsection \<open>The interface\<close>

locale key_store =
  fixes find :: "'m \<Rightarrow> 'k \<Rightarrow> 'v option"
    and put :: "'k \<Rightarrow> 'v \<Rightarrow> 'm \<Rightarrow> 'm"
    and drop :: "'k \<Rightarrow> 'm \<Rightarrow> 'm"
    and ok :: "'m \<Rightarrow> bool"
  assumes find_put: "ok m \<Longrightarrow> find (put k v m) = (find m)(k \<mapsto> v)"
    and find_drop: "ok m \<Longrightarrow> find (drop k m) = (find m)(k := None)"
    and ok_put: "ok m \<Longrightarrow> ok (put k v m)"
    and ok_drop: "ok m \<Longrightarrow> ok (drop k m)"
begin

lemma find_put_same: "ok m \<Longrightarrow> find (put k v m) k = Some v"
  by (simp add: find_put)

lemma find_put_other: "ok m \<Longrightarrow> k' \<noteq> k \<Longrightarrow> find (put k v m) k' = find m k'"
  by (simp add: find_put)

lemma find_drop_same: "ok m \<Longrightarrow> find (drop k m) k = None"
  by (simp add: find_drop)

lemma find_drop_other: "ok m \<Longrightarrow> k' \<noteq> k \<Longrightarrow> find (drop k m) k' = find m k'"
  by (simp add: find_drop)

lemma ok_fold_drop: "ok m \<Longrightarrow> ok (fold drop ks m)"
  by (induction ks arbitrary: m) (simp_all add: ok_drop)

lemma find_fold_drop:
  "ok m \<Longrightarrow> find (fold drop ks m) k = (if k \<in> set ks then None else find m k)"
  by (induction ks arbitrary: m) (auto simp: ok_drop find_drop)

lemma drop_put_fresh:
  "ok m \<Longrightarrow> find m k = None \<Longrightarrow> find (drop k (put k v m)) = find m"
  by (simp add: find_drop find_put ok_put fun_upd_idem_iff)

end

subsection \<open>Unordered maps\<close>

definition um_ok :: "('k, 'v) umap \<Rightarrow> bool" where
  "um_ok m = distinct (map fst m)"

definition um_emplace :: "'k \<Rightarrow> 'v \<Rightarrow> ('k, 'v) umap \<Rightarrow> ('k, 'v) umap" where
  "um_emplace k v m = (case map_of m k of None \<Rightarrow> AList.update k v m | Some _ \<Rightarrow> m)"

lemma um_ok_Nil [simp]: "um_ok []"
  by (simp add: um_ok_def)

lemma um_ok_update [simp, store_rules]: "um_ok m \<Longrightarrow> um_ok (AList.update k v m)"
  by (simp add: um_ok_def distinct_update)

lemma um_ok_delete [simp, store_rules]: "um_ok m \<Longrightarrow> um_ok (AList.delete k m)"
  by (simp add: um_ok_def distinct_delete)

lemma um_ok_filter [simp, store_rules]: "um_ok m \<Longrightarrow> um_ok (filter P m)"
  by (simp add: um_ok_def distinct_map_filter)

lemma um_ok_emplace [simp, store_rules]: "um_ok m \<Longrightarrow> um_ok (um_emplace k v m)"
  by (simp add: um_emplace_def split: option.split)

lemma map_of_um_emplace [store_rules]:
  "map_of (um_emplace k v m) =
     (case map_of m k of None \<Rightarrow> (map_of m)(k \<mapsto> v) | Some _ \<Rightarrow> map_of m)"
  by (simp add: um_emplace_def update_conv' split: option.split)

declare update_conv' [store_rules] delete_conv' [store_rules]

interpretation um: key_store map_of AList.update AList.delete um_ok
  by unfold_locales (auto simp: update_conv' delete_conv')

lemma um_ok_in_set: "um_ok m \<Longrightarrow> (k, v) \<in> set m \<longleftrightarrow> map_of m k = Some v"
  by (auto simp: um_ok_def)

lemma map_of_filter_um:
  "um_ok m \<Longrightarrow> map_of (filter P m) k =
     (case map_of m k of Some v \<Rightarrow> (if P (k, v) then Some v else None) | None \<Rightarrow> None)"
  by (induction m) (auto simp: um_ok_def dom_map_of_conv_image_fst split: option.splits
      intro: rev_image_eqI)

lemma length_update_fresh:
  "map_of m k = None \<Longrightarrow> length (AList.update k v m) = Suc (length m)"
  by (induction m) auto

lemma length_update_present:
  "map_of m k = Some w \<Longrightarrow> length (AList.update k v m) = length m"
  by (induction m) (auto split: if_splits)

subsection \<open>Ordered maps\<close>

fun om_put :: "'k::linorder \<Rightarrow> 'v \<Rightarrow> ('k, 'v) omap \<Rightarrow> ('k, 'v) omap" where
  "om_put k v [] = [(k, v)]"
| "om_put k v ((k', v') # m) =
     (if k < k' then (k, v) # (k', v') # m
      else if k = k' then (k, v) # m
      else (k', v') # om_put k v m)"

definition om_ok :: "('k::linorder, 'v) omap \<Rightarrow> bool" where
  "om_ok m = sorted_wrt (<) (map fst m)"

lemma set_om_put: "fst ` set (om_put k v m) = insert k (fst ` set m)"
  by (induction k v m rule: om_put.induct) auto

lemma om_ok_Nil [simp]: "om_ok []"
  by (simp add: om_ok_def)

lemma om_ok_Cons:
  "om_ok ((k, v) # m) \<longleftrightarrow> (\<forall>k' \<in> fst ` set m. k < k') \<and> om_ok m"
  by (auto simp: om_ok_def)

lemma om_ok_put [simp, store_rules]: "om_ok m \<Longrightarrow> om_ok (om_put k v m)"
  by (induction k v m rule: om_put.induct) (auto simp: om_ok_Cons set_om_put)

lemma map_of_om_put [store_rules]: "om_ok m \<Longrightarrow> map_of (om_put k v m) = (map_of m)(k \<mapsto> v)"
proof (induction k v m rule: om_put.induct)
  case (2 k v k' v' m)
  then show ?case by (auto simp: om_ok_Cons fun_eq_iff)
qed simp

lemma om_ok_filter [simp, store_rules]: "om_ok m \<Longrightarrow> om_ok (filter P m)"
  by (induction m) (auto simp: om_ok_def)

lemma om_ok_delete [simp, store_rules]: "om_ok m \<Longrightarrow> om_ok (AList.delete k m)"
  by (simp add: AList.delete_eq)

lemma om_ok_distinct: "om_ok (m :: ('k::linorder, 'v) omap) \<Longrightarrow> distinct (map fst m)"
  by (induction m) (force simp: om_ok_Cons)+

lemma om_ok_um_ok: "om_ok m \<Longrightarrow> um_ok m"
  by (simp add: um_ok_def om_ok_distinct)

interpretation om: key_store map_of om_put AList.delete om_ok
  by unfold_locales (auto simp: map_of_om_put delete_conv')

end
