(* ===== verification/Share_Key.thy ===== *)
theory Share_Key
  imports Prelude
begin

text \<open>
  The identity of a share in \<open>proxy/GlobalShareCache.cpp\<close>: \<open>makeKey\<close> decodes the 32 hexadecimal digits of
  the template entropy and the 64 of the result hash into the 48 bytes of the key. The lemmas show
  when it succeeds and that two shares get the same key exactly when their digits agree up to case.
\<close>

section \<open>Share identities\<close>

definition hexValue :: "char \<Rightarrow> int" where
  "hexValue ch =
     (let c = int (of_char ch) in
      if 48 \<le> c \<and> c \<le> 57 then c - 48
      else if 97 \<le> c \<and> c \<le> 102 then c - 97 + 10
      else if 65 \<le> c \<and> c \<le> 70 then c - 65 + 10
      else -1)"

text \<open>
  The loop of \<open>appendHex\<close> over two digits at a time; \<open>None\<close> is the early exit that shrinks \<open>out\<close>
  back to its old size.
\<close>

fun appendHex_loop :: "string \<Rightarrow> string option" where
  "appendHex_loop (c1 # c2 # cs) =
     (let high = hexValue c1; low = hexValue c2 in
      if high < 0 \<or> low < 0 then None
      else map_option ((#) (char_of (push_bit 4 (nat high) OR nat low))) (appendHex_loop cs))"
| "appendHex_loop _ = Some []"

definition appendHex :: "string \<Rightarrow> cstr \<Rightarrow> nat \<Rightarrow> bool \<times> string" where
  "appendHex out hex n =
     (case hex of None \<Rightarrow> (False, out)
      | Some h \<Rightarrow>
          if n AND 1 \<noteq> 0 then (False, out)
          else (case appendHex_loop (take n h) of
                  None \<Rightarrow> (False, out)
                | Some bytes \<Rightarrow> (True, out @ bytes)))"

definition makeKey :: "cstr \<Rightarrow> cstr \<Rightarrow> string option" where
  "makeKey entropyHex resultHash =
     (case (entropyHex, resultHash) of
        (Some e, Some r) \<Rightarrow>
          if length e \<noteq> 32 \<or> length r \<noteq> 64 then None
          else (case appendHex [] (Some e) 32 of
                  (False, _) \<Rightarrow> None
                | (True, key) \<Rightarrow>
                    (case appendHex key (Some r) 64 of
                       (False, _) \<Rightarrow> None
                     | (True, key') \<Rightarrow> Some key'))
      | _ \<Rightarrow> None)"

section \<open>Identities as bytes\<close>

definition is_hex :: "char \<Rightarrow> bool" where
  "is_hex c \<longleftrightarrow> 0 \<le> hexValue c"

lemma hexValue_lt: "hexValue c < 16"
  by (simp add: hexValue_def Let_def)

lemma hexValue_to_lower:
  assumes "is_hex c" and "is_hex d"
  shows "hexValue c = hexValue d \<longleftrightarrow> to_lower c = to_lower d"
proof -
  define n m :: nat where "n = of_char c" and "m = of_char d"
  have "to_lower c = to_lower d \<longleftrightarrow> (of_char (to_lower c) :: nat) = of_char (to_lower d)" by simp
  also have "\<dots> \<longleftrightarrow> (if 65 \<le> n \<and> n \<le> 90 then n + 32 else n) = (if 65 \<le> m \<and> m \<le> 90 then m + 32 else m)"
    by (simp only: of_char_to_lower Let_def n_def m_def)
  finally show ?thesis
    using assms unfolding is_hex_def hexValue_def Let_def n_def [symmetric] m_def [symmetric]
    by (simp split: if_splits) presburger+
qed

lemma byte_of_digits:
  assumes "is_hex a" "is_hex b" "is_hex a'" "is_hex b'"
  shows "(char_of (push_bit 4 (nat (hexValue a)) OR nat (hexValue b)) :: char) =
      char_of (push_bit 4 (nat (hexValue a')) OR nat (hexValue b')) \<longleftrightarrow>
    to_lower a = to_lower a' \<and> to_lower b = to_lower b'"
proof -
  note lt = hexValue_lt [of a] hexValue_lt [of b] hexValue_lt [of a'] hexValue_lt [of b']
  note ge = assms [unfolded is_hex_def]
  have eq: "char_of n = char_of m \<longleftrightarrow> n mod 256 = (m :: nat) mod 256" for n m
    by (metis char_of_eq_iff of_char_of)
  show ?thesis
    using lt ge hexValue_to_lower [OF assms(1,3)] hexValue_to_lower [OF assms(2,4)]
    by (auto simp: nibble_or eq)
qed

lemma appendHex_loop_Some:
  "even (length cs) \<Longrightarrow> (\<exists>bs. appendHex_loop cs = Some bs) \<longleftrightarrow> (\<forall>c \<in> set cs. is_hex c)"
  by (induction cs rule: appendHex_loop.induct) (auto simp: is_hex_def Let_def not_less)

lemma appendHex_loop_length: "appendHex_loop cs = Some bs \<Longrightarrow> length bs = length cs div 2"
  by (induction cs arbitrary: bs rule: appendHex_loop.induct) (auto simp: Let_def split: if_splits)

lemma appendHex_loop_inj:
  "appendHex_loop cs = Some bs \<Longrightarrow> appendHex_loop ds = Some bs' \<Longrightarrow> even (length cs) \<Longrightarrow>
   length ds = length cs \<Longrightarrow> bs = bs' \<longleftrightarrow> map to_lower cs = map to_lower ds"
proof (induction cs arbitrary: ds bs bs' rule: appendHex_loop.induct)
  case (1 c1 c2 cs)
  from 1(2,5) obtain as where as: "appendHex_loop cs = Some as" "is_hex c1" "is_hex c2"
    "bs = char_of (push_bit 4 (nat (hexValue c1)) OR nat (hexValue c2)) # as"
    by (auto simp: Let_def is_hex_def not_less split: if_splits)
  obtain d1 d2 ds' where ds: "ds = d1 # d2 # ds'"
    using 1(5) by (cases ds; cases "tl ds") auto
  from 1(3) obtain as' where as': "appendHex_loop ds' = Some as'" "is_hex d1" "is_hex d2"
    "bs' = char_of (push_bit 4 (nat (hexValue d1)) OR nat (hexValue d2)) # as'"
    by (auto simp: ds Let_def is_hex_def not_less split: if_splits)
  have "as = as' \<longleftrightarrow> map to_lower cs = map to_lower ds'"
    using 1(1) [OF refl refl _ as(1) as'(1)] as(2,3) 1(4,5) by (simp add: ds is_hex_def)
  then show ?case
    using byte_of_digits [OF as(2,3) as'(2,3)] by (auto simp: as(4) as'(4) ds)
qed auto

lemma makeKey_Some:
  "makeKey (Some e) (Some r) = Some k \<longleftrightarrow> length e = 32 \<and> length r = 64 \<and>
     (\<exists>a b. appendHex_loop e = Some a \<and> appendHex_loop r = Some b \<and> k = a @ b)"
proof -
  have "(64 :: nat) AND 1 = 0" "(32 :: nat) AND 1 = 0" by (simp_all add: and_one_eq)
  then show ?thesis
    by (auto simp: makeKey_def appendHex_def split: option.splits prod.splits bool.splits)
qed

section \<open>The identity\<close>

text \<open>C30: \<open>makeKey\<close> succeeds exactly on 32 hexadecimal digits of entropy and 64 of result hash, and then
  gives the 48 bytes a reservation requires; two shares get the same key exactly when their digits
  agree up to letter case, so a share cannot be replayed by changing the case of its hash.\<close>

theorem makeKey_identity:
  "((\<exists>k. makeKey e r = Some k) \<longleftrightarrow>
      (\<exists>a b. e = Some a \<and> r = Some b \<and> length a = 32 \<and> length b = 64 \<and> list_all is_hex (a @ b))) \<and>
   (\<forall>k. makeKey e r \<noteq> Some k \<or> length k = 48) \<and>
   (\<forall>a b a' b' k k'. makeKey (Some a) (Some b) = Some k \<and> makeKey (Some a') (Some b') = Some k' \<longrightarrow>
      (k = k' \<longleftrightarrow> map to_lower a = map to_lower a' \<and> map to_lower b = map to_lower b'))"
proof (intro conjI allI impI)
  have some: "(\<exists>bs. appendHex_loop cs = Some bs) \<longleftrightarrow> (\<forall>c \<in> set cs. is_hex c)" if "even (length cs)" for cs
    by (rule appendHex_loop_Some [OF that])
  show "(\<exists>k. makeKey e r = Some k) \<longleftrightarrow>
      (\<exists>a b. e = Some a \<and> r = Some b \<and> length a = 32 \<and> length b = 64 \<and> list_all is_hex (a @ b))"
  proof (cases "\<exists>a b. e = Some a \<and> r = Some b")
    case False
    then show ?thesis by (auto simp: makeKey_def split: option.splits)
  next
    case True
    then obtain a b where ab: "e = Some a" "r = Some b" by blast
    show ?thesis
    proof (cases "length a = 32 \<and> length b = 64")
      case True
      then show ?thesis using some [of a] some [of b] by (auto simp: ab makeKey_Some list_all_iff)
    qed (auto simp: ab makeKey_Some)
  qed
next
  fix k show "makeKey e r \<noteq> Some k \<or> length k = 48"
  proof (cases "\<exists>a b. e = Some a \<and> r = Some b")
    case False
    then show ?thesis by (auto simp: makeKey_def split: option.splits)
  qed (auto simp: makeKey_Some appendHex_loop_length)
next
  fix a b a' b' k k'
  assume "makeKey (Some a) (Some b) = Some k \<and> makeKey (Some a') (Some b') = Some k'"
  then obtain x y x' y' where k: "appendHex_loop a = Some x" "appendHex_loop b = Some y" "k = x @ y"
    "appendHex_loop a' = Some x'" "appendHex_loop b' = Some y'" "k' = x' @ y'"
    and len: "length a = 32" "length b = 64" "length a' = 32" "length b' = 64"
    by (auto simp: makeKey_Some)
  have "length x = length x'" using k(1,4) len by (auto dest!: appendHex_loop_length)
  then have "k = k' \<longleftrightarrow> x = x' \<and> y = y'" by (simp add: k)
  then show "k = k' \<longleftrightarrow> map to_lower a = map to_lower a' \<and> map to_lower b = map to_lower b'"
    using appendHex_loop_inj [OF k(1,4)] appendHex_loop_inj [OF k(2,5)] len by simp
qed

text \<open>The key does not depend on the case of the digits.\<close>

theorem makeKey_identity_witness:
  "makeKey (Some (replicate 32 CHR ''a'')) (Some (replicate 64 CHR ''F'')) =
   makeKey (Some (replicate 32 CHR ''A'')) (Some (replicate 64 CHR ''f''))"
proof -
  let ?k = "\<lambda>a b. makeKey (Some (replicate 32 a)) (Some (replicate 64 b))"
  obtain k k' where k: "?k CHR ''a'' CHR ''F'' = Some k" "?k CHR ''A'' CHR ''f'' = Some k'"
    using makeKey_identity [of "Some (replicate 32 CHR ''a'')" "Some (replicate 64 CHR ''F'')"]
      makeKey_identity [of "Some (replicate 32 CHR ''A'')" "Some (replicate 64 CHR ''f'')"]
    by (auto simp: is_hex_def hexValue_def Let_def list_all_iff)
  have lower: "to_lower CHR ''a'' = to_lower CHR ''A''" "to_lower CHR ''F'' = to_lower CHR ''f''" by code_simp+
  have "map to_lower (replicate 32 CHR ''a'') = map to_lower (replicate 32 CHR ''A'')"
    "map to_lower (replicate 64 CHR ''F'') = map to_lower (replicate 64 CHR ''f'')"
    by (simp_all only: map_replicate lower)
  then have "k = k'"
    using makeKey_identity [THEN conjunct2, THEN conjunct2, rule_format, OF conjI, OF k] by blast
  with k show ?thesis by simp
qed

end
