(* ===== verification/Share_Cache.thy ===== *)
theory Share_Cache
  imports Share_Key
begin

text \<open>
  The process-wide duplicate-share cache, \<open>proxy/GlobalShareCache.cpp\<close>: its data and operations.
  Accepted identities are kept per source and block height in a bucket that counts the connections
  still eligible to submit at that height, with a global index \<open>s_keys\<close> over all buckets. The calls
  of the other components are the steps of \<open>cache_step\<close>; a run of the cache is a list of them.
\<close>

section \<open>Data\<close>

record height_entries =
  he_owners :: nat
  he_entries :: "(string, u64) umap"

record source_entries =
  se_currentHeight :: u64
  se_heights :: "(u64, height_entries) umap"

record owner_heights =
  oh_sourceId :: u64
  oh_heights :: "u64 list"

record share_cache =
  s_sources :: "(u64, source_entries) umap"
  s_owners :: "(u64, owner_heights) umap"
  s_keys :: "(string, u64) umap"
  s_sequence :: u64

datatype reserve_result = Accepted | Duplicate | Capacity | Invalid

record reservation =
  r_key :: string
  r_sourceId :: u64
  r_height :: u64
  r_token :: u64

definition no_reservation :: reservation where
  "no_reservation = \<lparr>r_key = [], r_sourceId = 0, r_height = 0, r_token = 0\<rparr>"

definition reservation_valid :: "reservation \<Rightarrow> bool" where
  "reservation_valid r = (r_token r \<noteq> 0)"

definition kMaxEntries :: nat where "kMaxEntries = 131072"
definition kMaxEntriesPerSource :: nat where "kMaxEntriesPerSource = 65536"
definition kKeySize :: nat where "kKeySize = 48"

definition empty_height :: height_entries where
  "empty_height = \<lparr>he_owners = 0, he_entries = []\<rparr>"

definition empty_source :: source_entries where
  "empty_source = \<lparr>se_currentHeight = 0, se_heights = []\<rparr>"

definition init_cache :: share_cache where
  "init_cache = \<lparr>s_sources = [], s_owners = [], s_keys = [], s_sequence = 0\<rparr>"

section \<open>Operations on the cache\<close>

definition eraseEntries :: "(string, u64) umap \<Rightarrow> (string, u64) umap \<Rightarrow> (string, u64) umap" where
  "eraseEntries es keys =
     fold (\<lambda>(k, t) ks. if map_of ks k = Some t then AList.delete k ks else ks) es keys"

definition set_heights :: "u64 \<Rightarrow> (u64, height_entries) umap \<Rightarrow> (u64, source_entries) umap
    \<Rightarrow> (u64, source_entries) umap" where
  "set_heights src hs sources =
     (case map_of sources src of None \<Rightarrow> sources
      | Some se \<Rightarrow> AList.update src (se\<lparr>se_heights := hs\<rparr>) sources)"

definition eraseHeightIfUnused :: "u64 \<Rightarrow> u64 \<Rightarrow> share_cache \<Rightarrow> share_cache" where
  "eraseHeightIfUnused src h c =
     (case map_of (s_sources c) src of None \<Rightarrow> c
      | Some se \<Rightarrow>
          if se_currentHeight se = h then c
          else (case map_of (se_heights se) h of None \<Rightarrow> c
                | Some b \<Rightarrow>
                    if he_owners b \<noteq> 0 then c
                    else c\<lparr>s_keys := eraseEntries (he_entries b) (s_keys c),
                           s_sources := set_heights src (AList.delete h (se_heights se)) (s_sources c)\<rparr>))"

definition dec_owner :: "u64 \<Rightarrow> u64 \<Rightarrow> (u64, source_entries) umap \<Rightarrow> (u64, source_entries) umap" where
  "dec_owner src h sources =
     (case map_of sources src of None \<Rightarrow> sources
      | Some se \<Rightarrow>
          (case map_of (se_heights se) h of None \<Rightarrow> sources
           | Some b \<Rightarrow>
               if he_owners b \<noteq> 0
               then set_heights src (AList.update h (b\<lparr>he_owners := he_owners b - 1\<rparr>) (se_heights se)) sources
               else sources))"

definition detachOwner :: "u64 \<Rightarrow> share_cache \<Rightarrow> share_cache" where
  "detachOwner ow c =
     (case map_of (s_owners c) ow of None \<Rightarrow> c
      | Some previous \<Rightarrow>
          let src = oh_sourceId previous;
              c1 = c\<lparr>s_owners := AList.delete ow (s_owners c)\<rparr>
          in (case map_of (s_sources c1) src of None \<Rightarrow> c1
              | Some _ \<Rightarrow>
                  let c2 = c1\<lparr>s_sources := fold (dec_owner src) (oh_heights previous) (s_sources c1)\<rparr>
                  in fold (eraseHeightIfUnused src) (oh_heights previous) c2))"

definition observeHeight :: "u64 \<Rightarrow> u64 \<Rightarrow> share_cache \<Rightarrow> share_cache" where
  "observeHeight src h c =
     (if src = 0 \<or> h = 0 then c
      else
        let se = (case map_of (s_sources c) src of None \<Rightarrow> empty_source | Some se \<Rightarrow> se);
            hs = um_emplace h empty_height (se_heights se);
            stale = filter (\<lambda>(h', b). h' \<noteq> h \<and> he_owners b = 0) hs;
            kept = filter (\<lambda>(h', b). \<not> (h' \<noteq> h \<and> he_owners b = 0)) hs
        in c\<lparr>s_sources := AList.update src (se\<lparr>se_currentHeight := h, se_heights := kept\<rparr>) (s_sources c),
             s_keys := fold (\<lambda>(_, b). eraseEntries (he_entries b)) stale (s_keys c)\<rparr>)"

definition inc_owner :: "u64 \<Rightarrow> u64 \<Rightarrow> (u64, source_entries) umap \<Rightarrow> (u64, source_entries) umap" where
  "inc_owner src h sources =
     (let se = (case map_of sources src of None \<Rightarrow> empty_source | Some se \<Rightarrow> se);
          b = (case map_of (se_heights se) h of None \<Rightarrow> empty_height | Some b \<Rightarrow> b)
      in AList.update src
           (se\<lparr>se_heights := AList.update h (b\<lparr>he_owners := Suc (he_owners b)\<rparr>) (se_heights se)\<rparr>) sources)"

text \<open>\<open>std::unordered_set::insert\<close> in the loop keeps the first occurrence of each nonzero height.\<close>

fun unique_heights :: "u64 list \<Rightarrow> u64 list \<Rightarrow> u64 list" where
  "unique_heights seen [] = []"
| "unique_heights seen (h # hs) =
     (if h = 0 \<or> h \<in> set seen then unique_heights seen hs
      else h # unique_heights (h # seen) hs)"

definition setOwnerHeights :: "u64 \<Rightarrow> u64 \<Rightarrow> u64 list \<Rightarrow> share_cache \<Rightarrow> share_cache" where
  "setOwnerHeights ow src hs c =
     (if ow = 0 then c
      else if src = 0 \<or> hs = [] then detachOwner ow c
      else
        let us = unique_heights [] hs in
        if us = [] then detachOwner ow c
        else
          let c1 = c\<lparr>s_sources := fold (inc_owner src) us (s_sources c)\<rparr>;
              c2 = detachOwner ow c1
          in c2\<lparr>s_owners := um_emplace ow \<lparr>oh_sourceId = src, oh_heights = us\<rparr> (s_owners c2)\<rparr>)"

definition removeOwner :: "u64 \<Rightarrow> share_cache \<Rightarrow> share_cache" where
  "removeOwner ow c = (if ow \<noteq> 0 then detachOwner ow c else c)"

definition release :: "reservation \<Rightarrow> share_cache \<Rightarrow> share_cache" where
  "release r c =
     (if \<not> reservation_valid r then c
      else
        (case map_of (s_sources c) (r_sourceId r) of None \<Rightarrow> c
         | Some se \<Rightarrow>
             (case map_of (se_heights se) (r_height r) of None \<Rightarrow> c
              | Some b \<Rightarrow>
                  if map_of (he_entries b) (r_key r) = Some (r_token r)
                  then c\<lparr>s_sources := set_heights (r_sourceId r)
                             (AList.update (r_height r)
                                (b\<lparr>he_entries := AList.delete (r_key r) (he_entries b)\<rparr>) (se_heights se))
                             (s_sources c),
                         s_keys := (if map_of (s_keys c) (r_key r) = Some (r_token r)
                                    then AList.delete (r_key r) (s_keys c) else s_keys c)\<rparr>
                  else c)))"

definition source_size :: "(u64, height_entries) umap \<Rightarrow> nat" where
  "source_size hs = sum_list (map (\<lambda>(h, b). length (he_entries b)) hs)"

definition next_token :: "u64 \<Rightarrow> u64" where
  "next_token q = (if q + 1 = 0 then q + 2 else q + 1)"

definition reserve :: "u64 \<Rightarrow> u64 \<Rightarrow> string \<Rightarrow> share_cache
    \<Rightarrow> reserve_result \<times> reservation \<times> share_cache" where
  "reserve src h key c =
     (if src = 0 \<or> h = 0 \<or> length key \<noteq> kKeySize then (Invalid, no_reservation, c)
      else
        (case map_of (s_sources c) src of None \<Rightarrow> (Invalid, no_reservation, c)
         | Some se \<Rightarrow>
             (case map_of (se_heights se) h of None \<Rightarrow> (Invalid, no_reservation, c)
              | Some b \<Rightarrow>
                  if map_of (s_keys c) key \<noteq> None then (Duplicate, no_reservation, c)
                  else if kMaxEntries \<le> length (s_keys c) \<or>
                          kMaxEntriesPerSource \<le> source_size (se_heights se)
                  then (Capacity, no_reservation, c)
                  else
                    let token = next_token (s_sequence c);
                        c1 = c\<lparr>s_sequence := token\<rparr>
                    in if map_of (he_entries b) key \<noteq> None then (Duplicate, no_reservation, c1)
                       else if map_of (s_keys c1) key \<noteq> None then (Duplicate, no_reservation, c1)
                       else (Accepted,
                             \<lparr>r_key = key, r_sourceId = src, r_height = h, r_token = token\<rparr>,
                             c1\<lparr>s_sources := set_heights src
                                   (AList.update h
                                      (b\<lparr>he_entries := AList.update key token (he_entries b)\<rparr>) (se_heights se))
                                   (s_sources c1),
                                s_keys := AList.update key token (s_keys c1)\<rparr>))))"

definition removeSource :: "u64 \<Rightarrow> share_cache \<Rightarrow> share_cache" where
  "removeSource src c =
     (case map_of (s_sources c) src of None \<Rightarrow> c
      | Some se \<Rightarrow>
          c\<lparr>s_owners := filter (\<lambda>(ow, oh). oh_sourceId oh \<noteq> src) (s_owners c),
            s_keys := fold (\<lambda>(_, b). eraseEntries (he_entries b)) (se_heights se) (s_keys c),
            s_sources := AList.delete src (s_sources c)\<rparr>)"

definition hasHeight :: "u64 \<Rightarrow> u64 \<Rightarrow> share_cache \<Rightarrow> bool" where
  "hasHeight src h c =
     (case map_of (s_sources c) src of None \<Rightarrow> False
      | Some se \<Rightarrow> map_of (se_heights se) h \<noteq> None)"

definition cache_size :: "share_cache \<Rightarrow> nat" where
  "cache_size c = length (s_keys c)"

definition cache_source_size :: "u64 \<Rightarrow> share_cache \<Rightarrow> nat" where
  "cache_source_size src c =
     (case map_of (s_sources c) src of None \<Rightarrow> 0 | Some se \<Rightarrow> source_size (se_heights se))"

definition cache_height :: "u64 \<Rightarrow> share_cache \<Rightarrow> u64" where
  "cache_height src c =
     (case map_of (s_sources c) src of None \<Rightarrow> 0 | Some se \<Rightarrow> se_currentHeight se)"

definition clear :: "share_cache \<Rightarrow> share_cache" where
  "clear c = c\<lparr>s_owners := [], s_sources := [], s_keys := []\<rparr>"

definition isStale :: "u64 \<Rightarrow> u64 \<Rightarrow> bool" where
  "isStale submittedHeight latestSentHeight =
     (submittedHeight \<noteq> 0 \<and> submittedHeight < latestSentHeight)"


section \<open>Runs of the cache\<close>

text \<open>The calls other components make, as one step each; a run is a list of calls.\<close>

datatype cache_op =
    Observe u64 u64
  | SetOwner u64 u64 "u64 list"
  | RemoveOwner u64
  | Release reservation
  | Reserve u64 u64 string
  | RemoveSource u64
  | Clear

fun cache_step :: "cache_op \<Rightarrow> share_cache \<Rightarrow> share_cache" where
  "cache_step (Observe src h) c = observeHeight src h c"
| "cache_step (SetOwner ow src hs) c = setOwnerHeights ow src hs c"
| "cache_step (RemoveOwner ow) c = removeOwner ow c"
| "cache_step (Release r) c = release r c"
| "cache_step (Reserve src h k) c = snd (snd (reserve src h k c))"
| "cache_step (RemoveSource src) c = removeSource src c"
| "cache_step Clear c = clear c"

definition cache_run :: "cache_op list \<Rightarrow> share_cache \<Rightarrow> share_cache" where
  "cache_run ops c = fold cache_step ops c"

end
