(* ===== verification/Share_Cache_Inv.thy ===== *)
theory Share_Cache_Inv
  imports Share_Cache
begin

text \<open>
  The invariant \<open>cache_ok\<close> of the share cache: the views of the nested maps, what the helper functions
  of the cache do to them, and the preservation of the invariant by the detaching of a connection.
\<close>

section \<open>Views of the nested maps\<close>

definition bucket :: "(u64, source_entries) umap \<Rightarrow> u64 \<Rightarrow> u64 \<Rightarrow> height_entries option" where
  "bucket S src h =
     (case map_of S src of None \<Rightarrow> None | Some se \<Rightarrow> map_of (se_heights se) h)"

definition newest :: "(u64, source_entries) umap \<Rightarrow> u64 \<Rightarrow> u64" where
  "newest S src = (case map_of S src of None \<Rightarrow> 0 | Some se \<Rightarrow> se_currentHeight se)"

definition count :: "(u64, source_entries) umap \<Rightarrow> u64 \<Rightarrow> u64 \<Rightarrow> nat" where
  "count S src h = (case bucket S src h of None \<Rightarrow> 0 | Some b \<Rightarrow> he_owners b)"

definition entry :: "(u64, source_entries) umap \<Rightarrow> u64 \<Rightarrow> u64 \<Rightarrow> string \<Rightarrow> u64 option" where
  "entry S src h k = (case bucket S src h of None \<Rightarrow> None | Some b \<Rightarrow> map_of (he_entries b) k)"

definition refs :: "(u64, owner_heights) umap \<Rightarrow> u64 \<Rightarrow> u64 \<Rightarrow> nat" where
  "refs ows src h =
     length (filter (\<lambda>(ow, oh). oh_sourceId oh = src \<and> h \<in> set (oh_heights oh)) ows)"

definition wf_sources :: "(u64, source_entries) umap \<Rightarrow> bool" where
  "wf_sources S \<longleftrightarrow> um_ok S \<and>
     (\<forall>src se. map_of S src = Some se \<longrightarrow> um_ok (se_heights se) \<and>
        (\<forall>h b. map_of (se_heights se) h = Some b \<longrightarrow> um_ok (he_entries b)))"

lemmas view_defs = bucket_def newest_def count_def entry_def

lemma wf_sources_heights [intro]: "wf_sources S \<Longrightarrow> map_of S src = Some se \<Longrightarrow> um_ok (se_heights se)"
  by (auto simp: wf_sources_def)

lemma wf_sources_bucket [intro]: "wf_sources S \<Longrightarrow> bucket S src h = Some b \<Longrightarrow> um_ok (he_entries b)"
  by (auto simp: wf_sources_def bucket_def split: option.splits)

lemma wf_sources_update:
  "wf_sources S \<Longrightarrow> um_ok (se_heights se) \<Longrightarrow>
   (\<And>h b. map_of (se_heights se) h = Some b \<Longrightarrow> um_ok (he_entries b)) \<Longrightarrow>
   wf_sources (AList.update src se S)"
  by (auto simp: wf_sources_def update_conv')

lemma bucket_update_source:
  "bucket (AList.update src se S) src' h =
     (if src' = src then map_of (se_heights se) h else bucket S src' h)"
  by (simp add: bucket_def update_conv')

lemma newest_update_source:
  "newest (AList.update src se S) src' = (if src' = src then se_currentHeight se else newest S src')"
  by (simp add: newest_def update_conv')

subsection \<open>Erasing entries from the global index\<close>

lemma eraseEntries_Nil [simp]: "eraseEntries [] keys = keys"
  by (simp add: eraseEntries_def)

lemma eraseEntries_Cons:
  "eraseEntries ((k, t) # es) keys =
     eraseEntries es (if map_of keys k = Some t then AList.delete k keys else keys)"
  by (simp add: eraseEntries_def)

lemma um_ok_eraseEntries [simp]: "um_ok keys \<Longrightarrow> um_ok (eraseEntries es keys)"
  by (induction es arbitrary: keys) (auto simp: eraseEntries_Cons)

lemma length_eraseEntries: "length (eraseEntries es keys) \<le> length keys"
proof (induction es arbitrary: keys)
  case (Cons e es)
  obtain k t where e: "e = (k, t)" by (cases e)
  show ?case
    using Cons[of "AList.delete k keys"] Cons[of keys] length_delete_le[of k keys]
    by (auto simp: e eraseEntries_Cons)
qed simp

lemma map_of_eraseEntries:
  "um_ok es \<Longrightarrow> map_of (eraseEntries es keys) k =
     (if map_of es k = map_of keys k then None else map_of keys k)"
proof (induction es arbitrary: keys)
  case (Cons e es)
  obtain k' t where e: "e = (k', t)" by (cases e)
  have ok: "um_ok es" and fresh: "map_of es k' = None"
    using Cons.prems by (auto simp: um_ok_def e map_of_eq_None_iff)
  show ?case
    using fresh by (auto simp: e eraseEntries_Cons Cons.IH[OF ok] delete_conv')
qed simp

subsection \<open>Heights of a source\<close>

lemma bucket_set_heights:
  "map_of S src = Some se \<Longrightarrow> bucket (set_heights src hs S) src' h =
     (if src' = src then map_of hs h else bucket S src' h)"
  by (simp add: set_heights_def bucket_update_source)

lemma newest_set_heights [simp]: "newest (set_heights src hs S) src' = newest S src'"
  by (simp add: set_heights_def newest_def update_conv' split: option.splits)

lemma wf_set_heights:
  "wf_sources S \<Longrightarrow> um_ok hs \<Longrightarrow> (\<And>h b. map_of hs h = Some b \<Longrightarrow> um_ok (he_entries b)) \<Longrightarrow>
   wf_sources (set_heights src hs S)"
  by (auto simp: set_heights_def intro!: wf_sources_update split: option.split)

lemma bucket_Some_source:
  "bucket S src h = Some b \<Longrightarrow> \<exists>se. map_of S src = Some se \<and> map_of (se_heights se) h = Some b"
  by (auto simp: bucket_def split: option.splits)

lemma bucket_source: "map_of S src = Some se \<Longrightarrow> bucket S src h = map_of (se_heights se) h"
  by (simp add: bucket_def)

lemma dec_owner_eq:
  "dec_owner src h S =
     (case bucket S src h of None \<Rightarrow> S
      | Some b \<Rightarrow> if he_owners b = 0 then S
                  else set_heights src (AList.update h (b\<lparr>he_owners := he_owners b - 1\<rparr>)
                         (se_heights (the (map_of S src)))) S)"
  by (auto simp: dec_owner_def bucket_def split: option.splits)

lemma bucket_dec_owner:
  "bucket (dec_owner src h S) src' h' =
     (if src' = src \<and> h' = h
      then map_option (\<lambda>b. b\<lparr>he_owners := he_owners b - 1\<rparr>) (bucket S src h)
      else bucket S src' h')"
proof (cases "bucket S src h")
  case (Some b)
  then obtain se where "map_of S src = Some se" and h: "map_of (se_heights se) h = Some b"
    by (blast dest: bucket_Some_source)
  note upd = bucket_set_heights [OF this(1)] and src = this(1)
  show ?thesis
    using h src Some by (simp add: dec_owner_eq upd update_conv' bucket_source [OF src])
qed (auto simp: dec_owner_eq)

lemma newest_dec_owner [simp]: "newest (dec_owner src h S) src' = newest S src'"
  by (auto simp: dec_owner_eq split: option.splits)

lemma wf_dec_owner [intro]: "wf_sources S \<Longrightarrow> wf_sources (dec_owner src h S)"
  by (auto simp: dec_owner_eq update_conv' intro!: wf_set_heights dest!: bucket_Some_source
      split: option.splits if_splits) (auto simp: wf_sources_def)

lemma count_dec_owner:
  "count (dec_owner src h S) src' h' =
     (if src' = src \<and> h' = h then count S src h - 1 else count S src' h')"
  by (auto simp: count_def bucket_dec_owner split: option.splits)

lemma entry_dec_owner [simp]: "entry (dec_owner src h S) src' h' k = entry S src' h' k"
  by (auto simp: entry_def bucket_dec_owner split: option.splits)

lemma bucket_None_dec_owner [simp]:
  "bucket (dec_owner src h S) src' h' = None \<longleftrightarrow> bucket S src' h' = None"
  by (auto simp: bucket_dec_owner)

lemma fold_dec_owner:
  "distinct hs \<Longrightarrow> count (fold (dec_owner src) hs S) src' h' =
     (if src' = src \<and> h' \<in> set hs then count S src' h' - 1 else count S src' h')"
  by (induction hs arbitrary: S) (auto simp: count_dec_owner)

lemma fold_dec_owner_frame [simp, frame_rules]:
  "entry (fold (dec_owner src) hs S) src' h' k = entry S src' h' k"
  "newest (fold (dec_owner src) hs S) src' = newest S src'"
  "bucket (fold (dec_owner src) hs S) src' h' = None \<longleftrightarrow> bucket S src' h' = None"
  by (induction hs arbitrary: S) auto

lemma wf_fold_dec_owner: "wf_sources S \<Longrightarrow> wf_sources (fold (dec_owner src) hs S)"
  by (induction hs arbitrary: S) auto

lemma bucket_inc_owner:
  "bucket (inc_owner src h S) src' h' =
     (if src' = src \<and> h' = h
      then Some ((case bucket S src h of None \<Rightarrow> empty_height | Some b \<Rightarrow> b)
                   \<lparr>he_owners := Suc (count S src h)\<rparr>)
      else bucket S src' h')"
  by (auto simp: inc_owner_def Let_def bucket_def count_def update_conv' empty_source_def
      empty_height_def split: option.splits)

lemma newest_inc_owner [simp]: "newest (inc_owner src h S) src' = newest S src'"
  by (auto simp: inc_owner_def Let_def newest_def update_conv' empty_source_def split: option.splits)

lemma wf_inc_owner [intro]: "wf_sources S \<Longrightarrow> wf_sources (inc_owner src h S)"
  by (auto simp: inc_owner_def Let_def update_conv' empty_source_def empty_height_def
      intro!: wf_sources_update split: option.splits if_splits)
    (auto simp: wf_sources_def um_ok_def distinct_update)

lemma count_inc_owner:
  "count (inc_owner src h S) src' h' =
     (if src' = src \<and> h' = h then Suc (count S src h) else count S src' h')"
  by (auto simp: count_def bucket_inc_owner split: option.splits)

lemma entry_inc_owner [simp]: "entry (inc_owner src h S) src' h' k = entry S src' h' k"
  by (auto simp: entry_def bucket_inc_owner empty_height_def split: option.splits)

lemma fold_inc_owner:
  "distinct hs \<Longrightarrow> count (fold (inc_owner src) hs S) src' h' =
     (if src' = src \<and> h' \<in> set hs then Suc (count S src' h') else count S src' h')"
  by (induction hs arbitrary: S) (auto simp: count_inc_owner)

lemma fold_inc_owner_frame [simp, frame_rules]:
  "entry (fold (inc_owner src) hs S) src' h' k = entry S src' h' k"
  "newest (fold (inc_owner src) hs S) src' = newest S src'"
  by (induction hs arbitrary: S) auto

lemma wf_fold_inc_owner: "wf_sources S \<Longrightarrow> wf_sources (fold (inc_owner src) hs S)"
  by (induction hs arbitrary: S) auto

lemma bucket_fold_inc_owner_None:
  "bucket (fold (inc_owner src) hs S) src' h' = None \<longleftrightarrow>
     bucket S src' h' = None \<and> \<not> (src' = src \<and> h' \<in> set hs)"
  by (induction hs arbitrary: S) (auto simp: bucket_inc_owner)

section \<open>The invariant\<close>

text \<open>
  \<open>index_ok\<close>: the global index holds exactly the entries of the buckets, and no identity is in two
  buckets. \<open>counted\<close>: the reference count of a bucket is the number of connections that list its
  height (plus \<open>extra\<close> in the middle of \<open>setOwnerHeights\<close>, where the new references are attached
  before the old ones are detached). \<open>noleak\<close>: a bucket no connection refers to is the one of the
  newest height of its source. \<open>sized\<close>: the capacity limits.
\<close>

definition index_ok :: "(u64, source_entries) umap \<Rightarrow> (string, u64) umap \<Rightarrow> bool" where
  "index_ok S keys \<longleftrightarrow>
     (\<forall>k t. map_of keys k = Some t \<longleftrightarrow> (\<exists>src h. entry S src h k = Some t)) \<and>
     (\<forall>src h src' h' k. entry S src h k \<noteq> None \<and> entry S src' h' k \<noteq> None \<longrightarrow> src' = src \<and> h' = h) \<and>
     (\<forall>src h k t. entry S src h k = Some t \<longrightarrow> t \<noteq> 0 \<and> length k = kKeySize)"

definition sized :: "share_cache \<Rightarrow> bool" where
  "sized c \<longleftrightarrow> length (s_keys c) \<le> kMaxEntries \<and>
     (\<forall>src se. map_of (s_sources c) src = Some se \<longrightarrow>
        source_size (se_heights se) \<le> kMaxEntriesPerSource)"

definition owners_ok :: "(u64, owner_heights) umap \<Rightarrow> bool" where
  "owners_ok ows \<longleftrightarrow> um_ok ows \<and>
     (\<forall>ow oh. map_of ows ow = Some oh \<longrightarrow> distinct (oh_heights oh) \<and> oh_heights oh \<noteq> [])"

definition core :: "share_cache \<Rightarrow> bool" where
  "core c \<longleftrightarrow> wf_sources (s_sources c) \<and> um_ok (s_keys c) \<and> owners_ok (s_owners c) \<and>
     index_ok (s_sources c) (s_keys c) \<and> sized c"

definition counted :: "(u64 \<Rightarrow> u64 \<Rightarrow> nat) \<Rightarrow> share_cache \<Rightarrow> bool" where
  "counted extra c \<longleftrightarrow>
     (\<forall>src h. count (s_sources c) src h = refs (s_owners c) src h + extra src h)"

definition noleak_except :: "u64 \<Rightarrow> u64 set \<Rightarrow> share_cache \<Rightarrow> bool" where
  "noleak_except src0 hs0 c \<longleftrightarrow>
     (\<forall>src h b. bucket (s_sources c) src h = Some b \<and> he_owners b = 0 \<longrightarrow>
        newest (s_sources c) src = h \<or> (src = src0 \<and> h \<in> hs0))"

abbreviation noleak :: "share_cache \<Rightarrow> bool" where
  "noleak c \<equiv> noleak_except 0 {} c"

definition cache_ok :: "share_cache \<Rightarrow> bool" where
  "cache_ok c \<longleftrightarrow> core c \<and> counted (\<lambda>_ _. 0) c \<and> noleak c"

lemma index_ok_entry_key: "index_ok S keys \<Longrightarrow> entry S src h k = Some t \<Longrightarrow> map_of keys k = Some t"
  by (auto simp: index_ok_def)

lemma index_ok_bucket_key:
  "index_ok S keys \<Longrightarrow> bucket S src h = Some b \<Longrightarrow> map_of (he_entries b) k = Some t \<Longrightarrow>
   map_of keys k = Some t"
  using index_ok_entry_key [of S keys src h k t] by (simp add: entry_def)

lemma index_ok_unique:
  "index_ok S keys \<Longrightarrow> entry S src h k = Some t \<Longrightarrow> entry S src' h' k = Some t' \<Longrightarrow>
   src' = src \<and> h' = h"
  unfolding index_ok_def by (metis option.distinct(1))

lemma index_ok_key_entry:
  "index_ok S keys \<Longrightarrow> map_of keys k = Some t \<Longrightarrow> \<exists>src h. entry S src h k = Some t"
  unfolding index_ok_def by blast

lemma index_drop:
  assumes ok: "index_ok S keys"
    and S': "\<And>src h k. entry S' src h k = (if D src h k then None else entry S src h k)"
    and keys': "\<And>k. map_of keys' k =
      (if \<exists>src h. D src h k \<and> entry S src h k \<noteq> None then None else map_of keys k)"
  shows "index_ok S' keys'"
proof -
  have "map_of keys' k = Some t \<longleftrightarrow> (\<exists>src h. entry S' src h k = Some t)" for k t
  proof (cases "\<exists>src h. D src h k \<and> entry S src h k \<noteq> None")
    case True
    then obtain src h where D: "D src h k" "entry S src h k \<noteq> None" by blast
    have "entry S' src' h' k = None" for src' h'
      using ok D unfolding S' index_ok_def by metis
    with True show ?thesis by (simp add: keys')
  next
    case False
    then have "entry S' src h k = entry S src h k" for src h by (auto simp: S')
    moreover have "map_of keys' k = map_of keys k" by (subst keys') (use False in auto)
    ultimately show ?thesis using ok by (simp add: index_ok_def)
  qed
  moreover have sub: "entry S src h k = Some t" if "entry S' src h k = Some t" for src h k t
    using that by (simp add: S' split: if_splits)
  moreover have "src' = src \<and> h' = h" if "entry S' src h k \<noteq> None \<and> entry S' src' h' k \<noteq> None"
    for src h src' h' k
    using that by (auto dest!: sub dest: index_ok_unique [OF ok])
  moreover have "t \<noteq> 0 \<and> length k = kKeySize" if "entry S' src h k = Some t" for src h k t
    using ok sub [OF that] by (simp add: index_ok_def)
  ultimately show ?thesis unfolding index_ok_def by blast
qed

lemma index_ok_cong:
  "index_ok S keys \<Longrightarrow> (\<And>src h k. entry S' src h k = entry S src h k) \<Longrightarrow> index_ok S' keys"
  by (simp add: index_ok_def)

subsection \<open>Sizes\<close>

lemma source_size_update:
  "um_ok hs \<Longrightarrow> source_size (AList.update h b hs) +
     (case map_of hs h of None \<Rightarrow> 0 | Some b' \<Rightarrow> length (he_entries b')) =
   source_size hs + length (he_entries b)"
  by (induction hs) (auto simp: source_size_def um_ok_def dom_map_of_conv_image_fst
      split: option.splits)

lemma source_size_Nil [simp]: "source_size [] = 0"
  by (simp add: source_size_def)

lemma source_size_filter: "source_size (filter P hs) \<le> source_size hs"
  by (induction hs) (auto simp: source_size_def)

lemma source_size_delete: "source_size (AList.delete h hs) \<le> source_size hs"
  by (simp add: AList.delete_eq source_size_filter)

lemma source_size_update_same:
  "um_ok hs \<Longrightarrow> map_of hs h = Some b' \<Longrightarrow> length (he_entries b) = length (he_entries b') \<Longrightarrow>
   source_size (AList.update h b hs) = source_size hs"
  using source_size_update [of hs h b] by simp

lemma source_size_update_new:
  "um_ok hs \<Longrightarrow> map_of hs h = None \<Longrightarrow> he_entries b = [] \<Longrightarrow>
   source_size (AList.update h b hs) = source_size hs"
  using source_size_update [of hs h b] by simp

definition bounded_sources :: "(u64, source_entries) umap \<Rightarrow> bool" where
  "bounded_sources S \<longleftrightarrow> (\<forall>src se. map_of S src = Some se \<longrightarrow>
        source_size (se_heights se) \<le> kMaxEntriesPerSource)"

lemma sized_alt: "sized c \<longleftrightarrow> length (s_keys c) \<le> kMaxEntries \<and> bounded_sources (s_sources c)"
  by (simp add: sized_def bounded_sources_def)

lemma bounded_set_heights:
  "bounded_sources S \<Longrightarrow> source_size hs \<le> kMaxEntriesPerSource \<Longrightarrow> bounded_sources (set_heights src hs S)"
  by (auto simp: bounded_sources_def set_heights_def update_conv' split: option.splits)

lemma bounded_sources_at:
  "bounded_sources S \<Longrightarrow> map_of S src = Some se \<Longrightarrow> source_size (se_heights se) \<le> kMaxEntriesPerSource"
  by (auto simp: bounded_sources_def)

lemma bounded_dec_owner:
  "wf_sources S \<Longrightarrow> bounded_sources S \<Longrightarrow> bounded_sources (dec_owner src h S)"
proof (cases "bucket S src h")
  case (Some b)
  assume wf: "wf_sources S" and bd: "bounded_sources S"
  from Some obtain se where src: "map_of S src = Some se" and h: "map_of (se_heights se) h = Some b"
    by (blast dest: bucket_Some_source)
  have "source_size (AList.update h (b\<lparr>he_owners := he_owners b - 1\<rparr>) (se_heights se)) = source_size (se_heights se)"
    by (rule source_size_update_same [OF wf_sources_heights [OF wf src] h]) simp
  with bd src h Some show ?thesis
    by (simp add: dec_owner_eq bounded_set_heights bounded_sources_at)
qed (simp add: dec_owner_eq)

lemma bounded_fold_dec_owner:
  "wf_sources S \<Longrightarrow> bounded_sources S \<Longrightarrow> bounded_sources (fold (dec_owner src) hs S)"
  by (induction hs arbitrary: S) (simp_all add: bounded_dec_owner wf_dec_owner)

lemma bounded_inc_owner:
  assumes wf: "wf_sources S" and bd: "bounded_sources S"
  shows "bounded_sources (inc_owner src h S)"
proof -
  define se where "se = (case map_of S src of None \<Rightarrow> empty_source | Some se \<Rightarrow> se)"
  define b where "b = (case map_of (se_heights se) h of None \<Rightarrow> empty_height | Some b \<Rightarrow> b)"
  have ok: "um_ok (se_heights se)" and le: "source_size (se_heights se) \<le> kMaxEntriesPerSource"
    using wf bd by (auto simp: se_def empty_source_def bounded_sources_at wf_sources_heights
        split: option.splits)
  have "source_size (AList.update h (b\<lparr>he_owners := Suc (he_owners b)\<rparr>) (se_heights se)) = source_size (se_heights se)"
    using ok by (cases "map_of (se_heights se) h")
      (auto simp: b_def empty_height_def intro: source_size_update_same source_size_update_new)
  with le bd show ?thesis
    by (auto simp: inc_owner_def Let_def bounded_sources_def update_conv' simp flip: se_def b_def)
qed

lemma bounded_fold_inc_owner:
  "wf_sources S \<Longrightarrow> bounded_sources S \<Longrightarrow> bounded_sources (fold (inc_owner src) hs S)"
  by (induction hs arbitrary: S) (simp_all add: bounded_inc_owner wf_inc_owner)

subsection \<open>Reference counts\<close>

lemma refs_delete:
  "um_ok ows \<Longrightarrow> map_of ows ow = Some oh \<Longrightarrow>
   refs ows src h = refs (AList.delete ow ows) src h +
     (if oh_sourceId oh = src \<and> h \<in> set (oh_heights oh) then 1 else 0)"
proof (induction ows)
  case (Cons e ows)
  obtain ow' oh' where e: "e = (ow', oh')" by (cases e)
  show ?case
  proof (cases "ow' = ow")
    case True
    with Cons.prems have "AList.delete ow ows = ows" and "oh' = oh"
      by (force simp: e um_ok_def AList.delete_eq filter_id_conv)+
    with True show ?thesis by (simp add: e refs_def)
  next
    case False
    with Cons.prems have "um_ok ows" and "map_of ows ow = Some oh" by (auto simp: e um_ok_def)
    from Cons.IH[OF this] False show ?thesis by (simp add: e refs_def)
  qed
qed simp

lemma refs_update_fresh:
  "map_of ows ow = None \<Longrightarrow>
   refs (AList.update ow oh ows) src h = refs ows src h +
     (if oh_sourceId oh = src \<and> h \<in> set (oh_heights oh) then 1 else 0)"
  by (induction ows) (auto simp: refs_def)

lemma refs_filter_source:
  "refs (filter (\<lambda>(ow, oh). oh_sourceId oh \<noteq> src0) ows) src h = (if src = src0 then 0 else refs ows src h)"
  by (induction ows) (auto simp: refs_def)

lemma refs_pos:
  "um_ok ows \<Longrightarrow> map_of ows ow = Some oh \<Longrightarrow> h \<in> set (oh_heights oh) \<Longrightarrow> refs ows (oh_sourceId oh) h \<noteq> 0"
  by (simp add: refs_delete)

section \<open>Erasing unused heights and detaching connections\<close>

text \<open>
  \<open>shrinks c c'\<close>: going from \<open>c\<close> to \<open>c'\<close> no entry of a bucket that is still there changes, and a
  bucket that disappears is not the one of the newest height.
\<close>

definition shrinks :: "share_cache \<Rightarrow> share_cache \<Rightarrow> bool" where
  "shrinks c c' \<longleftrightarrow>
     (\<forall>src h k. entry (s_sources c') src h k =
        (if bucket (s_sources c') src h = None then None else entry (s_sources c) src h k)) \<and>
     (\<forall>src h. bucket (s_sources c) src h \<noteq> None \<and> bucket (s_sources c') src h = None \<longrightarrow>
        newest (s_sources c') src \<noteq> h)"

definition unused :: "share_cache \<Rightarrow> u64 \<Rightarrow> u64 \<Rightarrow> bool" where
  "unused c src h \<longleftrightarrow>
     bucket (s_sources c) src h \<noteq> None \<and> count (s_sources c) src h = 0 \<and> newest (s_sources c) src \<noteq> h"

lemma unused_bucket:
  "unused c src h \<longleftrightarrow>
     (\<exists>b. bucket (s_sources c) src h = Some b \<and> he_owners b = 0 \<and> newest (s_sources c) src \<noteq> h)"
  by (auto simp: unused_def count_def)

lemma shrinks_refl: "shrinks c c"
  by (auto simp: shrinks_def entry_def)

lemma eraseHeight_no: "\<not> unused c src h \<Longrightarrow> eraseHeightIfUnused src h c = c"
  by (auto simp: eraseHeightIfUnused_def unused_bucket bucket_def newest_def split: option.splits)

lemma eraseHeight_yes:
  assumes "unused c src h"
  obtains se b where "map_of (s_sources c) src = Some se" and "map_of (se_heights se) h = Some b"
    and "he_owners b = 0" and "se_currentHeight se \<noteq> h"
    and "eraseHeightIfUnused src h c =
      c\<lparr>s_keys := eraseEntries (he_entries b) (s_keys c),
        s_sources := set_heights src (AList.delete h (se_heights se)) (s_sources c)\<rparr>"
  using assms
  by (auto simp: unused_bucket bucket_def newest_def eraseHeightIfUnused_def split: option.splits)

lemma eraseHeight_frame [simp, frame_rules]:
  "s_owners (eraseHeightIfUnused src h c) = s_owners c"
  "s_sequence (eraseHeightIfUnused src h c) = s_sequence c"
  "newest (s_sources (eraseHeightIfUnused src h c)) src' = newest (s_sources c) src'"
  by (cases "unused c src h"; auto simp: eraseHeight_no elim!: eraseHeight_yes)+

lemma bucket_eraseHeight:
  "bucket (s_sources (eraseHeightIfUnused src h c)) src' h' =
     (if unused c src h \<and> src' = src \<and> h' = h then None else bucket (s_sources c) src' h')"
proof (cases "unused c src h")
  case True
  then show ?thesis
    by (auto elim!: eraseHeight_yes simp: bucket_set_heights delete_conv' bucket_source)
qed (simp add: eraseHeight_no)

lemma count_eraseHeight [simp]:
  "count (s_sources (eraseHeightIfUnused src h c)) src' h' = count (s_sources c) src' h'"
  by (auto simp: count_def bucket_eraseHeight unused_bucket)

lemma entry_eraseHeight:
  "entry (s_sources (eraseHeightIfUnused src h c)) src' h' k =
     (if unused c src h \<and> src' = src \<and> h' = h then None else entry (s_sources c) src' h' k)"
  by (simp add: entry_def bucket_eraseHeight)

lemma shrinks_eraseHeight: "shrinks c (eraseHeightIfUnused src h c)"
  by (auto simp: shrinks_def entry_eraseHeight bucket_eraseHeight unused_def)
    (auto simp: entry_def)

lemma core_eraseHeight:
  assumes "core c"
  shows "core (eraseHeightIfUnused src h c)"
proof (cases "unused c src h")
  case True
  let ?c' = "eraseHeightIfUnused src h c"
  obtain se b where src: "map_of (s_sources c) src = Some se" and h: "map_of (se_heights se) h = Some b"
    and eq: "?c' = c\<lparr>s_keys := eraseEntries (he_entries b) (s_keys c),
        s_sources := set_heights src (AList.delete h (se_heights se)) (s_sources c)\<rparr>"
    using True by (rule eraseHeight_yes)
  have wf: "wf_sources (s_sources c)" and ix: "index_ok (s_sources c) (s_keys c)" and sz: "sized c"
    using assms by (auto simp: core_def)
  have ent: "entry (s_sources c) src h k = map_of (he_entries b) k" for k
    by (simp add: entry_def bucket_source [OF src] h)
  have "wf_sources (s_sources ?c')"
    using wf wf_sources_heights [OF wf src] wf_sources_bucket [OF wf, of src]
    by (auto simp: eq delete_conv' bucket_source [OF src] intro!: wf_set_heights split: if_splits)
  moreover have "index_ok (s_sources ?c') (s_keys ?c')"
  proof (rule index_drop [OF ix, where D = "\<lambda>src' h' k. src' = src \<and> h' = h"])
    have okb: "um_ok (he_entries b)"
      using wf_sources_bucket [OF wf, of src h b] by (simp add: bucket_source [OF src] h)
    show "map_of (s_keys ?c') k = (if \<exists>src' h'. (src' = src \<and> h' = h) \<and> entry (s_sources c) src' h' k \<noteq> None
        then None else map_of (s_keys c) k)" for k
      using index_ok_entry_key [OF ix, of src h k]
      by (cases "map_of (he_entries b) k") (simp_all add: eq map_of_eraseEntries [OF okb] ent)
  qed (use True in \<open>simp add: entry_eraseHeight\<close>)
  moreover have "sized ?c'"
    using sz length_eraseEntries [of "he_entries b" "s_keys c"] source_size_delete [of h "se_heights se"]
    by (auto simp: sized_alt eq src intro!: bounded_set_heights dest: bounded_sources_at [OF _ src])
  ultimately show ?thesis
    using assms by (simp add: core_def eq)
qed (use assms in \<open>simp add: eraseHeight_no\<close>)

lemma noleak_eraseHeight:
  "noleak_except src hs0 c \<Longrightarrow> noleak_except src (hs0 - {h}) (eraseHeightIfUnused src h c)"
  by (fastforce simp: noleak_except_def bucket_eraseHeight unused_bucket split: if_splits)

lemma fold_eraseHeight:
  assumes "core c" and "noleak_except src hs0 c"
  shows "core (fold (eraseHeightIfUnused src) hs c) \<and>
    noleak_except src (hs0 - set hs) (fold (eraseHeightIfUnused src) hs c)"
  using assms
proof (induction hs arbitrary: c hs0)
  case (Cons h hs)
  have "hs0 - {h} - set hs = hs0 - set (h # hs)" by auto
  with Cons.IH [OF core_eraseHeight noleak_eraseHeight, of c hs0 h] Cons.prems show ?case by simp
qed simp

lemma fold_eraseHeight_frame [simp, frame_rules]:
  "s_owners (fold (eraseHeightIfUnused src) hs c) = s_owners c"
  "s_sequence (fold (eraseHeightIfUnused src) hs c) = s_sequence c"
  "newest (s_sources (fold (eraseHeightIfUnused src) hs c)) src' = newest (s_sources c) src'"
  "count (s_sources (fold (eraseHeightIfUnused src) hs c)) src' h' = count (s_sources c) src' h'"
  by (induction hs arbitrary: c) auto

lemma fold_eraseHeight_no_new:
  "bucket (s_sources c) src' h' = None \<Longrightarrow>
   bucket (s_sources (fold (eraseHeightIfUnused src) hs c)) src' h' = None"
  by (induction hs arbitrary: c) (simp_all add: bucket_eraseHeight)

lemma shrinks_trans:
  assumes 1: "shrinks c c1" and 2: "shrinks c1 c2"
    and same: "\<And>src. newest (s_sources c2) src = newest (s_sources c1) src"
    and nonew: "\<And>src h. bucket (s_sources c1) src h = None \<Longrightarrow> bucket (s_sources c2) src h = None"
  shows "shrinks c c2"
  unfolding shrinks_def
proof (intro conjI allI impI)
  fix src h k
  show "entry (s_sources c2) src h k =
      (if bucket (s_sources c2) src h = None then None else entry (s_sources c) src h k)"
    using 1 2 nonew [of src h]
    by (cases "bucket (s_sources c2) src h"; cases "bucket (s_sources c1) src h") (auto simp: shrinks_def)
next
  fix src h
  assume "bucket (s_sources c) src h \<noteq> None \<and> bucket (s_sources c2) src h = None"
  with 1 2 same [of src] show "newest (s_sources c2) src \<noteq> h"
    unfolding shrinks_def by metis
qed

lemma shrinks_fold_eraseHeight: "shrinks c (fold (eraseHeightIfUnused src) hs c)"
proof (induction hs arbitrary: c)
  case (Cons h hs)
  show ?case
    using shrinks_trans [OF shrinks_eraseHeight Cons.IH, of src h c] fold_eraseHeight_no_new
    by simp
qed (simp add: shrinks_refl)

lemma noleak_alt:
  "noleak_except src0 hs0 c \<longleftrightarrow>
     (\<forall>src h. bucket (s_sources c) src h \<noteq> None \<and> count (s_sources c) src h = 0 \<longrightarrow>
        newest (s_sources c) src = h \<or> (src = src0 \<and> h \<in> hs0))"
  by (force simp: noleak_except_def count_def)

lemma detachOwner_None: "map_of (s_owners c) ow = None \<Longrightarrow> detachOwner ow c = c"
  by (simp add: detachOwner_def)

lemma detachOwner_Some:
  assumes "core c" and "counted e c" and ow: "map_of (s_owners c) ow = Some oh"
  shows "detachOwner ow c = fold (eraseHeightIfUnused (oh_sourceId oh)) (oh_heights oh)
     (c\<lparr>s_owners := AList.delete ow (s_owners c),
        s_sources := fold (dec_owner (oh_sourceId oh)) (oh_heights oh) (s_sources c)\<rparr>)"
proof -
  have own: "um_ok (s_owners c)" and ne: "oh_heights oh \<noteq> []"
    using assms by (auto simp: core_def owners_ok_def)
  then have "refs (s_owners c) (oh_sourceId oh) (hd (oh_heights oh)) \<noteq> 0"
    using refs_pos [OF own ow] by simp
  then have "count (s_sources c) (oh_sourceId oh) (hd (oh_heights oh)) \<noteq> 0"
    using assms(2) by (simp add: counted_def)
  then obtain se where "map_of (s_sources c) (oh_sourceId oh) = Some se"
    by (auto simp: count_def bucket_def split: option.splits)
  then show ?thesis by (simp add: detachOwner_def ow Let_def)
qed

lemma detachOwner_owners:
  assumes "core c" and "counted e c"
  shows "s_owners (detachOwner ow c) = AList.delete ow (s_owners c)"
proof (cases "map_of (s_owners c) ow")
  case None
  then have "AList.delete ow (s_owners c) = s_owners c"
    by (force simp: AList.delete_eq filter_id_conv map_of_eq_None_iff)
  with None show ?thesis by (simp add: detachOwner_None)
qed (simp add: detachOwner_Some [OF assms])

lemma detachOwner_frame [frame_rules]:
  assumes "core c" and "counted e c"
  shows "s_sequence (detachOwner ow c) = s_sequence c"
    and "newest (s_sources (detachOwner ow c)) src = newest (s_sources c) src"
  by (cases "map_of (s_owners c) ow"; simp add: detachOwner_None detachOwner_Some [OF assms])+

lemma detachOwner_ok:
  assumes core: "core c" and cnt: "counted e c" and nl: "noleak c"
  shows "core (detachOwner ow c) \<and> counted e (detachOwner ow c) \<and> noleak (detachOwner ow c) \<and>
    shrinks c (detachOwner ow c)"
proof (cases "map_of (s_owners c) ow")
  case None
  with assms show ?thesis by (simp add: detachOwner_None shrinks_refl)
next
  case (Some oh)
  let ?src = "oh_sourceId oh" and ?hs = "oh_heights oh"
  define c2 where "c2 = c\<lparr>s_owners := AList.delete ow (s_owners c),
        s_sources := fold (dec_owner ?src) ?hs (s_sources c)\<rparr>"
  have own: "owners_ok (s_owners c)" and um: "um_ok (s_owners c)" and dist: "distinct ?hs"
    using core Some by (auto simp: core_def owners_ok_def)
  have wf: "wf_sources (s_sources c)" using core by (simp add: core_def)
  have core2: "core c2"
    using core wf own by (auto simp: core_def c2_def sized_alt owners_ok_def delete_conv'
        intro: wf_fold_dec_owner bounded_fold_dec_owner index_ok_cong)
  have cnt2: "counted e c2"
    using cnt refs_delete [OF um Some]
    by (simp add: counted_def c2_def fold_dec_owner [OF dist])
  have "noleak_except ?src (set ?hs) c2"
    using nl by (auto simp: noleak_alt c2_def fold_dec_owner [OF dist] split: if_splits)
  note 2 = fold_eraseHeight [OF core2 this, of ?hs]
  have eq: "detachOwner ow c = fold (eraseHeightIfUnused ?src) ?hs c2"
    by (simp add: detachOwner_Some [OF core cnt Some] c2_def)
  have "noleak (detachOwner ow c)"
    using 2 by (simp add: eq noleak_alt)
  moreover have "counted e (detachOwner ow c)"
    using cnt2 by (simp add: eq counted_def)
  moreover have "shrinks c (detachOwner ow c)"
    unfolding eq
  proof (rule shrinks_trans [of c c2])
    show "shrinks c c2"
      by (auto simp: shrinks_def c2_def) (auto simp: entry_def)
  qed (auto simp: fold_eraseHeight_no_new shrinks_fold_eraseHeight)
  ultimately show ?thesis using 2 by (simp add: eq)
qed

end
