(* ===== verification/Share_Cache_Props.thy ===== *)
theory Share_Cache_Props
  imports Share_Cache_Inv
begin

text \<open>
  Every operation of the share cache keeps \<open>cache_ok\<close>; its effect on the set of live identities; runs
  of the cache and the properties of every reachable state.
\<close>

section \<open>Every operation keeps the invariant\<close>

lemma cache_okD:
  assumes "cache_ok c"
  shows "core c" and "counted (\<lambda>_ _. 0) c" and "noleak c" and "wf_sources (s_sources c)"
    and "um_ok (s_keys c)" and "owners_ok (s_owners c)" and "index_ok (s_sources c) (s_keys c)"
    and "sized c"
  using assms by (auto simp: cache_ok_def core_def)

lemma cache_ok_init: "cache_ok init_cache"
  by (simp add: cache_ok_def core_def init_cache_def wf_sources_def index_ok_def owners_ok_def
      sized_def counted_def noleak_except_def refs_def view_defs)

lemma cache_ok_clear: "cache_ok (clear c)"
  by (simp add: cache_ok_def core_def clear_def wf_sources_def index_ok_def owners_ok_def
      sized_def counted_def noleak_except_def refs_def view_defs)

lemma removeOwner_ok: "cache_ok c \<Longrightarrow> cache_ok (removeOwner ow c)"
  using detachOwner_ok [of c "\<lambda>_ _. 0" ow] by (simp add: removeOwner_def cache_ok_def)

lemma unique_heights_set: "set (unique_heights seen hs) = set hs - {0} - set seen"
  by (induction seen hs rule: unique_heights.induct) auto

lemma unique_heights_distinct: "distinct (unique_heights seen hs)"
  by (induction seen hs rule: unique_heights.induct) (auto simp: unique_heights_set)

definition attach :: "u64 \<Rightarrow> u64 list \<Rightarrow> share_cache \<Rightarrow> share_cache" where
  "attach src us c = c\<lparr>s_sources := fold (inc_owner src) us (s_sources c)\<rparr>"

lemma attach_ok:
  assumes "cache_ok c" and dist: "distinct us"
  shows "core (attach src us c)"
    and "counted (\<lambda>src' h. if src' = src \<and> h \<in> set us then 1 else 0) (attach src us c)"
    and "noleak (attach src us c)" and "shrinks c (attach src us c)"
proof -
  note ok = cache_okD [OF assms(1)]
  show "core (attach src us c)"
    using ok by (auto simp: attach_def core_def sized_alt
        intro: wf_fold_inc_owner bounded_fold_inc_owner index_ok_cong)
  show "counted (\<lambda>src' h. if src' = src \<and> h \<in> set us then 1 else 0) (attach src us c)"
    using ok(2) by (simp add: counted_def attach_def fold_inc_owner [OF dist])
  show "noleak (attach src us c)"
    using ok(3) by (auto simp: noleak_alt attach_def fold_inc_owner [OF dist] bucket_fold_inc_owner_None
        split: if_splits)
  show "shrinks c (attach src us c)"
    by (auto simp: shrinks_def attach_def bucket_fold_inc_owner_None) (auto simp: entry_def)
qed

lemma setOwnerHeights_eq:
  "setOwnerHeights ow src hs c =
     (if ow = 0 then c
      else if src = 0 \<or> unique_heights [] hs = [] then detachOwner ow c
      else (let c2 = detachOwner ow (attach src (unique_heights [] hs) c)
            in c2\<lparr>s_owners := um_emplace ow \<lparr>oh_sourceId = src, oh_heights = unique_heights [] hs\<rparr>
                   (s_owners c2)\<rparr>))"
  by (auto simp: setOwnerHeights_def attach_def Let_def)

lemma setOwnerHeights_ok:
  assumes ok: "cache_ok c"
  shows "cache_ok (setOwnerHeights ow src hs c) \<and> shrinks c (setOwnerHeights ow src hs c)"
proof -
  define us where "us = unique_heights [] hs"
  have dist: "distinct us" by (simp add: us_def unique_heights_distinct)
  define c2 where "c2 = detachOwner ow (attach src us c)"
  note at = attach_ok [OF ok dist, of src]
  note det = detachOwner_ok [OF at(1-3), of ow]
  have owners: "s_owners c2 = AList.delete ow (s_owners c)"
    unfolding c2_def detachOwner_owners [OF at(1,2)] by (simp add: attach_def)
  have new: "um_emplace ow oh (s_owners c2) = AList.update ow oh (s_owners c2)" for oh
    by (simp add: um_emplace_def owners delete_conv')
  let ?oh = "\<lparr>oh_sourceId = src, oh_heights = us\<rparr>"
  let ?c' = "c2\<lparr>s_owners := um_emplace ow ?oh (s_owners c2)\<rparr>"
  have "core ?c'" if "us \<noteq> []"
    using det dist that by (auto simp: core_def new owners_ok_def update_conv' sized_alt simp flip: c2_def)
  moreover have "refs (s_owners ?c') src' h = refs (s_owners c2) src' h + (if src = src' \<and> h \<in> set us then 1 else 0)" for src' h
    using refs_update_fresh [of "s_owners c2" ow ?oh src' h] by (auto simp: new [unfolded owners] owners delete_conv')
  then have "counted (\<lambda>_ _. 0) ?c'"
    using det by (auto simp: counted_def simp flip: c2_def)
  moreover have "noleak ?c'"
    using det by (simp add: noleak_alt flip: c2_def)
  moreover have "shrinks c ?c'"
  proof -
    have "shrinks c c2"
      unfolding c2_def
    proof (rule shrinks_trans [OF at(4)])
      show "bucket (s_sources (detachOwner ow (attach src us c))) src' h = None"
        if "bucket (s_sources (attach src us c)) src' h = None" for src' h
        using that by (cases "map_of (s_owners (attach src us c)) ow")
          (auto simp: detachOwner_None detachOwner_Some [OF at(1,2)] intro!: fold_eraseHeight_no_new)
    qed (use det detachOwner_frame [OF at(1,2)] in auto)
    then show ?thesis by (simp add: shrinks_def)
  qed
  moreover have "cache_ok (detachOwner ow c) \<and> shrinks c (detachOwner ow c)"
    using detachOwner_ok [OF cache_okD(1-3) [OF ok]] by (simp add: cache_ok_def)
  ultimately show ?thesis
    using ok by (auto simp: setOwnerHeights_eq Let_def cache_ok_def shrinks_refl simp flip: us_def c2_def)
qed

lemma map_of_fold_eraseEntries:
  assumes "\<forall>(h, b) \<in> set bs. um_ok (he_entries b) \<and>
     (\<forall>t. map_of (he_entries b) k = Some t \<longrightarrow> map_of keys k = Some t \<or> map_of keys k = None)"
  shows "map_of (fold (\<lambda>(_, b). eraseEntries (he_entries b)) bs keys) k =
     (if \<exists>(h, b) \<in> set bs. map_of (he_entries b) k \<noteq> None then None else map_of keys k)"
  using assms
proof (induction bs arbitrary: keys)
  case (Cons hb bs)
  obtain h b where hb: "hb = (h, b)" by (cases hb)
  have okb: "um_ok (he_entries b)" using Cons.prems by (simp add: hb)
  have eq: "map_of (eraseEntries (he_entries b) keys) k =
      (if map_of (he_entries b) k \<noteq> None then None else map_of keys k)"
    using Cons.prems by (cases "map_of (he_entries b) k") (auto simp: hb map_of_eraseEntries)
  have "map_of (fold (\<lambda>(_, b). eraseEntries (he_entries b)) bs (eraseEntries (he_entries b) keys)) k =
     (if \<exists>(h, b) \<in> set bs. map_of (he_entries b) k \<noteq> None then None
      else map_of (eraseEntries (he_entries b) keys) k)"
    using Cons.prems by (intro Cons.IH) (auto simp: eq)
  then show ?case by (auto simp: hb eq)
qed simp

lemma um_ok_fold_eraseEntries:
  "um_ok keys \<Longrightarrow> um_ok (fold (\<lambda>(_, b). eraseEntries (he_entries b)) bs keys)"
  by (induction bs arbitrary: keys) auto

lemma length_fold_eraseEntries:
  "length (fold (\<lambda>(_, b). eraseEntries (he_entries b)) bs keys) \<le> length keys"
proof (induction bs arbitrary: keys)
  case (Cons hb bs)
  show ?case
    using le_trans [OF Cons.IH length_eraseEntries] by (auto split: prod.split)
qed simp

subsection \<open>Observing a new height\<close>

lemma bucket_observeHeight:
  assumes wf: "wf_sources (s_sources c)" and "src \<noteq> 0" and "h \<noteq> 0"
  shows "bucket (s_sources (observeHeight src h c)) src' h' =
     (if src' = src
      then (if h' = h then Some (case bucket (s_sources c) src h of None \<Rightarrow> empty_height | Some b \<Rightarrow> b)
            else if count (s_sources c) src h' = 0 then None else bucket (s_sources c) src h')
      else bucket (s_sources c) src' h')"
proof -
  define se where "se = (case map_of (s_sources c) src of None \<Rightarrow> empty_source | Some se \<Rightarrow> se)"
  have ok: "um_ok (se_heights se)"
    using wf by (auto simp: se_def empty_source_def split: option.splits)
  have b: "bucket (s_sources c) src h'' = map_of (se_heights se) h''" for h''
    by (simp add: bucket_def se_def empty_source_def split: option.splits)
  show ?thesis
    using assms(2,3) ok
    by (auto simp: observeHeight_def Let_def bucket_update_source map_of_filter_um map_of_um_emplace
        b count_def empty_height_def simp flip: se_def split: option.splits)
qed

lemma newest_observeHeight:
  "src \<noteq> 0 \<Longrightarrow> h \<noteq> 0 \<Longrightarrow>
   newest (s_sources (observeHeight src h c)) src' = (if src' = src then h else newest (s_sources c) src')"
  by (simp add: observeHeight_def Let_def newest_update_source)

lemma observeHeight_frame [simp, frame_rules]:
  "s_owners (observeHeight src h c) = s_owners c"
  "s_sequence (observeHeight src h c) = s_sequence c"
  by (simp_all add: observeHeight_def Let_def)

lemma observeHeight_ok:
  assumes ok: "cache_ok c"
  shows "cache_ok (observeHeight src h c) \<and> shrinks c (observeHeight src h c)"
proof (cases "src = 0 \<or> h = 0")
  case True
  with ok show ?thesis by (auto simp: observeHeight_def shrinks_refl)
next
  case False
  then have nz: "src \<noteq> 0" "h \<noteq> 0" by auto
  let ?c' = "observeHeight src h c"
  define se where "se = (case map_of (s_sources c) src of None \<Rightarrow> empty_source | Some se \<Rightarrow> se)"
  define hs where "hs = um_emplace h empty_height (se_heights se)"
  define stale where "stale = filter (\<lambda>(h', b). h' \<noteq> h \<and> he_owners b = 0) hs"
  define kept where "kept = filter (\<lambda>(h', b). \<not> (h' \<noteq> h \<and> he_owners b = 0)) hs"
  have eq: "?c' = c\<lparr>s_sources := AList.update src (se\<lparr>se_currentHeight := h, se_heights := kept\<rparr>) (s_sources c),
      s_keys := fold (\<lambda>(_, b). eraseEntries (he_entries b)) stale (s_keys c)\<rparr>"
    using nz by (simp add: observeHeight_def Let_def stale_def kept_def hs_def se_def)
  note D = cache_okD [OF ok] and wf = cache_okD(4) [OF ok] and ix = cache_okD(7) [OF ok]
  note bk = bucket_observeHeight [OF wf nz] and nw = newest_observeHeight [OF nz]
  have okse: "um_ok (se_heights se)"
    using wf by (auto simp: se_def empty_source_def split: option.splits)
  then have okhs: "um_ok hs" by (simp add: hs_def)
  have b: "bucket (s_sources c) src h' = map_of (se_heights se) h'" for h'
    by (simp add: bucket_def se_def empty_source_def split: option.splits)
  have hs_at: "map_of hs h' = Some b' \<Longrightarrow> um_ok (he_entries b')" for h' b'
    using wf_sources_bucket [OF wf, of src h' b']
    by (auto simp: hs_def map_of_um_emplace b empty_height_def split: option.splits if_splits)
  have mem: "(h', b') \<in> set stale \<longleftrightarrow> h' \<noteq> h \<and> he_owners b' = 0 \<and> bucket (s_sources c) src h' = Some b'" for h' b'
    using okse okhs
    by (auto simp: stale_def um_ok_in_set hs_def map_of_um_emplace b split: option.splits)
  have "wf_sources (s_sources ?c')"
    using wf okhs hs_at
    by (auto simp: eq kept_def map_of_filter_um intro!: wf_sources_update split: option.splits if_splits)
  moreover have cnt: "count (s_sources ?c') src' h' = count (s_sources c) src' h'" for src' h'
    by (auto simp: count_def bk empty_height_def split: option.splits)
  moreover have "index_ok (s_sources ?c') (s_keys ?c')"
  proof (rule index_drop [OF ix, where
        D = "\<lambda>src' h' k. src' = src \<and> h' \<noteq> h \<and> count (s_sources c) src h' = 0"])
    show "entry (s_sources ?c') src' h' k =
        (if src' = src \<and> h' \<noteq> h \<and> count (s_sources c) src h' = 0 then None else entry (s_sources c) src' h' k)"
      for src' h' k
      by (auto simp: entry_def bk empty_height_def split: option.splits)
    have "(\<exists>(h', b') \<in> set stale. map_of (he_entries b') k \<noteq> None)
      \<longleftrightarrow> (\<exists>src' h'. (src' = src \<and> h' \<noteq> h \<and> count (s_sources c) src h' = 0) \<and> entry (s_sources c) src' h' k \<noteq> None)"
      for k
      by (force simp: mem count_def entry_def split: option.splits)
    moreover have "map_of (s_keys ?c') k = (if \<exists>(h', b') \<in> set stale. map_of (he_entries b') k \<noteq> None
        then None else map_of (s_keys c) k)" for k
    proof -
      have "map_of (fold (\<lambda>(_, b). eraseEntries (he_entries b)) stale (s_keys c)) k =
        (if \<exists>(h', b') \<in> set stale. map_of (he_entries b') k \<noteq> None then None else map_of (s_keys c) k)"
      proof (rule map_of_fold_eraseEntries, clarify)
        fix h' b' assume "(h', b') \<in> set stale"
        then have "bucket (s_sources c) src h' = Some b'" by (simp add: mem)
        from wf_sources_bucket [OF wf this] index_ok_bucket_key [OF ix this, of k]
        show "um_ok (he_entries b') \<and> (\<forall>t. map_of (he_entries b') k = Some t \<longrightarrow>
            map_of (s_keys c) k = Some t \<or> map_of (s_keys c) k = None)" by simp
      qed
      then show ?thesis by (simp add: eq)
    qed
    ultimately show "map_of (s_keys ?c') k =
      (if \<exists>src' h'. (src' = src \<and> h' \<noteq> h \<and> count (s_sources c) src h' = 0) \<and> entry (s_sources c) src' h' k \<noteq> None
       then None else map_of (s_keys c) k)" for k by simp
  qed
  moreover have "sized ?c'"
  proof -
    have "source_size hs = source_size (se_heights se)"
      using okse by (auto simp: hs_def um_emplace_def empty_height_def
          intro: source_size_update_new split: option.splits)
    moreover have "source_size (se_heights se) \<le> kMaxEntriesPerSource"
      using D(8) by (auto simp: se_def empty_source_def sized_def split: option.splits)
    ultimately have "source_size kept \<le> kMaxEntriesPerSource"
      using source_size_filter [of "\<lambda>(h', b). \<not> (h' \<noteq> h \<and> he_owners b = 0)" hs] by (simp add: kept_def)
    then show ?thesis
      using D(8) length_fold_eraseEntries [of stale "s_keys c"]
      by (auto simp: sized_def eq update_conv')
  qed
  moreover have "um_ok (s_keys ?c')"
    using D(5) by (simp add: eq um_ok_fold_eraseEntries)
  moreover have "noleak ?c'"
    using D(3) by (auto simp: noleak_alt cnt nw) (auto simp: bk count_def empty_height_def split: if_splits)
  moreover have "shrinks c ?c'"
    by (auto simp: shrinks_def nw bk) (auto simp: entry_def bk empty_height_def split: option.splits)
  ultimately show ?thesis
    using D by (simp add: cache_ok_def core_def counted_def)
qed

subsection \<open>Reserving and releasing an identity\<close>

definition release_hit :: "reservation \<Rightarrow> share_cache \<Rightarrow> bool" where
  "release_hit r c \<longleftrightarrow> r_token r \<noteq> 0 \<and>
     entry (s_sources c) (r_sourceId r) (r_height r) (r_key r) = Some (r_token r)"

lemma release_no: "\<not> release_hit r c \<Longrightarrow> release r c = c"
  by (auto simp: release_def release_hit_def reservation_valid_def entry_def bucket_def split: option.splits)

lemma release_yes:
  assumes ix: "index_ok (s_sources c) (s_keys c)" and "release_hit r c"
  obtains se b where "map_of (s_sources c) (r_sourceId r) = Some se"
    and "map_of (se_heights se) (r_height r) = Some b"
    and "map_of (he_entries b) (r_key r) = Some (r_token r)"
    and "release r c = c\<lparr>s_sources := set_heights (r_sourceId r)
       (AList.update (r_height r) (b\<lparr>he_entries := AList.delete (r_key r) (he_entries b)\<rparr>) (se_heights se))
       (s_sources c), s_keys := AList.delete (r_key r) (s_keys c)\<rparr>"
proof -
  have key: "map_of (s_keys c) (r_key r) = Some (r_token r)"
    using assms index_ok_entry_key [OF ix] by (auto simp: release_hit_def)
  obtain se b where "map_of (s_sources c) (r_sourceId r) = Some se"
    "map_of (se_heights se) (r_height r) = Some b" "map_of (he_entries b) (r_key r) = Some (r_token r)"
    using assms(2) by (auto simp: release_hit_def entry_def bucket_def split: option.splits)
  then show thesis
    using assms(2) key that by (simp add: release_def release_hit_def reservation_valid_def)
qed

lemma release_frame [simp, frame_rules]:
  "s_owners (release r c) = s_owners c"
  "s_sequence (release r c) = s_sequence c"
  "newest (s_sources (release r c)) src = newest (s_sources c) src"
  by (auto simp: release_def split: option.splits)

lemma length_delete: "um_ok m \<Longrightarrow> map_of m k = Some v \<Longrightarrow> Suc (length (AList.delete k m)) = length m"
proof (induction m)
  case (Cons e m)
  obtain k' v' where e: "e = (k', v')" by (cases e)
  show ?case
  proof (cases "k' = k")
    case True
    with Cons.prems have "AList.delete k m = m"
      by (force simp: e um_ok_def AList.delete_eq filter_id_conv)
    with True show ?thesis by (simp add: e)
  next
    case False
    with Cons show ?thesis by (simp add: e um_ok_def)
  qed
qed simp

lemma release_view:
  assumes ix: "index_ok (s_sources c) (s_keys c)"
  shows "entry (s_sources (release r c)) src h k =
      (if release_hit r c \<and> src = r_sourceId r \<and> h = r_height r \<and> k = r_key r then None
       else entry (s_sources c) src h k)"
    and "bucket (s_sources (release r c)) src h = None \<longleftrightarrow> bucket (s_sources c) src h = None"
    and "count (s_sources (release r c)) src h = count (s_sources c) src h"
proof -
  have "entry (s_sources (release r c)) src h k =
      (if release_hit r c \<and> src = r_sourceId r \<and> h = r_height r \<and> k = r_key r then None
       else entry (s_sources c) src h k) \<and>
    (bucket (s_sources (release r c)) src h = None \<longleftrightarrow> bucket (s_sources c) src h = None) \<and>
    count (s_sources (release r c)) src h = count (s_sources c) src h"
  proof (cases "release_hit r c")
    case True
    from ix True show ?thesis
    proof (rule release_yes)
      fix se b
      assume src: "map_of (s_sources c) (r_sourceId r) = Some se"
        and h: "map_of (se_heights se) (r_height r) = Some b"
        and eq: "release r c = c\<lparr>s_sources := set_heights (r_sourceId r)
           (AList.update (r_height r) (b\<lparr>he_entries := AList.delete (r_key r) (he_entries b)\<rparr>) (se_heights se))
           (s_sources c), s_keys := AList.delete (r_key r) (s_keys c)\<rparr>"
      show ?thesis
        using True h by (auto simp: eq entry_def count_def bucket_set_heights [OF src] update_conv'
            delete_conv' bucket_source [OF src])
    qed
  qed (simp add: release_no)
  then show "entry (s_sources (release r c)) src h k =
      (if release_hit r c \<and> src = r_sourceId r \<and> h = r_height r \<and> k = r_key r then None
       else entry (s_sources c) src h k)"
    and "bucket (s_sources (release r c)) src h = None \<longleftrightarrow> bucket (s_sources c) src h = None"
    and "count (s_sources (release r c)) src h = count (s_sources c) src h"
    by blast+
qed

lemma release_ok:
  assumes ok: "cache_ok c"
  shows "cache_ok (release r c)"
proof (cases "release_hit r c")
  case True
  note D = cache_okD [OF ok] and wf = cache_okD(4) [OF ok] and ix = cache_okD(7) [OF ok]
  note view = release_view [OF ix, of r]
  obtain se b where src: "map_of (s_sources c) (r_sourceId r) = Some se"
    and h: "map_of (se_heights se) (r_height r) = Some b"
    and k: "map_of (he_entries b) (r_key r) = Some (r_token r)"
    and eq: "release r c = c\<lparr>s_sources := set_heights (r_sourceId r)
       (AList.update (r_height r) (b\<lparr>he_entries := AList.delete (r_key r) (he_entries b)\<rparr>) (se_heights se))
       (s_sources c), s_keys := AList.delete (r_key r) (s_keys c)\<rparr>"
    using release_yes [OF ix True] by blast
  have okhs: "um_ok (se_heights se)" by (rule wf_sources_heights [OF wf src])
  have okb: "um_ok (he_entries b')" if "map_of (se_heights se) h' = Some b'" for h' b'
    using wf_sources_bucket [OF wf, of "r_sourceId r" h' b'] that by (simp add: bucket_source [OF src])
  have "wf_sources (s_sources (release r c))"
    using wf okhs okb h by (auto simp: eq update_conv' intro!: wf_set_heights split: if_splits)
  moreover have "index_ok (s_sources (release r c)) (s_keys (release r c))"
  proof (rule index_drop [OF ix, where
        D = "\<lambda>src h k. src = r_sourceId r \<and> h = r_height r \<and> k = r_key r"])
    show "map_of (s_keys (release r c)) k =
      (if \<exists>src h. (src = r_sourceId r \<and> h = r_height r \<and> k = r_key r) \<and> entry (s_sources c) src h k \<noteq> None
       then None else map_of (s_keys c) k)" for k
      using True by (auto simp: eq delete_conv' release_hit_def)
  qed (use True in \<open>simp add: view\<close>)
  moreover have "sized (release r c)"
  proof -
    have "source_size (AList.update (r_height r) (b\<lparr>he_entries := AList.delete (r_key r) (he_entries b)\<rparr>) (se_heights se))
      \<le> source_size (se_heights se)"
      using source_size_update [OF okhs, of "r_height r" "b\<lparr>he_entries := AList.delete (r_key r) (he_entries b)\<rparr>"]
        length_delete [OF okb [OF h] k] h by simp
    then show ?thesis
      using D(8) length_delete_le [of "r_key r" "s_keys c"]
      by (auto simp: sized_alt eq intro!: bounded_set_heights dest: bounded_sources_at [OF _ src])
  qed
  moreover have "noleak (release r c)"
    using D(3) view(2) by (auto simp: noleak_alt view(3))
  ultimately show ?thesis
    using D by (simp add: cache_ok_def core_def counted_def view(3)) (simp add: eq)
qed (use ok in \<open>simp add: release_no\<close>)

lemma index_insert:
  assumes ok: "index_ok S keys" and fresh: "map_of keys k0 = None" and "t0 \<noteq> 0" and "length k0 = kKeySize"
    and S': "\<And>src h k. entry S' src h k =
      (if src = src0 \<and> h = h0 \<and> k = k0 then Some t0 else entry S src h k)"
    and keys': "map_of keys' = (map_of keys)(k0 \<mapsto> t0)"
  shows "index_ok S' keys'"
proof -
  have none: "entry S src h k0 = None" for src h
    using fresh index_ok_entry_key [OF ok, of src h k0] by (cases "entry S src h k0") auto
  have old: "map_of keys k = Some t \<longleftrightarrow> (\<exists>src h. entry S src h k = Some t)" for k t
    using ok by (simp add: index_ok_def)
  have "map_of keys' k = Some t \<longleftrightarrow> (\<exists>src h. entry S' src h k = Some t)" for k t
    by (cases "k = k0") (auto simp: keys' S' none old)
  moreover have "src' = src \<and> h' = h" if "entry S' src h k \<noteq> None \<and> entry S' src' h' k \<noteq> None"
    for src h src' h' k
    using that by (cases "k = k0") (auto simp: S' none dest: index_ok_unique [OF ok] split: if_splits)
  moreover have "t \<noteq> 0 \<and> length k = kKeySize" if "entry S' src h k = Some t" for src h k t
    using that ok assms(3,4) by (auto simp: S' index_ok_def split: if_splits)
  ultimately show ?thesis unfolding index_ok_def by blast
qed

lemma next_token_nonzero: "next_token q \<noteq> 0"
  by (auto simp: next_token_def add_eq_0_iff2 add.commute)

definition reserve_verdict :: "u64 \<Rightarrow> u64 \<Rightarrow> string \<Rightarrow> share_cache \<Rightarrow> reserve_result" where
  "reserve_verdict src h k c =
     (if src = 0 \<or> h = 0 \<or> length k \<noteq> kKeySize \<or> \<not> hasHeight src h c then Invalid
      else if map_of (s_keys c) k \<noteq> None then Duplicate
      else if kMaxEntries \<le> cache_size c \<or> kMaxEntriesPerSource \<le> cache_source_size src c then Capacity
      else Accepted)"

lemma hasHeight_bucket: "hasHeight src h c \<longleftrightarrow> bucket (s_sources c) src h \<noteq> None"
  by (auto simp: hasHeight_def bucket_def split: option.splits)

lemma reserve_cases:
  assumes ok: "cache_ok c"
  obtains
    (refused) "reserve_verdict src h k c \<noteq> Accepted"
      and "reserve src h k c = (reserve_verdict src h k c, no_reservation, c)"
  | (taken) se b where "reserve_verdict src h k c = Accepted"
      and "map_of (s_sources c) src = Some se" and "map_of (se_heights se) h = Some b"
      and "map_of (s_keys c) k = None" and "map_of (he_entries b) k = None"
      and "length (s_keys c) < kMaxEntries" and "source_size (se_heights se) < kMaxEntriesPerSource"
      and "length k = kKeySize"
      and "reserve src h k c =
        (Accepted, \<lparr>r_key = k, r_sourceId = src, r_height = h, r_token = next_token (s_sequence c)\<rparr>,
         c\<lparr>s_sequence := next_token (s_sequence c),
           s_sources := set_heights src (AList.update h
             (b\<lparr>he_entries := AList.update k (next_token (s_sequence c)) (he_entries b)\<rparr>) (se_heights se))
             (s_sources c),
           s_keys := AList.update k (next_token (s_sequence c)) (s_keys c)\<rparr>)"
proof (cases "reserve_verdict src h k c = Accepted")
  case False
  then have "reserve src h k c = (reserve_verdict src h k c, no_reservation, c)"
    by (auto simp: reserve_def reserve_verdict_def hasHeight_def cache_size_def cache_source_size_def
        Let_def split: option.splits if_splits)
  with False show thesis by (rule refused)
next
  case True
  then obtain se b where src: "map_of (s_sources c) src = Some se" and h: "map_of (se_heights se) h = Some b"
    by (auto simp: reserve_verdict_def hasHeight_def split: option.splits if_splits)
  have free: "map_of (s_keys c) k = None"
    using True by (auto simp: reserve_verdict_def split: if_splits)
  then have "entry (s_sources c) src h k = None"
    using index_ok_entry_key [OF cache_okD(7) [OF ok], of src h k]
    by (cases "entry (s_sources c) src h k") auto
  then have new: "map_of (he_entries b) k = None" by (simp add: entry_def bucket_source [OF src] h)
  from True src h free new show thesis
    by (intro taken [of se b])
      (auto simp: reserve_def reserve_verdict_def cache_size_def cache_source_size_def Let_def
        split: if_splits)
qed

lemma reserve_view:
  assumes ok: "cache_ok c" and acc: "reserve_verdict src0 h0 k0 c = Accepted"
  defines "c' \<equiv> snd (snd (reserve src0 h0 k0 c))"
  shows "entry (s_sources c') src h k =
      (if src = src0 \<and> h = h0 \<and> k = k0 then Some (next_token (s_sequence c))
       else entry (s_sources c) src h k)"
    and "bucket (s_sources c') src h = None \<longleftrightarrow> bucket (s_sources c) src h = None"
    and "count (s_sources c') src h = count (s_sources c) src h"
    and "newest (s_sources c') src = newest (s_sources c) src"
    and "s_owners c' = s_owners c"
  using acc unfolding c'_def
  by (cases rule: reserve_cases [OF ok, of src0 h0 k0];
      auto simp: entry_def count_def bucket_set_heights update_conv' bucket_source)+

lemma reserve_ok:
  assumes ok: "cache_ok c"
  shows "cache_ok (snd (snd (reserve src h k c)))"
proof (cases rule: reserve_cases [OF ok, of src h k, case_names refused taken])
  case refused
  with ok show ?thesis by simp
next
  case (taken se b)
  note D = cache_okD [OF ok] and wf = cache_okD(4) [OF ok] and ix = cache_okD(7) [OF ok]
  define c' where "c' = snd (snd (reserve src h k c))"
  note view = reserve_view [OF ok taken(1), folded c'_def]
  note eq = c'_def [unfolded taken(9), simplified]
  have okhs: "um_ok (se_heights se)" by (rule wf_sources_heights [OF wf taken(2)])
  have okb: "um_ok (he_entries b')" if "map_of (se_heights se) h' = Some b'" for h' b'
    using wf_sources_bucket [OF wf, of src h' b'] that by (simp add: bucket_source [OF taken(2)])
  have "wf_sources (s_sources c')"
    using wf okhs okb taken(3) by (auto simp: eq update_conv' intro!: wf_set_heights split: if_splits)
  moreover have "index_ok (s_sources c') (s_keys c')"
    by (rule index_insert [OF ix taken(4) next_token_nonzero taken(8) view(1)])
      (simp add: eq update_conv')
  moreover have "sized c'"
  proof -
    have "length (AList.update k (next_token (s_sequence c)) (s_keys c)) = Suc (length (s_keys c))"
      by (rule length_update_fresh [OF taken(4)])
    moreover have "source_size (AList.update h
        (b\<lparr>he_entries := AList.update k (next_token (s_sequence c)) (he_entries b)\<rparr>) (se_heights se))
      = Suc (source_size (se_heights se))"
      using source_size_update [OF okhs, of h "b\<lparr>he_entries := AList.update k (next_token (s_sequence c)) (he_entries b)\<rparr>"]
        length_update_fresh [OF taken(5)] taken(3) by simp
    ultimately show ?thesis
      using D(8) taken(6,7) by (auto simp: sized_alt eq intro!: bounded_set_heights)
  qed
  moreover have "noleak c'"
    using D(3) view(2) by (auto simp: noleak_alt view)
  moreover have "um_ok (s_keys c')" using D(5) by (simp add: eq)
  ultimately have "cache_ok c'"
    using D by (simp add: cache_ok_def core_def counted_def view)
  then show ?thesis by (simp add: c'_def)
qed

subsection \<open>Removing a source\<close>

lemma removeSource_view:
  "bucket (s_sources (removeSource src0 c)) src h = (if src = src0 then None else bucket (s_sources c) src h)"
  "newest (s_sources (removeSource src0 c)) src = (if src = src0 then 0 else newest (s_sources c) src)"
  by (auto simp: removeSource_def bucket_def newest_def delete_conv' split: option.splits)

lemma removeSource_ok:
  assumes ok: "cache_ok c"
  shows "cache_ok (removeSource src0 c)"
proof (cases "map_of (s_sources c) src0")
  case None
  with ok show ?thesis by (simp add: removeSource_def)
next
  case (Some se)
  note D = cache_okD [OF ok] and wf = cache_okD(4) [OF ok] and ix = cache_okD(7) [OF ok]
  let ?c' = "removeSource src0 c"
  have eq: "?c' = c\<lparr>s_owners := filter (\<lambda>(ow, oh). oh_sourceId oh \<noteq> src0) (s_owners c),
      s_keys := fold (\<lambda>(_, b). eraseEntries (he_entries b)) (se_heights se) (s_keys c),
      s_sources := AList.delete src0 (s_sources c)\<rparr>"
    by (simp add: removeSource_def Some)
  note view = removeSource_view [of src0 c]
  have ent: "entry (s_sources ?c') src h k = (if src = src0 then None else entry (s_sources c) src h k)" for src h k
    by (simp add: entry_def view)
  have cnt: "count (s_sources ?c') src h = (if src = src0 then 0 else count (s_sources c) src h)" for src h
    by (simp add: count_def view)
  have okhs: "um_ok (se_heights se)" by (rule wf_sources_heights [OF wf Some])
  have "wf_sources (s_sources ?c')"
    using wf by (auto simp: wf_sources_def eq delete_conv' split: if_splits)
  moreover have "index_ok (s_sources ?c') (s_keys ?c')"
  proof (rule index_drop [OF ix ent])
    fix k
    have mem: "(h, b) \<in> set (se_heights se) \<longleftrightarrow> bucket (s_sources c) src0 h = Some b" for h b
      by (simp add: um_ok_in_set [OF okhs] bucket_source [OF Some])
    have "map_of (fold (\<lambda>(_, b). eraseEntries (he_entries b)) (se_heights se) (s_keys c)) k =
      (if \<exists>(h, b) \<in> set (se_heights se). map_of (he_entries b) k \<noteq> None then None else map_of (s_keys c) k)"
    proof (rule map_of_fold_eraseEntries, clarify)
      fix h b assume "(h, b) \<in> set (se_heights se)"
      then have "bucket (s_sources c) src0 h = Some b" by (simp add: mem)
      from wf_sources_bucket [OF wf this] index_ok_bucket_key [OF ix this, of k]
      show "um_ok (he_entries b) \<and> (\<forall>t. map_of (he_entries b) k = Some t \<longrightarrow>
          map_of (s_keys c) k = Some t \<or> map_of (s_keys c) k = None)" by simp
    qed
    moreover have "(\<exists>(h, b) \<in> set (se_heights se). map_of (he_entries b) k \<noteq> None) \<longleftrightarrow>
        (\<exists>src h. src = src0 \<and> entry (s_sources c) src h k \<noteq> None)"
      by (force simp: mem entry_def split: option.splits)
    ultimately show "map_of (s_keys ?c') k =
      (if \<exists>src h. src = src0 \<and> entry (s_sources c) src h k \<noteq> None then None else map_of (s_keys c) k)"
      by (simp add: eq)
  qed
  moreover have "sized ?c'"
    using D(8) length_fold_eraseEntries [of "se_heights se" "s_keys c"]
    by (auto simp: sized_def eq delete_conv' split: if_splits)
  moreover have "owners_ok (s_owners ?c')"
    using D(6) by (auto simp: owners_ok_def eq map_of_filter_um split: option.splits if_splits)
  moreover have "counted (\<lambda>_ _. 0) ?c'"
    using D(2) by (simp add: counted_def cnt) (simp add: eq refs_filter_source)
  moreover have "noleak ?c'"
    using D(3) by (auto simp: noleak_alt view cnt)
  moreover have "um_ok (s_keys ?c')"
    using D(5) by (simp add: eq um_ok_fold_eraseEntries)
  ultimately show ?thesis by (simp add: cache_ok_def core_def)
qed

section \<open>Runs of the cache\<close>

lemma cache_step_ok: "cache_ok c \<Longrightarrow> cache_ok (cache_step op c)"
  by (cases op) (auto simp: observeHeight_ok setOwnerHeights_ok removeOwner_ok release_ok reserve_ok
      removeSource_ok cache_ok_clear)

lemma cache_run_ok: "cache_ok c \<Longrightarrow> cache_ok (cache_run ops c)"
  unfolding cache_run_def by (induction ops arbitrary: c) (auto simp: cache_step_ok)

lemma reachable_ok: "cache_ok (cache_run ops init_cache)"
  by (rule cache_run_ok [OF cache_ok_init])

subsection \<open>What a step can drop\<close>

text \<open>
  \<open>drops op src h k t\<close>: the calls that are meant to forget the identity \<open>k\<close> with token \<open>t\<close> of the
  bucket of \<open>src\<close> and \<open>h\<close>, whatever connections there are.
\<close>

fun drops :: "cache_op \<Rightarrow> u64 \<Rightarrow> u64 \<Rightarrow> string \<Rightarrow> u64 \<Rightarrow> bool" where
  "drops (Release r) src h k t \<longleftrightarrow> r_sourceId r = src \<and> r_height r = h \<and> r_key r = k \<and> r_token r = t"
| "drops (RemoveSource src') src h k t \<longleftrightarrow> src' = src"
| "drops Clear src h k t \<longleftrightarrow> True"
| "drops _ src h k t \<longleftrightarrow> False"

lemma shrinks_keeps:
  assumes "shrinks c c'" and "entry (s_sources c) src h k = Some t"
    and "bucket (s_sources c') src h \<noteq> None"
  shows "entry (s_sources c') src h k = Some t"
  using assms by (simp add: shrinks_def)

lemma cache_ok_count: "cache_ok c \<Longrightarrow> count (s_sources c) src h = refs (s_owners c) src h"
  by (simp add: cache_ok_def counted_def)

lemma listed_bucket: "cache_ok c \<Longrightarrow> refs (s_owners c) src h \<noteq> 0 \<Longrightarrow> bucket (s_sources c) src h \<noteq> None"
  using cache_ok_count [of c src h] by (cases "bucket (s_sources c) src h") (auto simp: count_def)

lemma step_keeps_entry:
  assumes ok: "cache_ok c" and e: "entry (s_sources c) src h k = Some t"
    and listed: "refs (s_owners (cache_step op c)) src h \<noteq> 0 \<or> newest (s_sources (cache_step op c)) src = h"
    and nodrop: "\<not> drops op src h k t"
  shows "entry (s_sources (cache_step op c)) src h k = Some t"
proof -
  have b: "bucket (s_sources c) src h \<noteq> None" using e by (auto simp: entry_def split: option.splits)
  have *: ?thesis if "shrinks c (cache_step op c)"
  proof (rule shrinks_keeps [OF that e])
    show "bucket (s_sources (cache_step op c)) src h \<noteq> None"
      using listed listed_bucket [OF cache_step_ok [OF ok]] that b
      unfolding shrinks_def by metis
  qed
  show ?thesis
  proof (cases op)
    case (Reserve src' h' k')
    have "entry (s_sources (cache_step op c)) src h k =
      (if reserve_verdict src' h' k' c = Accepted \<and> src = src' \<and> h = h' \<and> k = k'
       then Some (next_token (s_sequence c)) else entry (s_sources c) src h k)"
    proof (cases "reserve_verdict src' h' k' c = Accepted")
      case True
      then show ?thesis using reserve_view(1) [OF ok] Reserve by simp
    next
      case False
      then show ?thesis
        using Reserve by (cases rule: reserve_cases [OF ok, of src' h' k']) auto
    qed
    moreover have "\<not> (reserve_verdict src' h' k' c = Accepted \<and> k = k')"
      using index_ok_entry_key [OF cache_okD(7) [OF ok] e] by (auto simp: reserve_verdict_def)
    ultimately show ?thesis using e by auto
  next
    case (Release r)
    then show ?thesis
      using nodrop e release_view(1) [OF cache_okD(7) [OF ok], of r src h k]
      by (auto simp: release_hit_def)
  next
    case (RemoveOwner ow)
    have "shrinks c (removeOwner ow c)"
      using detachOwner_ok [OF cache_okD(1-3) [OF ok], of ow] by (simp add: removeOwner_def shrinks_refl)
    then show ?thesis by (intro *) (simp add: RemoveOwner)
  next
    case (RemoveSource src')
    with nodrop e show ?thesis by (simp add: entry_def removeSource_view)
  qed (use nodrop observeHeight_ok [OF ok] setOwnerHeights_ok [OF ok] * in auto)
qed

section \<open>Properties\<close>

text \<open>A sample run: connection 7 lists height 5 of source 1 and an identity is reserved there; then a new
  height is observed and a second connection lists both heights.\<close>

definition sample_key :: string where
  "sample_key = replicate 48 CHR ''a''"

definition sample_pre :: "cache_op list" where
  "sample_pre = [Observe 1 5, SetOwner 7 1 [5], Reserve 1 5 sample_key]"

definition sample_ops :: "cache_op list" where
  "sample_ops = [Observe 1 6, SetOwner 8 1 [6, 5]]"

lemma sample_len: "length sample_key = kKeySize"
  by (simp add: sample_key_def kKeySize_def)

lemmas cache_eval = sample_pre_def sample_ops_def sample_len
  cache_run_def observeHeight_def setOwnerHeights_def reserve_def release_def detachOwner_def
  removeOwner_def hasHeight_def set_heights_def inc_owner_def dec_owner_def eraseHeightIfUnused_def
  source_size_def next_token_def um_emplace_def empty_source_def empty_height_def init_cache_def
  kMaxEntries_def kMaxEntriesPerSource_def Let_def view_defs refs_def eraseEntries_def
  reservation_valid_def no_reservation_def

text \<open>C8: in every state the proxy can reach through the interface of the cache, every bucket counts
  exactly the connections that list its height, a bucket without connections is that of the newest
  height of its source, no identity is in two buckets, the global index holds exactly the identities
  of the buckets, and the capacity limits are respected.\<close>

theorem cache_invariant:
  fixes ops :: "cache_op list"
  defines "c \<equiv> cache_run ops init_cache"
  shows "(\<forall>src h. count (s_sources c) src h = refs (s_owners c) src h) \<and>
    (\<forall>src h. bucket (s_sources c) src h \<noteq> None \<and> refs (s_owners c) src h = 0 \<longrightarrow>
       newest (s_sources c) src = h) \<and>
    (\<forall>k t. map_of (s_keys c) k = Some t \<longleftrightarrow> (\<exists>!p. entry (s_sources c) (fst p) (snd p) k = Some t)) \<and>
    cache_size c \<le> kMaxEntries \<and> (\<forall>src. cache_source_size src c \<le> kMaxEntriesPerSource)"
proof -
  have ok: "cache_ok c" unfolding c_def by (rule reachable_ok)
  note ix = cache_okD(7) [OF ok]
  have key: "map_of (s_keys c) k = Some t \<longleftrightarrow> (\<exists>!p. entry (s_sources c) (fst p) (snd p) k = Some t)" for k t
  proof
    assume "map_of (s_keys c) k = Some t"
    then obtain src h where e: "entry (s_sources c) src h k = Some t"
      using index_ok_key_entry [OF ix] by blast
    show "\<exists>!p. entry (s_sources c) (fst p) (snd p) k = Some t"
    proof (rule ex1I [of _ "(src, h)"])
      fix p assume "entry (s_sources c) (fst p) (snd p) k = Some t"
      from index_ok_unique [OF ix this e] show "p = (src, h)" by (simp add: prod_eq_iff)
    qed (simp add: e)
  next
    assume "\<exists>!p. entry (s_sources c) (fst p) (snd p) k = Some t"
    then obtain p where "entry (s_sources c) (fst p) (snd p) k = Some t" by blast
    then show "map_of (s_keys c) k = Some t" by (rule index_ok_entry_key [OF ix])
  qed
  have src: "cache_source_size src c \<le> kMaxEntriesPerSource" for src
    using cache_okD(8) [OF ok] by (simp add: cache_source_size_def sized_def split: option.splits)
  have all: "cache_size c \<le> kMaxEntries"
    using cache_okD(8) [OF ok] by (simp add: cache_size_def sized_def)
  have newest: "newest (s_sources c) src = h"
    if "bucket (s_sources c) src h \<noteq> None" "refs (s_owners c) src h = 0" for src h
    using that cache_okD(3) [OF ok] cache_ok_count [OF ok, of src h] by (auto simp: noleak_alt)
  show ?thesis
    by (intro conjI allI impI cache_ok_count [OF ok] key src all) (elim conjE, rule newest)
qed

theorem cache_invariant_witness:
  "count (s_sources (cache_run sample_pre init_cache)) 1 5 = 1 \<and>
   cache_size (cache_run sample_pre init_cache) \<le> kMaxEntries"
proof -
  have "refs (s_owners (cache_run sample_pre init_cache)) 1 5 = 1" by (simp add: cache_eval)
  then show ?thesis using cache_invariant [of sample_pre] by simp
qed

text \<open>C2: as long as some connection still lists a height, or it is the newest of its source, an identity
  reserved there stays reserved, whatever the other connections, sources and heights do; while it is
  reserved, no call of \<open>reserve\<close> with that identity is accepted, for any source and height.\<close>

theorem no_double_acceptance:
  assumes "entry (s_sources (cache_run pre init_cache)) src h k = Some t"
    and "\<forall>n \<le> length ops. refs (s_owners (cache_run (take n ops) (cache_run pre init_cache))) src h \<noteq> 0
           \<or> newest (s_sources (cache_run (take n ops) (cache_run pre init_cache))) src = h"
    and "\<forall>op \<in> set ops. \<not> drops op src h k t"
  shows "fst (reserve src' h' k (cache_run ops (cache_run pre init_cache))) \<noteq> Accepted"
proof -
  have keep: "entry (s_sources (cache_run ops c)) src h k = Some t"
    if "cache_ok c" "entry (s_sources c) src h k = Some t"
      "\<forall>n \<le> length ops. refs (s_owners (cache_run (take n ops) c)) src h \<noteq> 0
           \<or> newest (s_sources (cache_run (take n ops) c)) src = h"
      "\<forall>op \<in> set ops. \<not> drops op src h k t" for c ops
    using that
  proof (induction ops arbitrary: c)
    case (Cons op ops)
    have "entry (s_sources (cache_step op c)) src h k = Some t"
      using Cons.prems(3) [rule_format, of 1] Cons.prems(4)
      by (intro step_keeps_entry [OF Cons.prems(1,2)]) (simp_all add: cache_run_def)
    moreover have "\<forall>n \<le> length ops. refs (s_owners (cache_run (take n ops) (cache_step op c))) src h \<noteq> 0
           \<or> newest (s_sources (cache_run (take n ops) (cache_step op c))) src = h"
    proof (intro allI impI)
      fix n assume "n \<le> length ops"
      then show "refs (s_owners (cache_run (take n ops) (cache_step op c))) src h \<noteq> 0
           \<or> newest (s_sources (cache_run (take n ops) (cache_step op c))) src = h"
        using Cons.prems(3) [rule_format, of "Suc n"] by (simp add: cache_run_def)
    qed
    ultimately show ?case
      using Cons.IH [of "cache_step op c"] Cons.prems(1,4) by (simp add: cache_run_def cache_step_ok)
  qed (simp add: cache_run_def)
  let ?c = "cache_run ops (cache_run pre init_cache)"
  have ok: "cache_ok ?c" by (intro cache_run_ok reachable_ok)
  from keep [OF reachable_ok assms] have "map_of (s_keys ?c) k = Some t"
    by (rule index_ok_entry_key [OF cache_okD(7) [OF ok]])
  then have "reserve_verdict src' h' k ?c \<noteq> Accepted" by (simp add: reserve_verdict_def)
  then show ?thesis by (cases rule: reserve_cases [OF ok, of src' h' k]) auto
qed


text \<open>Neither a new height nor a second connection makes the identity of the sample run acceptable again.\<close>

theorem no_double_acceptance_witness:
  "fst (reserve 1 6 sample_key (cache_run sample_ops (cache_run sample_pre init_cache))) \<noteq> Accepted"
proof (rule no_double_acceptance)
  show "entry (s_sources (cache_run sample_pre init_cache)) 1 5 sample_key = Some 1" by (simp add: cache_eval)
  have all: "n \<le> 2 \<longleftrightarrow> n = 0 \<or> n = 1 \<or> n = (2 :: nat)" for n by auto
  have "\<forall>n \<le> 2. refs (s_owners (cache_run (take n sample_ops) (cache_run sample_pre init_cache))) 1 5 \<noteq> 0"
    by (auto simp: all cache_eval)
  then show "\<forall>n \<le> length sample_ops.
      refs (s_owners (cache_run (take n sample_ops) (cache_run sample_pre init_cache))) 1 5 \<noteq> 0 \<or>
      newest (s_sources (cache_run (take n sample_ops) (cache_run sample_pre init_cache))) 1 = 5"
    by (simp add: sample_ops_def)
  show "\<forall>op \<in> set sample_ops. \<not> drops op 1 5 sample_key 1" by (simp add: sample_ops_def)
qed

text \<open>C29: the complete behaviour of \<open>reserve\<close> in every reachable state: which verdict it gives in which
  case, that a refused call changes nothing, and that an accepted one adds exactly the identity, with a
  fresh nonzero token, to its bucket and to the global index and leaves everything else alone.\<close>

theorem reserve_spec:
  fixes ops :: "cache_op list"
  defines "c \<equiv> cache_run ops init_cache"
  shows "(case reserve src h k c of (res, rv, c') \<Rightarrow>
     res = (if src = 0 \<or> h = 0 \<or> length k \<noteq> kKeySize \<or> \<not> hasHeight src h c then Invalid
            else if map_of (s_keys c) k \<noteq> None then Duplicate
            else if kMaxEntries \<le> cache_size c \<or> kMaxEntriesPerSource \<le> cache_source_size src c
            then Capacity else Accepted) \<and>
     (if res = Accepted
      then rv = \<lparr>r_key = k, r_sourceId = src, r_height = h, r_token = s_sequence c'\<rparr> \<and>
           reservation_valid rv \<and> s_owners c' = s_owners c \<and>
           map_of (s_keys c') = (map_of (s_keys c))(k \<mapsto> r_token rv) \<and>
           (\<forall>src' h' k'. entry (s_sources c') src' h' k' =
              (if (src', h', k') = (src, h, k) then Some (r_token rv) else entry (s_sources c) src' h' k'))
      else rv = no_reservation \<and> c' = c))"
proof -
  have ok: "cache_ok c" unfolding c_def by (rule reachable_ok)
  have verdict: "reserve_verdict src h k c =
     (if src = 0 \<or> h = 0 \<or> length k \<noteq> kKeySize \<or> \<not> hasHeight src h c then Invalid
      else if map_of (s_keys c) k \<noteq> None then Duplicate
      else if kMaxEntries \<le> cache_size c \<or> kMaxEntriesPerSource \<le> cache_source_size src c
      then Capacity else Accepted)"
    by (simp add: reserve_verdict_def)
  show ?thesis
  proof (cases rule: reserve_cases [OF ok, of src h k, case_names refused taken])
    case refused
    then show ?thesis unfolding verdict [symmetric] by simp
  next
    case (taken se b)
    note view = reserve_view(1) [OF ok taken(1)]
    show ?thesis unfolding verdict [symmetric] taken(1)
      using taken view by (simp add: update_conv' reservation_valid_def next_token_nonzero)
  qed
qed

theorem reserve_spec_witness:
  "fst (reserve 1 5 sample_key (cache_run sample_pre init_cache)) = Duplicate"
proof -
  have *: "hasHeight 1 5 (cache_run sample_pre init_cache) \<and>
      map_of (s_keys (cache_run sample_pre init_cache)) sample_key \<noteq> None"
    by (simp add: cache_eval)
  obtain res rv c' where r: "reserve 1 5 sample_key (cache_run sample_pre init_cache) = (res, rv, c')"
    by (metis prod_cases3)
  show ?thesis using reserve_spec [of 1 5 sample_key sample_pre] * by (simp add: r sample_len)
qed

text \<open>\<open>release\<close> undoes \<open>reserve\<close>: releasing an accepted reservation at once gives back the live
  identities of every bucket and the global index as they were, and the same identity is then
  acceptable again.\<close>

theorem release_undoes_reserve:
  fixes ops :: "cache_op list"
  defines "c \<equiv> cache_run ops init_cache"
  assumes res: "reserve src h k c = (Accepted, rv, c')"
  shows "entry (s_sources (release rv c')) = entry (s_sources c) \<and>
    map_of (s_keys (release rv c')) = map_of (s_keys c)"
proof -
  have ok: "cache_ok c" unfolding c_def by (rule reachable_ok)
  have ok': "cache_ok c'" using reserve_ok [OF ok, of src h k] res by simp
  have acc: "reserve_verdict src h k c = Accepted"
    using res by (cases rule: reserve_cases [OF ok, of src h k]) auto
  note view = reserve_view(1) [OF ok acc, unfolded res snd_conv]
  have rv: "rv = \<lparr>r_key = k, r_sourceId = src, r_height = h, r_token = next_token (s_sequence c)\<rparr>"
    using res by (cases rule: reserve_cases [OF ok, of src h k]) auto
  have hit: "release_hit rv c'" by (simp add: release_hit_def rv view next_token_nonzero)
  have keys: "s_keys c' = AList.update k (next_token (s_sequence c)) (s_keys c)"
    using res by (cases rule: reserve_cases [OF ok, of src h k]) auto
  have free: "map_of (s_keys c) k = None"
    using res by (cases rule: reserve_cases [OF ok, of src h k]) auto
  have none: "entry (s_sources c) src h k = None"
    using index_ok_entry_key [OF cache_okD(7) [OF ok], of src h k] free
    by (cases "entry (s_sources c) src h k") auto
  have "entry (s_sources (release rv c')) src' h' k' = entry (s_sources c) src' h' k'" for src' h' k'
    using release_view(1) [OF cache_okD(7) [OF ok'], of rv src' h' k'] hit none
    by (simp add: rv view split: if_splits)
  moreover have "map_of (s_keys (release rv c')) = map_of (s_keys c)"
    by (rule release_yes [OF cache_okD(7) [OF ok'] hit])
      (simp add: delete_conv' update_conv' rv keys free fun_upd_idem)
  ultimately show ?thesis by blast
qed

theorem release_undoes_reserve_witness:
  "map_of (s_keys (release (fst (snd (reserve 1 5 sample_key (cache_run [Observe 1 5] init_cache))))
     (snd (snd (reserve 1 5 sample_key (cache_run [Observe 1 5] init_cache)))))) =
   map_of (s_keys (cache_run [Observe 1 5] init_cache))"
proof -
  let ?r = "reserve 1 5 sample_key (cache_run [Observe 1 5] init_cache)"
  have "fst ?r = Accepted" by (simp add: cache_eval)
  then have "?r = (Accepted, fst (snd ?r), snd (snd ?r))" by (simp add: prod_eq_iff)
  from release_undoes_reserve [OF this] show ?thesis by blast
qed

text \<open>A reservation whose identity has meanwhile been taken by another one (its token is no longer
  the live one), or that was never granted, releases nothing: a late \<open>release\<close> cannot free somebody
  else's share.\<close>

theorem stale_release_harmless:
  assumes "entry (s_sources (cache_run ops init_cache)) (r_sourceId r) (r_height r) (r_key r) \<noteq> Some (r_token r)"
  shows "release r (cache_run ops init_cache) = cache_run ops init_cache"
  by (rule release_no) (use assms in \<open>simp add: release_hit_def\<close>)

theorem stale_release_harmless_witness:
  "release \<lparr>r_key = sample_key, r_sourceId = 1, r_height = 5, r_token = 9\<rparr> (cache_run sample_pre init_cache) =
   cache_run sample_pre init_cache"
proof (rule stale_release_harmless)
  show "entry (s_sources (cache_run sample_pre init_cache))
      (r_sourceId \<lparr>r_key = sample_key, r_sourceId = 1, r_height = 5, r_token = 9\<rparr>)
      (r_height \<lparr>r_key = sample_key, r_sourceId = 1, r_height = 5, r_token = 9\<rparr>)
      (r_key \<lparr>r_key = sample_key, r_sourceId = 1, r_height = 5, r_token = 9\<rparr>) \<noteq>
    Some (r_token \<lparr>r_key = sample_key, r_sourceId = 1, r_height = 5, r_token = 9\<rparr>)"
    by (simp add: cache_eval)
qed

text \<open>C22: the calls that move heights and connections forget an identity exactly when its height has no
  listed connection left and is not the newest of its source; all others keep their token.\<close>

fun moves_heights :: "cache_op \<Rightarrow> bool" where
  "moves_heights (Observe _ _) \<longleftrightarrow> True"
| "moves_heights (SetOwner _ _ _) \<longleftrightarrow> True"
| "moves_heights (RemoveOwner _) \<longleftrightarrow> True"
| "moves_heights _ \<longleftrightarrow> False"

theorem eviction_exact:
  fixes ops :: "cache_op list"
  defines "c \<equiv> cache_run ops init_cache"
  assumes "moves_heights op"
  shows "entry (s_sources (cache_step op c)) src h k =
    (if refs (s_owners (cache_step op c)) src h = 0 \<and> newest (s_sources (cache_step op c)) src \<noteq> h
     then None else entry (s_sources c) src h k)"
proof -
  have ok: "cache_ok c" unfolding c_def by (rule reachable_ok)
  let ?c' = "cache_step op c"
  have ok': "cache_ok ?c'" by (rule cache_step_ok [OF ok])
  have sh: "shrinks c ?c'"
    using assms(2) observeHeight_ok [OF ok] setOwnerHeights_ok [OF ok]
      detachOwner_ok [OF cache_okD(1-3) [OF ok]]
    by (cases op) (auto simp: removeOwner_def shrinks_refl)
  show ?thesis
  proof (cases "bucket (s_sources ?c') src h = None")
    case True
    then have none: "entry (s_sources ?c') src h k = None" by (simp add: entry_def)
    have "refs (s_owners ?c') src h = 0"
      using listed_bucket [OF ok', of src h] True by blast
    moreover have "entry (s_sources c) src h k = None" if "newest (s_sources ?c') src = h"
    proof -
      have "bucket (s_sources c) src h = None" using sh True that unfolding shrinks_def by blast
      then show ?thesis by (simp add: entry_def)
    qed
    ultimately show ?thesis using none by auto
  next
    case False
    have "newest (s_sources ?c') src = h" if "count (s_sources ?c') src h = 0"
      using False that cache_okD(3) [OF ok'] by (auto simp: noleak_alt)
    then have "\<not> (refs (s_owners ?c') src h = 0 \<and> newest (s_sources ?c') src \<noteq> h)"
      by (auto simp: cache_ok_count [OF ok'])
    moreover have "entry (s_sources ?c') src h k = entry (s_sources c) src h k"
      using sh False unfolding shrinks_def by presburger
    ultimately show ?thesis by auto
  qed
qed

theorem eviction_exact_witness:
  "entry (s_sources (cache_step (RemoveOwner 7) (cache_run (sample_pre @ [Observe 1 6]) init_cache))) 1 5 sample_key = None"
proof -
  have gone: "refs (s_owners (cache_step (RemoveOwner 7) (cache_run (sample_pre @ [Observe 1 6]) init_cache))) 1 5 = 0 \<and>
    newest (s_sources (cache_step (RemoveOwner 7) (cache_run (sample_pre @ [Observe 1 6]) init_cache))) 1 \<noteq> 5"
    by (simp add: cache_eval)
  show ?thesis by (subst eviction_exact) (use gone in simp_all)
qed

end
