(* ===== verification/Algorithm.thy ===== *)
theory Algorithm
  imports Prelude
begin

text \<open>
  Algorithm identifiers of \<open>base/crypto/Algorithm.h\<close> and \<open>Algorithm.cpp\<close>: the encoded identifiers, their
  families, the tables of names and aliases, and the case-insensitive parser. The build enables the
  CryptoNight, RandomX and Argon2 names and not those of KawPow and GhostRider, so these two have
  identifiers but no name or alias.
\<close>

section \<open>Identifiers and families\<close>

type_synonym algo = u32

definition ALGO_INVALID :: algo where "ALGO_INVALID = 0"
definition CN_0 :: algo where "CN_0 = 0x63150000"
definition CN_1 :: algo where "CN_1 = 0x63150100"
definition CN_2 :: algo where "CN_2 = 0x63150200"
definition CN_R :: algo where "CN_R = 0x63150272"
definition CN_FAST :: algo where "CN_FAST = 0x63150166"
definition CN_HALF :: algo where "CN_HALF = 0x63150268"
definition CN_XAO :: algo where "CN_XAO = 0x63150078"
definition CN_RTO :: algo where "CN_RTO = 0x63150172"
definition CN_RWZ :: algo where "CN_RWZ = 0x63150277"
definition CN_ZLS :: algo where "CN_ZLS = 0x6315027a"
definition CN_DOUBLE :: algo where "CN_DOUBLE = 0x63150264"
definition CN_CCX :: algo where "CN_CCX = 0x63150063"
definition CN_LITE_0 :: algo where "CN_LITE_0 = 0x63140000"
definition CN_LITE_1 :: algo where "CN_LITE_1 = 0x63140100"
definition CN_HEAVY_0 :: algo where "CN_HEAVY_0 = 0x63160000"
definition CN_HEAVY_TUBE :: algo where "CN_HEAVY_TUBE = 0x63160172"
definition CN_HEAVY_XHV :: algo where "CN_HEAVY_XHV = 0x63160068"
definition CN_PICO_0 :: algo where "CN_PICO_0 = 0x63120200"
definition CN_PICO_TLO :: algo where "CN_PICO_TLO = 0x63120274"
definition CN_UPX2 :: algo where "CN_UPX2 = 0x63110200"
definition CN_GR_0 :: algo where "CN_GR_0 = 0x63130100"
definition CN_GR_1 :: algo where "CN_GR_1 = 0x63130101"
definition CN_GR_2 :: algo where "CN_GR_2 = 0x63150102"
definition CN_GR_3 :: algo where "CN_GR_3 = 0x63140103"
definition CN_GR_4 :: algo where "CN_GR_4 = 0x63120104"
definition CN_GR_5 :: algo where "CN_GR_5 = 0x63120105"
definition GHOSTRIDER_RTM :: algo where "GHOSTRIDER_RTM = 0x6c150000"
definition RX_0 :: algo where "RX_0 = 0x72151200"
definition RX_V2 :: algo where "RX_V2 = 0x72151202"
definition RX_WOW :: algo where "RX_WOW = 0x72141177"
definition RX_ARQ :: algo where "RX_ARQ = 0x72121061"
definition RX_GRAFT :: algo where "RX_GRAFT = 0x72151267"
definition RX_SFX :: algo where "RX_SFX = 0x72151273"
definition RX_YADA :: algo where "RX_YADA = 0x72151279"
definition AR2_CHUKWA :: algo where "AR2_CHUKWA = 0x61130000"
definition AR2_CHUKWA_V2 :: algo where "AR2_CHUKWA_V2 = 0x61140000"
definition AR2_WRKZ :: algo where "AR2_WRKZ = 0x61120000"
definition KAWPOW_RVN :: algo where "KAWPOW_RVN = 0x6b0f0000"

definition FAM_UNKNOWN :: u32 where "FAM_UNKNOWN = 0"
definition FAM_CN_ANY :: u32 where "FAM_CN_ANY = 0x63000000"
definition FAM_CN :: u32 where "FAM_CN = 0x63150000"
definition FAM_CN_LITE :: u32 where "FAM_CN_LITE = 0x63140000"
definition FAM_CN_HEAVY :: u32 where "FAM_CN_HEAVY = 0x63160000"
definition FAM_CN_PICO :: u32 where "FAM_CN_PICO = 0x63120000"
definition FAM_CN_FEMTO :: u32 where "FAM_CN_FEMTO = 0x63110000"
definition FAM_RANDOM_X :: u32 where "FAM_RANDOM_X = 0x72000000"
definition FAM_ARGON2 :: u32 where "FAM_ARGON2 = 0x61000000"
definition FAM_KAWPOW :: u32 where "FAM_KAWPOW = 0x6b000000"
definition FAM_GHOSTRIDER :: u32 where "FAM_GHOSTRIDER = 0x6c000000"

lemmas algo_ids = ALGO_INVALID_def CN_0_def CN_1_def CN_2_def CN_R_def CN_FAST_def CN_HALF_def CN_XAO_def CN_RTO_def CN_RWZ_def CN_ZLS_def CN_DOUBLE_def CN_CCX_def CN_LITE_0_def CN_LITE_1_def CN_HEAVY_0_def CN_HEAVY_TUBE_def CN_HEAVY_XHV_def CN_PICO_0_def CN_PICO_TLO_def CN_UPX2_def CN_GR_0_def CN_GR_1_def CN_GR_2_def CN_GR_3_def CN_GR_4_def CN_GR_5_def GHOSTRIDER_RTM_def RX_0_def RX_V2_def RX_WOW_def RX_ARQ_def RX_GRAFT_def RX_SFX_def RX_YADA_def AR2_CHUKWA_def AR2_CHUKWA_V2_def AR2_WRKZ_def KAWPOW_RVN_def
lemmas algo_families = FAM_UNKNOWN_def FAM_CN_ANY_def FAM_CN_def FAM_CN_LITE_def FAM_CN_HEAVY_def FAM_CN_PICO_def FAM_CN_FEMTO_def FAM_RANDOM_X_def FAM_ARGON2_def FAM_KAWPOW_def FAM_GHOSTRIDER_def

definition algo_isCN :: "algo \<Rightarrow> bool" where
  "algo_isCN i \<longleftrightarrow> i AND 0xff000000 = FAM_CN_ANY"

definition algo_family :: "algo \<Rightarrow> u32" where
  "algo_family i = i AND (if algo_isCN i then 0xffff0000 else 0xff000000)"

definition algo_base :: "algo \<Rightarrow> algo" where
  "algo_base i = (if algo_isCN i then CN_0 OR (i AND 0xff00) else ALGO_INVALID)"

text \<open>\<open>1U << k\<close> and \<open>1ULL << k\<close> with \<open>k\<close> below the width, as every identifier of the table has it.\<close>

definition algo_l2 :: "algo \<Rightarrow> u64" where
  "algo_l2 i = (if algo_family i = FAM_RANDOM_X
     then ucast (push_bit (unat (drop_bit 8 i AND 0xff)) 1 :: u32) else 0)"

definition algo_l3 :: "algo \<Rightarrow> u64" where
  "algo_l3 i = push_bit (unat (drop_bit 16 i AND 0xff)) 1"

definition algo_isValid :: "algo \<Rightarrow> bool" where
  "algo_isValid i \<longleftrightarrow> i \<noteq> ALGO_INVALID \<and> FAM_UNKNOWN < algo_family i"

section \<open>Names\<close>

definition kAlgorithmNames :: "(algo \<times> string) list" where
  "kAlgorithmNames =
    [(CN_0, ''cn/0''),
     (CN_1, ''cn/1''),
     (CN_2, ''cn/2''),
     (CN_R, ''cn/r''),
     (CN_FAST, ''cn/fast''),
     (CN_HALF, ''cn/half''),
     (CN_XAO, ''cn/xao''),
     (CN_RTO, ''cn/rto''),
     (CN_RWZ, ''cn/rwz''),
     (CN_ZLS, ''cn/zls''),
     (CN_DOUBLE, ''cn/double''),
     (CN_CCX, ''cn/ccx''),
     (CN_LITE_0, ''cn-lite/0''),
     (CN_LITE_1, ''cn-lite/1''),
     (CN_HEAVY_0, ''cn-heavy/0''),
     (CN_HEAVY_TUBE, ''cn-heavy/tube''),
     (CN_HEAVY_XHV, ''cn-heavy/xhv''),
     (CN_PICO_0, ''cn-pico''),
     (CN_PICO_TLO, ''cn-pico/tlo''),
     (CN_UPX2, ''cn/upx2''),
     (RX_0, ''rx/0''),
     (RX_V2, ''rx/2''),
     (RX_WOW, ''rx/wow''),
     (RX_ARQ, ''rx/arq''),
     (RX_GRAFT, ''rx/graft''),
     (RX_SFX, ''rx/sfx''),
     (RX_YADA, ''rx/yada''),
     (AR2_CHUKWA, ''argon2/chukwa''),
     (AR2_CHUKWA_V2, ''argon2/chukwav2''),
     (AR2_WRKZ, ''argon2/ninja'')]"

definition kAlgorithmAliases :: "(string \<times> algo) list" where
  "kAlgorithmAliases =
    [(''cn/0'', CN_0),
     (''cryptonight/0'', CN_0),
     (''cryptonight'', CN_0),
     (''cn'', CN_0),
     (''cn/1'', CN_1),
     (''cryptonight/1'', CN_1),
     (''cryptonight-monerov7'', CN_1),
     (''cryptonight_v7'', CN_1),
     (''cn/2'', CN_2),
     (''cryptonight/2'', CN_2),
     (''cryptonight-monerov8'', CN_2),
     (''cryptonight_v8'', CN_2),
     (''cn/fast'', CN_FAST),
     (''cryptonight/fast'', CN_FAST),
     (''cryptonight/msr'', CN_FAST),
     (''cn/msr'', CN_FAST),
     (''cn/r'', CN_R),
     (''cryptonight/r'', CN_R),
     (''cryptonight_r'', CN_R),
     (''cn/xao'', CN_XAO),
     (''cryptonight/xao'', CN_XAO),
     (''cryptonight_alloy'', CN_XAO),
     (''cn/half'', CN_HALF),
     (''cryptonight/half'', CN_HALF),
     (''cn/rto'', CN_RTO),
     (''cryptonight/rto'', CN_RTO),
     (''cn/rwz'', CN_RWZ),
     (''cryptonight/rwz'', CN_RWZ),
     (''cn/zls'', CN_ZLS),
     (''cryptonight/zls'', CN_ZLS),
     (''cn/double'', CN_DOUBLE),
     (''cryptonight/double'', CN_DOUBLE),
     (''cn/ccx'', CN_CCX),
     (''cryptonight/ccx'', CN_CCX),
     (''cryptonight/conceal'', CN_CCX),
     (''cn/conceal'', CN_CCX),
     (''cn-lite/0'', CN_LITE_0),
     (''cryptonight-lite/0'', CN_LITE_0),
     (''cryptonight-lite'', CN_LITE_0),
     (''cryptonight-light'', CN_LITE_0),
     (''cn-lite'', CN_LITE_0),
     (''cn-light'', CN_LITE_0),
     (''cryptonight_lite'', CN_LITE_0),
     (''cn-lite/1'', CN_LITE_1),
     (''cryptonight-lite/1'', CN_LITE_1),
     (''cryptonight-aeonv7'', CN_LITE_1),
     (''cryptonight_lite_v7'', CN_LITE_1),
     (''cn-heavy/0'', CN_HEAVY_0),
     (''cryptonight-heavy/0'', CN_HEAVY_0),
     (''cryptonight-heavy'', CN_HEAVY_0),
     (''cn-heavy'', CN_HEAVY_0),
     (''cryptonight_heavy'', CN_HEAVY_0),
     (''cn-heavy/xhv'', CN_HEAVY_XHV),
     (''cryptonight-heavy/xhv'', CN_HEAVY_XHV),
     (''cryptonight_haven'', CN_HEAVY_XHV),
     (''cn-heavy/tube'', CN_HEAVY_TUBE),
     (''cryptonight-heavy/tube'', CN_HEAVY_TUBE),
     (''cryptonight-bittube2'', CN_HEAVY_TUBE),
     (''cn-pico'', CN_PICO_0),
     (''cryptonight-pico'', CN_PICO_0),
     (''cn-pico/0'', CN_PICO_0),
     (''cryptonight-pico/trtl'', CN_PICO_0),
     (''cn-pico/trtl'', CN_PICO_0),
     (''cryptonight-turtle'', CN_PICO_0),
     (''cn-trtl'', CN_PICO_0),
     (''cryptonight-ultralite'', CN_PICO_0),
     (''cn-ultralite'', CN_PICO_0),
     (''cryptonight_turtle'', CN_PICO_0),
     (''cn_turtle'', CN_PICO_0),
     (''cn-pico/tlo'', CN_PICO_TLO),
     (''cryptonight-pico/tlo'', CN_PICO_TLO),
     (''cryptonight/ultra'', CN_PICO_TLO),
     (''cn/ultra'', CN_PICO_TLO),
     (''cryptonight-talleo'', CN_PICO_TLO),
     (''cn-talleo'', CN_PICO_TLO),
     (''cryptonight_talleo'', CN_PICO_TLO),
     (''cn_talleo'', CN_PICO_TLO),
     (''cn/upx2'', CN_UPX2),
     (''cryptonight/upx2'', CN_UPX2),
     (''cn-extremelite/upx2'', CN_UPX2),
     (''cryptonight-upx/2'', CN_UPX2),
     (''rx/0'', RX_0),
     (''randomx/0'', RX_0),
     (''randomx/test'', RX_0),
     (''rx/test'', RX_0),
     (''randomx'', RX_0),
     (''rx'', RX_0),
     (''rx/2'', RX_V2),
     (''randomx/v2'', RX_V2),
     (''rx/v2'', RX_V2),
     (''rx/wow'', RX_WOW),
     (''randomx/wow'', RX_WOW),
     (''randomwow'', RX_WOW),
     (''rx/arq'', RX_ARQ),
     (''randomx/arq'', RX_ARQ),
     (''randomarq'', RX_ARQ),
     (''rx/graft'', RX_GRAFT),
     (''randomx/graft'', RX_GRAFT),
     (''randomgraft'', RX_GRAFT),
     (''rx/sfx'', RX_SFX),
     (''randomx/sfx'', RX_SFX),
     (''randomsfx'', RX_SFX),
     (''rx/yada'', RX_YADA),
     (''randomx/yada'', RX_YADA),
     (''randomyada'', RX_YADA),
     (''argon2/chukwa'', AR2_CHUKWA),
     (''chukwa'', AR2_CHUKWA),
     (''argon2/chukwav2'', AR2_CHUKWA_V2),
     (''chukwav2'', AR2_CHUKWA),
     (''argon2/ninja'', AR2_WRKZ),
     (''argon2/wrkz'', AR2_WRKZ)]"

definition algo_order :: "algo list" where
  "algo_order =
    [CN_0, CN_1, CN_2, CN_R, CN_FAST, CN_HALF, CN_XAO, CN_RTO,
     CN_RWZ, CN_ZLS, CN_DOUBLE, CN_CCX, CN_LITE_0, CN_LITE_1, CN_HEAVY_0, CN_HEAVY_TUBE,
     CN_HEAVY_XHV, CN_PICO_0, CN_PICO_TLO, CN_UPX2, RX_0, RX_V2, RX_WOW, RX_ARQ,
     RX_GRAFT, RX_SFX, RX_YADA, AR2_CHUKWA, AR2_CHUKWA_V2, AR2_WRKZ, KAWPOW_RVN, GHOSTRIDER_RTM]"

definition algo_of_id :: "u32 \<Rightarrow> algo" where
  "algo_of_id i = (if map_of kAlgorithmNames i \<noteq> None then i else ALGO_INVALID)"

definition algo_name :: "algo \<Rightarrow> string" where
  "algo_name i =
     (if \<not> algo_isValid i then ''invalid''
      else case map_of kAlgorithmNames i of None \<Rightarrow> ''invalid'' | Some n \<Rightarrow> n)"

text \<open>\<open>strcasecmp(a, b) == 0\<close>: the lookup of the alias map identifies names up to case, and the first of
  two equivalent aliases of the table is the one the map keeps.\<close>

definition strcase_eq :: "string \<Rightarrow> string \<Rightarrow> bool" where
  "strcase_eq a b = (map to_lower a = map to_lower b)"

definition algo_parse :: "cstr \<Rightarrow> algo" where
  "algo_parse name =
     (case name of None \<Rightarrow> ALGO_INVALID
      | Some s \<Rightarrow>
          if length s < 1 then ALGO_INVALID
          else (case List.find (\<lambda>(a, i). strcase_eq a s) kAlgorithmAliases of
                  None \<Rightarrow> ALGO_INVALID | Some (a, i) \<Rightarrow> i))"

definition algo_count :: nat where
  "algo_count = length kAlgorithmNames"

definition algo_all :: "(algo \<Rightarrow> bool) option \<Rightarrow> algo list" where
  "algo_all filt =
     filter (\<lambda>i. map_of kAlgorithmNames i \<noteq> None \<and> (case filt of None \<Rightarrow> True | Some f \<Rightarrow> f i)) algo_order"

section \<open>Lookup up to case\<close>

lemma to_lower_chars [simp]:
  "to_lower CHR ''-'' = CHR ''-''" "to_lower CHR ''/'' = CHR ''/''" "to_lower CHR ''0'' = CHR ''0''"
  "to_lower CHR ''1'' = CHR ''1''" "to_lower CHR ''2'' = CHR ''2''" "to_lower CHR ''7'' = CHR ''7''"
  "to_lower CHR ''8'' = CHR ''8''" "to_lower CHR ''_'' = CHR ''_''" "to_lower CHR ''a'' = CHR ''a''"
  "to_lower CHR ''b'' = CHR ''b''" "to_lower CHR ''c'' = CHR ''c''" "to_lower CHR ''d'' = CHR ''d''"
  "to_lower CHR ''e'' = CHR ''e''" "to_lower CHR ''f'' = CHR ''f''" "to_lower CHR ''g'' = CHR ''g''"
  "to_lower CHR ''h'' = CHR ''h''" "to_lower CHR ''i'' = CHR ''i''" "to_lower CHR ''j'' = CHR ''j''"
  "to_lower CHR ''k'' = CHR ''k''" "to_lower CHR ''l'' = CHR ''l''" "to_lower CHR ''m'' = CHR ''m''"
  "to_lower CHR ''n'' = CHR ''n''" "to_lower CHR ''o'' = CHR ''o''" "to_lower CHR ''p'' = CHR ''p''"
  "to_lower CHR ''q'' = CHR ''q''" "to_lower CHR ''r'' = CHR ''r''" "to_lower CHR ''s'' = CHR ''s''"
  "to_lower CHR ''t'' = CHR ''t''" "to_lower CHR ''u'' = CHR ''u''" "to_lower CHR ''v'' = CHR ''v''"
  "to_lower CHR ''w'' = CHR ''w''" "to_lower CHR ''x'' = CHR ''x''" "to_lower CHR ''y'' = CHR ''y''"
  "to_lower CHR ''z'' = CHR ''z''"
  by code_simp+

definition lower_case :: "string \<Rightarrow> bool" where
  "lower_case s \<longleftrightarrow> map to_lower s = s"

lemma aliases_lower: "list_all (\<lambda>(a, i). lower_case a) kAlgorithmAliases"
  by (simp add: kAlgorithmAliases_def lower_case_def)

lemma names_lower: "list_all (\<lambda>(i, n). lower_case n) kAlgorithmNames"
  by (simp add: kAlgorithmNames_def lower_case_def)

lemma find_key: "(case List.find (\<lambda>(a, i). a = s) xs of None \<Rightarrow> d | Some (a, i) \<Rightarrow> i) =
    (case map_of xs s of None \<Rightarrow> d | Some i \<Rightarrow> i)"
  by (induction xs) auto

lemma find_alias:
  "list_all (\<lambda>(a, i). lower_case a) xs \<Longrightarrow>
   List.find (\<lambda>(a, i). strcase_eq a s) xs = List.find (\<lambda>(a, i). a = map to_lower s) xs"
  by (induction xs) (auto simp: strcase_eq_def lower_case_def)

lemma algo_parse_eq:
  "algo_parse (Some s) =
     (if s = [] then ALGO_INVALID
      else case map_of kAlgorithmAliases (map to_lower s) of None \<Rightarrow> ALGO_INVALID | Some i \<Rightarrow> i)"
  by (simp add: algo_parse_def find_alias [OF aliases_lower] find_key)

lemma names_parse:
  "list_all (\<lambda>(i, n). n \<noteq> [] \<and> map_of kAlgorithmAliases n = Some i) kAlgorithmNames"
  by code_simp

lemma aliases_named: "snd ` set kAlgorithmAliases \<subseteq> fst ` set kAlgorithmNames"
  by (simp add: kAlgorithmNames_def kAlgorithmAliases_def)

lemma names_valid: "list_all (\<lambda>(i, n). algo_isValid i) kAlgorithmNames"
  by code_simp

lemma names_distinct: "distinct (map fst kAlgorithmNames)"
  by code_simp

section \<open>Properties\<close>

text \<open>The parser and the name table of algorithms agree: the name of every named algorithm parses
  back to it, parsing ignores letter case, and whatever is parsed is either the invalid algorithm or a
  valid one that has a name.\<close>

theorem algo_parse_name:
  "list_all (\<lambda>(i, n). algo_name i = n \<and> algo_parse (Some n) = i) kAlgorithmNames \<and>
   algo_parse (Some (map to_lower s)) = algo_parse (Some s) \<and>
   (algo_parse nm = ALGO_INVALID \<or> algo_isValid (algo_parse nm) \<and> algo_of_id (algo_parse nm) = algo_parse nm)"
proof (intro conjI)
  have "algo_name i = n \<and> algo_parse (Some n) = i" if "(i, n) \<in> set kAlgorithmNames" for i n
  proof -
    have "map_of kAlgorithmNames i = Some n"
      using that names_distinct by (simp add: map_of_is_SomeI)
    moreover have "algo_isValid i" "n \<noteq> []" "map_of kAlgorithmAliases n = Some i" "map to_lower n = n"
      using that names_valid names_parse names_lower
      by (auto simp: list_all_iff lower_case_def)
    ultimately show ?thesis by (simp add: algo_name_def algo_parse_eq)
  qed
  then show "list_all (\<lambda>(i, n). algo_name i = n \<and> algo_parse (Some n) = i) kAlgorithmNames"
    by (auto simp: list_all_iff)
  have "to_lower (to_lower c) = to_lower c" for c
    using of_char_to_lower [of "to_lower c"] of_char_to_lower [of c]
    by (intro of_char_eqI [where 'a = nat]) (auto simp: Let_def split: if_splits)
  then show "algo_parse (Some (map to_lower s)) = algo_parse (Some s)"
    by (simp add: algo_parse_eq comp_def)
next
  show "algo_parse nm = ALGO_INVALID \<or> algo_isValid (algo_parse nm) \<and> algo_of_id (algo_parse nm) = algo_parse nm"
  proof (cases nm)
    case (Some s)
    show ?thesis
    proof (cases "map_of kAlgorithmAliases (map to_lower s)")
      case (Some i)
      then have "(map to_lower s, i) \<in> set kAlgorithmAliases" by (rule map_of_SomeD)
      then have "i \<in> fst ` set kAlgorithmNames" using aliases_named by force
      then obtain n where n: "(i, n) \<in> set kAlgorithmNames" by auto
      then have "algo_isValid i" using names_valid by (auto simp: list_all_iff)
      moreover have "algo_of_id i = i"
        using n names_distinct by (simp add: algo_of_id_def map_of_is_SomeI)
      ultimately show ?thesis using Some \<open>nm = Some s\<close> by (simp add: algo_parse_eq)
    qed (simp add: \<open>nm = Some s\<close> algo_parse_eq)
  qed (simp add: algo_parse_def)
qed

text \<open>The alias \<open>chukwav2\<close> names the first version of the algorithm, unlike \<open>argon2/chukwav2\<close>.\<close>

lemma chukwav2_alias:
  "algo_parse (Some ''chukwav2'') = AR2_CHUKWA \<and> algo_parse (Some ''argon2/chukwav2'') = AR2_CHUKWA_V2"
  by code_simp

end
