(* ===== verification/Hex_Codec.thy ===== *)
theory Hex_Codec
  imports Share_Key
begin

text \<open>
  Hexadecimal encoding and decoding of \<open>base/tools/Cvt.cpp\<close>. The code computes digits without
  branches, in 32-bit unsigned arithmetic truncated to bytes; the definitions keep those widths.
  The reference definitions \<open>unhex\<close> and \<open>hex_string\<close> work on digit values, and the lemmas show that
  the branch-free code agrees with them on every byte, so that decoding inverts encoding.
\<close>

section \<open>Encoding\<close>

text \<open>The digit expression of \<open>cvt_bin2hex\<close>, for a nibble.\<close>

definition hex_digit :: "u32 \<Rightarrow> u8" where
  "hex_digit c = ucast (87 + c + (drop_bit 8 (c - 10) AND NOT 38))"

fun bin2hex_loop :: "u8 list \<Rightarrow> string" where
  "bin2hex_loop [] = []"
| "bin2hex_loop (byte # bin) =
     (let c = ucast byte AND 0xf :: u32;
          b = drop_bit 4 (ucast byte) :: u32;
          x = push_bit 8 (ucast (hex_digit c)) OR ucast (hex_digit b) :: u32
      in char_of (unat (ucast x :: u8)) # char_of (unat (ucast (drop_bit 8 x) :: u8)) # bin2hex_loop bin)"

text \<open>\<open>None\<close> is the null pointer. The digits are followed by a NUL when the buffer has room for it.\<close>

definition cvt_bin2hex :: "nat \<Rightarrow> u8 list \<Rightarrow> string option" where
  "cvt_bin2hex hex_maxlen bin =
     (if (2 ^ 64 - 1) div 2 \<le> length bin \<or> hex_maxlen < length bin * 2 then None
      else Some (bin2hex_loop bin))"

definition toHex :: "u8 list \<Rightarrow> cstr" where
  "toHex bin = (if bin = [] then None else cvt_bin2hex (length bin * 2 + 1) bin)"

section \<open>Decoding\<close>

text \<open>
  The variables of one round of \<open>cvt_hex2bin\<close>: \<open>c_num0\<close> and \<open>c_alpha0\<close> are masks that say whether the
  character is a decimal digit or a letter from a to f.
\<close>

definition c_num :: "u8 \<Rightarrow> u8" where "c_num c = c XOR 48"
definition c_num0 :: "u8 \<Rightarrow> u8" where "c_num0 c = ucast (drop_bit 8 (ucast (c_num c) - 10 :: u32))"
definition c_alpha :: "u8 \<Rightarrow> u8" where "c_alpha c = ucast ((ucast c AND NOT 32) - 55 :: u32)"
definition c_alpha0 :: "u8 \<Rightarrow> u8" where
  "c_alpha0 c = ucast (drop_bit 8 ((ucast (c_alpha c) - 10) XOR (ucast (c_alpha c) - 16) :: u32))"
definition c_val :: "u8 \<Rightarrow> u8" where
  "c_val c = (c_num0 c AND c_num c) OR (c_alpha0 c AND c_alpha c)"

text \<open>
  The loop with \<open>ignore\<close> null. It returns the code \<open>ret\<close>, the bytes written, the final \<open>state\<close> and the
  characters that were not consumed.
\<close>

fun hex2bin_loop :: "nat \<Rightarrow> u8 list \<Rightarrow> u8 \<Rightarrow> u8 \<Rightarrow> string \<Rightarrow> int \<times> u8 list \<times> u8 \<times> string" where
  "hex2bin_loop maxlen bin c_acc state [] = (0, bin, state, [])"
| "hex2bin_loop maxlen bin c_acc state (h # hex) =
     (let c = of_char h in
      if c_num0 c OR c_alpha0 c = 0 then (0, bin, state, h # hex)
      else if maxlen \<le> length bin then (-1, bin, state, h # hex)
      else if state = 0 then hex2bin_loop maxlen bin (c_val c * 16) (NOT state) hex
      else hex2bin_loop maxlen (bin @ [c_acc OR c_val c]) c_acc (NOT state) hex)"

text \<open>With \<open>hex_end\<close> and \<open>bin_len\<close> null, as every caller has them: the code and the bytes written.\<close>

definition cvt_hex2bin :: "nat \<Rightarrow> string \<Rightarrow> int \<times> u8 list" where
  "cvt_hex2bin maxlen hex =
     (case hex2bin_loop maxlen [] 0 0 hex of (ret, bin, state, rest) \<Rightarrow>
        if state \<noteq> 0 \<or> rest \<noteq> [] then (-1, bin) else (ret, bin))"

text \<open>
  The first \<open>n\<close> bytes at a \<open>const char *\<close>: the decoder never reads past the terminating NUL, which it
  does not accept as a digit.
\<close>

definition c_chars :: "nat \<Rightarrow> string \<Rightarrow> string" where
  "c_chars n s = take n (s @ [char_of (0 :: nat)])"

text \<open>\<open>Cvt::fromHex\<close> into a buffer of \<open>bin_maxlen\<close> bytes and into a fresh \<open>Buffer\<close>.\<close>

definition fromHex_raw :: "nat \<Rightarrow> cstr \<Rightarrow> nat \<Rightarrow> u8 list option" where
  "fromHex_raw bin_maxlen hex hex_len =
     (case hex of None \<Rightarrow> None
      | Some s \<Rightarrow>
          if hex_len = 0 then None
          else (case cvt_hex2bin bin_maxlen (c_chars hex_len s) of
                  (ret, bin) \<Rightarrow> if ret = 0 then Some bin else None))"

definition fromHex :: "cstr \<Rightarrow> nat \<Rightarrow> u8 list" where
  "fromHex hex n = (case fromHex_raw (n div 2) hex n of None \<Rightarrow> [] | Some bin \<Rightarrow> bin)"

section \<open>Reference definitions\<close>

definition nibble :: "char \<Rightarrow> u8" where
  "nibble c = of_int (hexValue c)"

fun unhex :: "string \<Rightarrow> u8 list option" where
  "unhex [] = Some []"
| "unhex [_] = None"
| "unhex (a # b # s) =
     (if is_hex a \<and> is_hex b then map_option ((#) (nibble a * 16 OR nibble b)) (unhex s) else None)"

definition hex_char :: "nat \<Rightarrow> char" where
  "hex_char n = char_of (if n < 10 then 48 + n else 87 + n)"

definition hex_string :: "u8 list \<Rightarrow> string" where
  "hex_string bs = concat (map (\<lambda>b. [hex_char (unat b div 16), hex_char (unat b mod 16)]) bs)"

section \<open>The branch-free code agrees with the reference\<close>

definition digit_value :: "nat \<Rightarrow> int" where
  "digit_value c =
     (if 48 \<le> c \<and> c \<le> 57 then int c - 48
      else if 97 \<le> c \<and> c \<le> 102 then int c - 87
      else if 65 \<le> c \<and> c \<le> 70 then int c - 55
      else -1)"

definition masks_ok :: "nat \<Rightarrow> bool" where
  "masks_ok n \<longleftrightarrow>
     (c_num0 (of_nat n) OR c_alpha0 (of_nat n) = 0) = (digit_value n < 0) \<and>
     (digit_value n < 0 \<or> c_val (of_nat n) = of_int (digit_value n))"

lemmas mask_defs = masks_ok_def c_val_def c_num0_def c_num_def c_alpha0_def c_alpha_def digit_value_def

lemma mask_24: "mask 24 = (0xFFFFFF :: u32)"
  by (simp add: mask_eq_exp_minus_1)

lemma masks_ok_2: "masks_ok 0 \<and> masks_ok 1"
  by (simp add: mask_defs mask_24)

lemma masks_ok_upt: "list_all masks_ok [2..<256]"
  apply (simp add: upt_rec_numeral)
  apply (simp add: mask_defs mask_24)
  done

lemma masks_ok: "n < 256 \<Longrightarrow> masks_ok n"
proof -
  assume "n < 256"
  then have "n = 0 \<or> n = 1 \<or> 2 \<le> n \<and> n < 256" by arith
  then have "n = 0 \<or> n = 1 \<or> n \<in> set [2..<256]" by (simp only: set_upt atLeastLessThan_iff)
  moreover have "\<forall>n \<in> set [2..<256]. masks_ok n" using masks_ok_upt unfolding list_all_iff .
  ultimately show ?thesis using masks_ok_2 by blast
qed

lemma hexValue_digit_value: "hexValue c = digit_value (of_char c)"
proof -
  have "int (of_char c) = (of_char c :: int)" by (rule of_nat_of_char)
  then show ?thesis by (simp add: hexValue_def digit_value_def Let_def)
qed

lemma char_masks:
  "c_num0 (of_char c) OR c_alpha0 (of_char c) = 0 \<longleftrightarrow> \<not> is_hex c"
  "is_hex c \<Longrightarrow> c_val (of_char c) = nibble c"
proof -
  have "masks_ok (of_char c)" by (intro masks_ok) (metis of_char_mod_256 mod_less_divisor zero_less_numeral)
  moreover have "of_nat (of_char c) = (of_char c :: u8)" by (rule of_nat_of_char)
  ultimately show "c_num0 (of_char c) OR c_alpha0 (of_char c) = 0 \<longleftrightarrow> \<not> is_hex c"
    "is_hex c \<Longrightarrow> c_val (of_char c) = nibble c"
    by (auto simp: masks_ok_def is_hex_def nibble_def hexValue_digit_value not_le not_less)
qed

lemma hex2bin_loop_accepts:
  "unhex hex = Some bs \<Longrightarrow> length bin + length bs \<le> maxlen \<Longrightarrow>
   hex2bin_loop maxlen bin acc 0 hex = (0, bin @ bs, 0, [])"
  by (induction hex arbitrary: bin acc bs rule: unhex.induct)
    (auto simp: Let_def char_masks split: if_splits)

lemma hex2bin_loop_only:
  "hex2bin_loop maxlen bin acc 0 hex = (ret, b, 0, []) \<Longrightarrow> length bin \<le> maxlen \<Longrightarrow>
   \<exists>bs. unhex hex = Some bs \<and> b = bin @ bs \<and> length b \<le> maxlen \<and> ret = 0"
  by (induction hex arbitrary: bin acc rule: unhex.induct)
    (fastforce simp: Let_def char_masks split: if_splits)+

lemma cvt_hex2bin_iff:
  "cvt_hex2bin maxlen hex = (0, bs) \<longleftrightarrow> unhex hex = Some bs \<and> length bs \<le> maxlen"
proof
  assume "cvt_hex2bin maxlen hex = (0, bs)"
  then have "hex2bin_loop maxlen [] 0 0 hex = (0, bs, 0, [])"
    by (auto simp: cvt_hex2bin_def split: prod.splits if_splits)
  from hex2bin_loop_only [OF this] show "unhex hex = Some bs \<and> length bs \<le> maxlen" by simp
next
  assume "unhex hex = Some bs \<and> length bs \<le> maxlen"
  then have "hex2bin_loop maxlen [] 0 0 hex = (0, bs, 0, [])"
    using hex2bin_loop_accepts [of hex bs "[]" maxlen 0] by simp
  then show "cvt_hex2bin maxlen hex = (0, bs)" by (simp add: cvt_hex2bin_def)
qed

lemma fromHex_raw_iff:
  "fromHex_raw m (Some s) n = Some bs \<longleftrightarrow> n \<noteq> 0 \<and> unhex (c_chars n s) = Some bs \<and> length bs \<le> m"
  using cvt_hex2bin_iff [of m "c_chars n s" bs]
  by (auto simp: fromHex_raw_def split: prod.splits)

lemma unhex_length: "unhex s = Some bs \<Longrightarrow> length s = 2 * length bs"
  by (induction s arbitrary: bs rule: unhex.induct) (auto split: if_splits)

lemma unhex_digits: "unhex s = Some bs \<Longrightarrow> list_all is_hex s"
  by (induction s arbitrary: bs rule: unhex.induct) (auto split: if_splits)

lemma not_hex_NUL: "\<not> is_hex (char_of (0 :: nat))"
  by (simp add: is_hex_def hexValue_def Let_def)

lemma unhex_c_chars:
  assumes "unhex (c_chars n s) = Some bs"
  shows "c_chars n s = take n s \<and> n \<le> length s"
proof (cases "n \<le> length s")
  case False
  then have "char_of (0 :: nat) \<in> set (c_chars n s)" by (simp add: c_chars_def)
  with unhex_digits [OF assms] not_hex_NUL show ?thesis by (auto simp: list_all_iff)
qed (simp add: c_chars_def)

section \<open>The encoder agrees with the reference\<close>

lemma hex_digit_values:
  "n < 16 \<Longrightarrow> hex_digit (of_nat n) = of_nat (if n < 10 then 48 + n else 87 + n)"
proof -
  assume "n < 16"
  then have "n \<in> {15, 14, 13, 12, 11, 10, 9, 8, 7, 6, 5, 4, 3, 2, 1, 0}" by (simp only: insert_iff empty_iff) arith
  then show ?thesis by (elim insertE emptyE) (simp_all add: hex_digit_def mask_24)
qed


lemma low_nibble: "(ucast (b :: u8) AND 0xf :: u32) = of_nat (unat b mod 16)"
proof -
  have "(0xf :: u32) = mask 4" by (simp add: mask_eq_exp_minus_1)
  then have "(ucast b AND 0xf :: u32) = take_bit 4 (ucast b)" by (simp add: take_bit_eq_mask)
  also have "\<dots> = take_bit 4 (of_nat (unat b))" by simp
  also have "\<dots> = of_nat (take_bit 4 (unat b))" by (rule take_bit_of_nat)
  finally show ?thesis by (simp add: take_bit_eq_mod)
qed
lemma high_nibble: "(drop_bit 4 (ucast (b :: u8)) :: u32) = of_nat (unat b div 16)"
proof -
  have "unat b < 256" using unsigned_less [of b] by simp
  then have "unat (drop_bit 4 (ucast b) :: u32) = unat b div 16"
    unfolding unat_drop_bit_eq by (simp add: drop_bit_eq_div unsigned_ucast_eq take_bit_eq_mod)
  then have "(of_nat (unat (drop_bit 4 (ucast b) :: u32)) :: u32) = of_nat (unat b div 16)" by (rule arg_cong)
  then show ?thesis by simp
qed
lemma split_x: "(ucast (push_bit 8 (ucast (l::u8)) OR ucast (h::u8) :: u32) :: u8) = h"
  "(ucast (drop_bit 8 (push_bit 8 (ucast (l::u8)) OR ucast (h::u8) :: u32)) :: u8) = l"
by (auto simp: bit_eq_iff bit_simps dest: bit_imp_le_length)

lemma bin2hex_loop_eq: "bin2hex_loop bs = hex_string bs"
proof (induction bs)
  case (Cons b bs)
  have lt: "unat b < 256" using unsigned_less [of b] by simp
  have char: "char_of (unat (hex_digit (of_nat n))) = hex_char n" if "n < 16" for n
    using that by (simp add: hex_digit_values hex_char_def unsigned_of_nat take_bit_eq_mod)
  show ?case
    using lt by (simp only: bin2hex_loop.simps Let_def split_x low_nibble high_nibble) (simp add: char Cons hex_string_def)
qed (simp add: hex_string_def)

lemma hex_char_value: "n < 16 \<Longrightarrow> hexValue (hex_char n) = int n"
  by (auto simp: hexValue_digit_value digit_value_def hex_char_def)

lemma nibbles: "nibble (hex_char (unat b div 16)) * 16 OR nibble (hex_char (unat b mod 16)) = (b :: u8)"
proof -
  have lt: "unat b < 256" using unsigned_less [of b] by simp
  have n: "nibble (hex_char m) = of_nat m" if "m < 16" for m
    using that by (simp add: nibble_def hex_char_value)
  have "of_nat (unat b div 16) * 16 = (push_bit 4 (of_nat (unat b div 16)) :: u8)"
    by (simp add: push_bit_eq_mult)
  moreover have "push_bit 4 (of_nat (unat b div 16)) OR of_nat (unat b mod 16) =
      (of_nat (push_bit 4 (unat b div 16) OR (unat b mod 16)) :: u8)"
    by (simp add: of_nat_or_eq push_bit_of_nat)
  ultimately show ?thesis
    using lt by (simp add: n nibble_or)
qed

lemma unhex_hex_string: "unhex (hex_string bs) = Some bs"
proof (induction bs)
  case (Cons b bs)
  have "unat b < 256" using unsigned_less [of b] by simp
  then have "is_hex (hex_char (unat b div 16)) \<and> is_hex (hex_char (unat b mod 16))"
    by (simp add: is_hex_def hex_char_value)
  then show ?case using Cons by (simp add: hex_string_def nibbles)
qed (simp add: hex_string_def)

lemma length_hex_string [simp]: "length (hex_string bs) = 2 * length bs"
  by (induction bs) (simp_all add: hex_string_def)

lemma hex_char_to_lower: "is_hex c \<Longrightarrow> hex_char (nat (hexValue c)) = to_lower c"
proof -
  assume "is_hex c"
  then have "of_char (hex_char (nat (hexValue c))) = (of_char (to_lower c) :: nat)"
    by (auto simp: is_hex_def hexValue_digit_value digit_value_def hex_char_def of_char_to_lower split: if_splits)
  then show ?thesis by simp
qed

lemma hex_string_unhex: "unhex s = Some bs \<Longrightarrow> hex_string bs = map to_lower s"
proof (induction s arbitrary: bs rule: unhex.induct)
  case (3 a b s)
  then obtain cs where cs: "is_hex a" "is_hex b" "unhex s = Some cs" "bs = (nibble a * 16 OR nibble b) # cs"
    by (auto split: if_splits)
  define m n where "m = nat (hexValue a)" and "n = nat (hexValue b)"
  have mn: "m < 16" "n < 16" using hexValue_lt [of a] hexValue_lt [of b] by (simp_all add: m_def n_def)
  have v: "nibble a = of_nat m" "nibble b = of_nat n"
    using cs(1,2) by (simp_all add: nibble_def m_def n_def is_hex_def)
  have "nibble a * 16 OR nibble b = (of_nat (push_bit 4 m OR n) :: u8)"
    unfolding v by (simp add: of_nat_or_eq push_bit_of_nat push_bit_eq_mult flip: push_bit_of_nat)
  also have "\<dots> = of_nat (16 * m + n)" using mn by (simp add: nibble_or)
  finally have "unat (nibble a * 16 OR nibble b) = 16 * m + n"
    using mn by (simp add: unsigned_of_nat take_bit_eq_mod del: of_nat_add of_nat_mult)
  then have "hex_string bs = hex_char m # hex_char n # hex_string cs"
    using mn by (simp add: cs(4) hex_string_def)
  then show ?case using 3(1) [OF _ cs(3)] cs(1,2) by (simp add: m_def n_def hex_char_to_lower)
qed (auto simp: hex_string_def)

lemma fromHex_raw_spec:
  "fromHex_raw m (Some s) n = Some bs \<longleftrightarrow>
     n \<noteq> 0 \<and> n \<le> length s \<and> unhex (take n s) = Some bs \<and> length bs \<le> m"
proof
  assume l: "fromHex_raw m (Some s) n = Some bs"
  then have "unhex (c_chars n s) = Some bs" by (simp add: fromHex_raw_iff)
  from unhex_c_chars [OF this] l show "n \<noteq> 0 \<and> n \<le> length s \<and> unhex (take n s) = Some bs \<and> length bs \<le> m"
    by (auto simp: fromHex_raw_iff)
qed (simp add: fromHex_raw_iff c_chars_def)

section \<open>The codec\<close>

text \<open>C32: \<open>Cvt::fromHex\<close> succeeds exactly when the given number of characters is even and nonzero, lies
  within the string, consists of hexadecimal digits and decodes to at most the size of the buffer, and
  then it writes the bytes of the reference decoder: the branch-free loop reads no other character and
  never overruns the buffer.\<close>

theorem fromHex_spec:
  "fromHex_raw m (Some s) n = Some bs \<longleftrightarrow>
     n \<noteq> 0 \<and> n \<le> length s \<and> unhex (take n s) = Some bs \<and> length bs \<le> m"
  by (rule fromHex_raw_spec)

text \<open>Decoding inverts encoding for every nonempty byte string, and encoding a decoded string gives
  its digits in lower case.\<close>

theorem hex_roundtrip:
  assumes "bs \<noteq> []" and "length bs < 2 ^ 62"
  shows "(\<exists>s. toHex bs = Some s \<and> length s = 2 * length bs \<and> fromHex (Some s) (length s) = bs \<and>
    (\<forall>s'. length s' = 2 * length bs \<and> fromHex (Some s') (length s') = bs \<longrightarrow> map to_lower s' = s))"
proof (intro exI conjI allI impI)
  show "toHex bs = Some (hex_string bs)"
    using assms by (simp add: toHex_def cvt_bin2hex_def bin2hex_loop_eq)
  show "length (hex_string bs) = 2 * length bs" by simp
  have "fromHex_raw (length bs) (Some (hex_string bs)) (2 * length bs) = Some bs"
    using assms by (simp add: fromHex_raw_spec unhex_hex_string)
  then show "fromHex (Some (hex_string bs)) (length (hex_string bs)) = bs" by (simp add: fromHex_def)
next
  fix s' assume s': "length s' = 2 * length bs \<and> fromHex (Some s') (length s') = bs"
  then have "fromHex_raw (length s' div 2) (Some s') (length s') = Some bs"
    using assms(1) by (auto simp: fromHex_def split: option.splits)
  then have "unhex s' = Some bs" by (simp add: fromHex_raw_spec)
  then show "map to_lower s' = hex_string bs" using hex_string_unhex by simp
qed

text \<open>The four bytes of a nonce.\<close>

theorem hex_roundtrip_witness:
  "\<exists>s. toHex [0xde, 0xad, 0xbe, 0xef] = Some s \<and> fromHex (Some s) (length s) = [0xde, 0xad, 0xbe, 0xef]"
proof -
  have "length [0xde, 0xad, 0xbe, 0xef :: u8] < 2 ^ 62" by simp
  then show ?thesis using hex_roundtrip [of "[0xde, 0xad, 0xbe, 0xef]"] by blast
qed

end
