(* ===== verification/Job.thy ===== *)
theory Job
  imports Algorithm Hex_Codec
begin

text \<open>
  Mining jobs, \<open>base/net/stratum/Job.h\<close> and \<open>Job.cpp\<close> as the proxy builds them. A job keeps its hashing
  blob both as bytes and as the text received from the pool, its target as a 64-bit number and as the
  text sent to miners, and the template fields of daemon jobs.

  Buffers of fixed size are byte lists of that length; \<open>m_rawBlob\<close> and \<open>m_rawTarget\<close> are zero-filled
  character arrays, represented by the characters before the terminating NUL. A division by zero, which
  terminates the program, is the outcome \<open>None\<close> of \<open>setTarget\<close>. Key derivation of \<open>setSpendSecretKey\<close>
  and the hashing of \<open>generateHashingBlob\<close> are not modelled.
\<close>

section \<open>Words and bytes\<close>

fun le_word :: "u8 list \<Rightarrow> u64" where
  "le_word [] = 0"
| "le_word (b # bs) = ucast b OR push_bit 8 (le_word bs)"

definition le_bytes :: "u64 \<Rightarrow> u8 list" where
  "le_bytes w = map (\<lambda>i. ucast (drop_bit (8 * i) w)) [0..<8]"

lemma length_le_bytes [simp]: "length (le_bytes w) = 8"
  by (simp add: le_bytes_def)

lemma bit_le_word:
  "bit (le_word bs) n \<longleftrightarrow> n < 64 \<and> n < 8 * length bs \<and> bit (bs ! (n div 8)) (n mod 8)"
proof (induction bs arbitrary: n)
  case (Cons b bs)
  show ?case
  proof (cases "n < 8")
    case True
    then show ?thesis by (simp add: bit_simps)
  next
    case False
    then obtain m where "n = m + 8" by (metis add.commute le_add_diff_inverse not_less)
    moreover have "\<not> bit b (m + 8)" by (rule notI) (drule bit_imp_le_length, simp)
    moreover have "(m + 8) div 8 = Suc (m div 8)" by simp
    ultimately show ?thesis using Cons [of m] by (auto simp: bit_simps)
  qed
qed simp

lemma le_word_le_bytes [simp]: "le_word (le_bytes w) = w"
proof (rule bit_eqI)
  fix n :: nat
  have eq: "8 * (n div 8) + n mod 8 = n" by simp
  show "bit (le_word (le_bytes w)) n = bit w n"
  proof (cases "n < 64")
    case True
    then have "n div 8 < 8" by simp
    then have "le_bytes w ! (n div 8) = ucast (drop_bit (8 * (n div 8)) w)" by (simp add: le_bytes_def)
    then have "bit (le_bytes w ! (n div 8)) (n mod 8) = bit w n" using eq by (simp add: bit_simps)
    with True show ?thesis by (simp add: bit_le_word)
  qed (auto simp: bit_le_word dest: bit_imp_le_length)
qed

text \<open>\<open>memcpy\<close> into a buffer at an offset.\<close>

definition blit :: "'a list \<Rightarrow> nat \<Rightarrow> 'a list \<Rightarrow> 'a list" where
  "blit buf off src = take off buf @ src @ drop (off + length src) buf"

lemma length_blit: "off + length src \<le> length buf \<Longrightarrow> length (blit buf off src) = length buf"
  by (simp add: blit_def)

text \<open>\<open>Cvt::fromHex\<close> into an existing buffer: bytes decoded before a failure stay written.\<close>

definition fromHex_into :: "u8 list \<Rightarrow> string \<Rightarrow> nat \<Rightarrow> bool \<times> u8 list" where
  "fromHex_into buf s n =
     (if n = 0 then (False, buf)
      else (case cvt_hex2bin (length buf) (c_chars n s) of
              (ret, bin) \<Rightarrow> (ret = 0, blit buf 0 bin)))"

lemma unhex_all_hex: "even (length s) \<Longrightarrow> (\<exists>bs. unhex s = Some bs) \<longleftrightarrow> list_all is_hex s"
  by (induction s rule: unhex.induct) auto

text \<open>\<open>strtoull(s, nullptr, 16)\<close> of the C library.\<close>

definition is_space :: "char \<Rightarrow> bool" where
  "is_space c = (let n = of_char c :: nat in n = 32 \<or> 9 \<le> n \<and> n \<le> 13)"

definition hex_value :: "string \<Rightarrow> nat" where
  "hex_value ds = foldl (\<lambda>a c. 16 * a + nat (hexValue c)) 0 ds"

definition strtoull16 :: "string \<Rightarrow> u64" where
  "strtoull16 s =
     (let s = dropWhile is_space s;
          neg = (s \<noteq> [] \<and> hd s = CHR ''-'');
          s = (if s \<noteq> [] \<and> (hd s = CHR ''-'' \<or> hd s = CHR ''+'') then tl s else s);
          s = (if 3 \<le> length s \<and> s ! 0 = CHR ''0'' \<and> to_lower (s ! 1) = CHR ''x'' \<and> is_hex (s ! 2)
               then drop 2 s else s);
          v = hex_value (takeWhile is_hex s)
      in if 2 ^ 64 \<le> v then -1 else if neg then - of_nat v else of_nat v)"

section \<open>Data\<close>

definition kMaxBlobSize :: nat where "kMaxBlobSize = 408"
definition kMaxSeedSize :: nat where "kMaxSeedSize = 32"

record job =
  j_algorithm :: algo
  j_nicehash :: bool
  j_seed :: "u8 list"
  j_size :: nat
  j_clientId :: cstr
  j_extraNonce :: cstr
  j_id :: cstr
  j_poolWallet :: cstr
  j_backend :: u32
  j_diff :: u64
  j_height :: u64
  j_target :: u64
  j_blob :: "u8 list"
  j_index :: u8
  j_rawBlob :: string
  j_rawTarget :: string
  j_rawSeedHash :: cstr
  j_rawSigKey :: cstr
  j_templateEntropy :: cstr
  j_templatePrevHash :: cstr
  j_templateFetchedMs :: u64
  j_templateGeneration :: u64
  j_templateSourceId :: u64
  j_spendSecretKey :: "u8 list"
  j_viewSecretKey :: "u8 list"
  j_spendPublicKey :: "u8 list"
  j_viewPublicKey :: "u8 list"
  j_minerTxPrefix :: "u8 list"
  j_minerTxEphPubKeyOffset :: nat
  j_minerTxPubKeyOffset :: nat
  j_minerTxExtraNonceOffset :: nat
  j_minerTxExtraNonceSize :: nat
  j_minerTxMerkleTreeBranch :: "u8 list"
  j_minerTxMerkleTreePath :: u32
  j_hasViewTag :: bool
  j_hasMinerSignature :: bool

definition empty_job :: job where
  "empty_job =
     \<lparr>j_algorithm = ALGO_INVALID, j_nicehash = False, j_seed = [], j_size = 0, j_clientId = None,
      j_extraNonce = None, j_id = None, j_poolWallet = None, j_backend = 0, j_diff = 0, j_height = 0,
      j_target = 0, j_blob = replicate kMaxBlobSize 0, j_index = 0, j_rawBlob = [], j_rawTarget = [],
      j_rawSeedHash = None, j_rawSigKey = None, j_templateEntropy = None, j_templatePrevHash = None,
      j_templateFetchedMs = 0, j_templateGeneration = 0, j_templateSourceId = 0,
      j_spendSecretKey = replicate 32 0, j_viewSecretKey = replicate 32 0,
      j_spendPublicKey = replicate 32 0, j_viewPublicKey = replicate 32 0, j_minerTxPrefix = [],
      j_minerTxEphPubKeyOffset = 0, j_minerTxPubKeyOffset = 0, j_minerTxExtraNonceOffset = 0,
      j_minerTxExtraNonceSize = 0, j_minerTxMerkleTreeBranch = [], j_minerTxMerkleTreePath = 0,
      j_hasViewTag = False, j_hasMinerSignature = False\<rparr>"

definition new_job :: "bool \<Rightarrow> algo \<Rightarrow> cstr \<Rightarrow> job" where
  "new_job nicehash a clientId =
     empty_job\<lparr>j_algorithm := a, j_nicehash := nicehash, j_clientId := clientId\<rparr>"

section \<open>Reading a job\<close>

definition toDiff :: "u64 \<Rightarrow> u64" where
  "toDiff target = (if target \<noteq> 0 then 0xFFFFFFFFFFFFFFFF div target else 0)"

definition nonceOffset :: "job \<Rightarrow> nat" where
  "nonceOffset j =
     (if algo_family (j_algorithm j) = FAM_KAWPOW then 32
      else if algo_family (j_algorithm j) = FAM_GHOSTRIDER then 76
      else if j_algorithm j = RX_YADA then 147 else 39)"

definition nonceSize :: "job \<Rightarrow> nat" where
  "nonceSize j = (if algo_family (j_algorithm j) = FAM_KAWPOW then 8 else 4)"

definition nonceMask :: "job \<Rightarrow> u64" where
  "nonceMask j =
     (if j_nicehash j then 0xFFFFFF
      else if nonceSize j = 8 then drop_bit (str_size (j_extraNonce j) * 4) (-1)
      else 0xFFFFFFFF)"

definition job_isValid :: "job \<Rightarrow> bool" where
  "job_isValid j \<longleftrightarrow> (0 < j_size j \<and> 0 < j_diff j) \<or> \<not> str_is_empty (j_poolWallet j)"

definition fixedByte :: "job \<Rightarrow> u8" where
  "fixedByte j = j_blob j ! 42"

definition isEqualBlob :: "job \<Rightarrow> job \<Rightarrow> bool" where
  "isEqualBlob a b \<longleftrightarrow> j_size a = j_size b \<and> take (j_size a) (j_blob a) = take (j_size a) (j_blob b)"

definition job_isEqual :: "job \<Rightarrow> job \<Rightarrow> bool" where
  "job_isEqual a b \<longleftrightarrow>
     j_id a = j_id b \<and> j_clientId a = j_clientId b \<and> isEqualBlob a b \<and> j_target a = j_target b"

text \<open>The varint loop of \<open>getNumTransactions\<close>, with \<open>k\<close> the shift.\<close>

fun varint_loop :: "u32 \<Rightarrow> nat \<Rightarrow> u8 list \<Rightarrow> u32" where
  "varint_loop acc k [] = acc"
| "varint_loop acc k (b # bs) =
     (let acc' = acc OR push_bit k (ucast (b AND 0x7F))
      in if b AND 0x80 = 0 then acc' else varint_loop acc' (k + 7) bs)"

definition getNumTransactions :: "job \<Rightarrow> u32" where
  "getNumTransactions j =
     (if \<not> (algo_isCN (j_algorithm j) \<or> algo_family (j_algorithm j) = FAM_RANDOM_X) then 0
      else
        let off = (if j_algorithm j = RX_WOW then 141 else 75)
        in if off < j_size j \<and> j_size j \<le> off + 4
           then varint_loop 0 0 (take (j_size j - off) (drop off (j_blob j))) else 0)"

section \<open>Filling a job\<close>

definition setId :: "cstr \<Rightarrow> job \<Rightarrow> bool \<times> job" where
  "setId i j = (i \<noteq> None, j\<lparr>j_id := i\<rparr>)"

definition job_reset :: "job \<Rightarrow> job" where
  "job_reset j = j\<lparr>j_size := 0, j_diff := 0\<rparr>"

definition setBlob :: "cstr \<Rightarrow> job \<Rightarrow> bool \<times> job" where
  "setBlob blob j =
     (case blob of None \<Rightarrow> (False, j)
      | Some s \<Rightarrow>
          if length s mod 2 \<noteq> 0 then (False, j)
          else
            let size = length s div 2; minSize = nonceOffset j + nonceSize j
            in if size < minSize \<or> kMaxBlobSize \<le> size then (False, j)
               else (case fromHex_into (j_blob j) s (size * 2) of
                       (False, buf) \<Rightarrow> (False, j\<lparr>j_blob := buf\<rparr>)
                     | (True, buf) \<Rightarrow>
                         (True, j\<lparr>j_blob := buf,
                            j_nicehash := (j_nicehash j \<or> le_word (take 4 (drop (nonceOffset j) buf)) \<noteq> 0),
                            j_rawBlob := s, j_size := size\<rparr>)))"

definition setSeedHash :: "cstr \<Rightarrow> job \<Rightarrow> bool \<times> job" where
  "setSeedHash hash j =
     (case hash of None \<Rightarrow> (False, j)
      | Some s \<Rightarrow>
          if length s \<noteq> kMaxSeedSize * 2 then (False, j)
          else let j' = j\<lparr>j_rawSeedHash := hash, j_seed := fromHex hash (kMaxSeedSize * 2)\<rparr>
               in (j_seed j' \<noteq> [], j'))"

text \<open>The lambda \<open>parse\<close> of \<open>setTarget\<close>.\<close>

definition parse_target :: "string \<Rightarrow> algo \<Rightarrow> u64 option" where
  "parse_target target a =
     (if a = RX_YADA then Some (strtoull16 target)
      else
        let raw = fromHex (Some target) (length target)
        in if length raw = 4
           then (let t = le_word raw
                 in if t = 0 then None else Some (0xFFFFFFFFFFFFFFFF div (0xFFFFFFFF div t)))
           else if length raw = 8 then Some (le_word raw)
           else Some 0)"

definition setTarget :: "cstr \<Rightarrow> job \<Rightarrow> (bool \<times> job) option" where
  "setTarget target j =
     (case target of None \<Rightarrow> Some (False, j)
      | Some s \<Rightarrow>
          if length s < 4 then Some (False, j)
          else (case parse_target s (j_algorithm j) of
                  None \<Rightarrow> None
                | Some t \<Rightarrow>
                    if t = 0 then Some (False, j\<lparr>j_target := t\<rparr>)
                    else
                      let j' = j\<lparr>j_target := t, j_diff := toDiff t\<rparr>
                      in if 24 \<le> length s then Some (False, j')
                         else Some (True, j'\<lparr>j_rawTarget := s\<rparr>)))"

definition setDiff :: "u64 \<Rightarrow> job \<Rightarrow> job" where
  "setDiff d j =
     (let t = toDiff d
      in j\<lparr>j_diff := d, j_target := t,
           j_rawTarget := (case cvt_bin2hex 24 (le_bytes t) of None \<Rightarrow> j_rawTarget j | Some s \<Rightarrow> s)\<rparr>)"

definition setSigKey :: "cstr \<Rightarrow> job \<Rightarrow> job" where
  "setSigKey key j =
     (case key of None \<Rightarrow> j
      | Some s \<Rightarrow> if length s \<noteq> 64 * 2 then j else j\<lparr>j_rawSigKey := key\<rparr>)"

definition setTemplateMetadata :: "u64 \<Rightarrow> u64 \<Rightarrow> u64 \<Rightarrow> cstr \<Rightarrow> cstr \<Rightarrow> job \<Rightarrow> job" where
  "setTemplateMetadata sourceId generation fetchedMs entropy prevHash j =
     j\<lparr>j_templateSourceId := sourceId, j_templateGeneration := generation,
       j_templateFetchedMs := fetchedMs, j_templateEntropy := entropy, j_templatePrevHash := prevHash\<rparr>"

definition setMinerTx :: "u8 list \<Rightarrow> nat \<Rightarrow> nat \<Rightarrow> nat \<Rightarrow> nat \<Rightarrow> u8 list \<Rightarrow> u32 \<Rightarrow> bool \<Rightarrow> job \<Rightarrow> job" where
  "setMinerTx prefix eph pub xoff xsize branch path viewTag j =
     j\<lparr>j_minerTxPrefix := prefix, j_minerTxEphPubKeyOffset := eph, j_minerTxPubKeyOffset := pub,
       j_minerTxExtraNonceOffset := xoff, j_minerTxExtraNonceSize := xsize,
       j_minerTxMerkleTreeBranch := branch, j_minerTxMerkleTreePath := path, j_hasViewTag := viewTag\<rparr>"

definition setViewTagInMinerTx :: "u8 \<Rightarrow> job \<Rightarrow> job" where
  "setViewTagInMinerTx tag j =
     j\<lparr>j_minerTxPrefix := blit (j_minerTxPrefix j) (j_minerTxEphPubKeyOffset j + 32) [tag]\<rparr>"

definition setExtraNonceInMinerTx :: "u32 \<Rightarrow> job \<Rightarrow> job" where
  "setExtraNonceInMinerTx nonce j =
     j\<lparr>j_minerTxPrefix := blit (j_minerTxPrefix j) (j_minerTxExtraNonceOffset j)
         (take (min (j_minerTxExtraNonceSize j) 4) (le_bytes (ucast nonce)))\<rparr>"

end
