(* ===== verification/Job_Props.thy ===== *)
theory Job_Props
  imports Job
begin

text \<open>
  Properties of jobs: what the setters accept and store, that no setter overruns the buffers of a job,
  that the target sent to miners is the one the proxy checks against, and the one target text that makes
  \<open>setTarget\<close> divide by zero.
\<close>

section \<open>Decoding into a buffer\<close>

lemma hex2bin_loop_bound:
  "hex2bin_loop m bin acc st hex = (r, b, st', rest) \<Longrightarrow> length bin \<le> m \<Longrightarrow> length b \<le> m"
  by (induction m bin acc st hex rule: hex2bin_loop.induct) (auto simp: Let_def split: if_splits)

lemma cvt_hex2bin_bound: "cvt_hex2bin m hex = (r, b) \<Longrightarrow> length b \<le> m"
  by (auto simp: cvt_hex2bin_def split: prod.splits if_splits dest: hex2bin_loop_bound)

lemma fromHex_into_True:
  "fromHex_into buf s n = (True, buf') \<longleftrightarrow>
     n \<noteq> 0 \<and> n \<le> length s \<and> (\<exists>bs. unhex (take n s) = Some bs \<and> length bs \<le> length buf \<and> buf' = blit buf 0 bs)"
proof -
  have "fromHex_into buf s n = (True, buf') \<longleftrightarrow>
      (\<exists>bs. fromHex_raw (length buf) (Some s) n = Some bs \<and> buf' = blit buf 0 bs)"
    by (auto simp: fromHex_into_def fromHex_raw_def split: prod.splits)
  then show ?thesis by (auto simp: fromHex_raw_spec)
qed

lemma fromHex_into_length: "fromHex_into buf s n = (ok, buf') \<Longrightarrow> length buf' = length buf"
  by (auto simp: fromHex_into_def length_blit split: prod.splits if_splits dest: cvt_hex2bin_bound)

section \<open>Buffer bounds\<close>

definition job_ok :: "job \<Rightarrow> bool" where
  "job_ok j \<longleftrightarrow> length (j_blob j) = kMaxBlobSize \<and> j_size j < kMaxBlobSize \<and>
     length (j_rawBlob j) < kMaxBlobSize * 2 + 8 \<and> length (j_rawTarget j) < 24"

datatype job_set =
    Set_id cstr | Set_blob cstr | Set_seed cstr | Set_target cstr | Set_diff u64 | Set_sig cstr
  | Set_algorithm algo | Set_height u64 | Set_extra cstr | Set_wallet cstr | Set_client cstr
  | Set_reset

text \<open>A setter called on a job; \<open>None\<close> is the division by zero.\<close>

fun job_apply :: "job_set \<Rightarrow> job \<Rightarrow> job option" where
  "job_apply (Set_id s) j = Some (snd (setId s j))"
| "job_apply (Set_blob s) j = Some (snd (setBlob s j))"
| "job_apply (Set_seed s) j = Some (snd (setSeedHash s j))"
| "job_apply (Set_target s) j = map_option snd (setTarget s j)"
| "job_apply (Set_diff d) j = Some (setDiff d j)"
| "job_apply (Set_sig s) j = Some (setSigKey s j)"
| "job_apply (Set_algorithm a) j = Some (j\<lparr>j_algorithm := a\<rparr>)"
| "job_apply (Set_height h) j = Some (j\<lparr>j_height := h\<rparr>)"
| "job_apply (Set_extra s) j = Some (j\<lparr>j_extraNonce := s\<rparr>)"
| "job_apply (Set_wallet s) j = Some (j\<lparr>j_poolWallet := s\<rparr>)"
| "job_apply (Set_client s) j = Some (j\<lparr>j_clientId := s\<rparr>)"
| "job_apply Set_reset j = Some (job_reset j)"

fun job_build :: "job_set list \<Rightarrow> job \<Rightarrow> job option" where
  "job_build [] j = Some j"
| "job_build (s # ss) j = (case job_apply s j of None \<Rightarrow> None | Some j' \<Rightarrow> job_build ss j')"

lemma job_ok_new: "job_ok (new_job nicehash a clientId)"
  by (simp add: job_ok_def new_job_def empty_job_def kMaxBlobSize_def)

lemma job_ok_setBlob: "job_ok j \<Longrightarrow> job_ok (snd (setBlob s j))"
  by (auto simp: setBlob_def job_ok_def Let_def split: option.splits prod.splits bool.splits
      dest: fromHex_into_length)

lemma length_hex_target: "cvt_bin2hex 24 (le_bytes t) = Some (hex_string (le_bytes t))"
  by (simp add: cvt_bin2hex_def bin2hex_loop_eq)

lemma job_ok_setDiff: "job_ok j \<Longrightarrow> job_ok (setDiff d j)"
  by (simp add: setDiff_def job_ok_def Let_def length_hex_target)

lemma job_ok_setTarget: "job_ok j \<Longrightarrow> setTarget s j = Some (ok, j') \<Longrightarrow> job_ok j'"
  by (auto simp: setTarget_def job_ok_def Let_def split: option.splits if_splits)

lemma job_ok_apply: "job_ok j \<Longrightarrow> job_apply s j = Some j' \<Longrightarrow> job_ok j'"
proof (cases s)
  case (Set_target t)
  assume "job_ok j" and "job_apply s j = Some j'"
  then obtain ok where "setTarget t j = Some (ok, j')" by (auto simp: Set_target)
  with \<open>job_ok j\<close> show ?thesis by (rule job_ok_setTarget)
qed (auto simp: job_ok_setBlob job_ok_setDiff,
  auto simp: job_ok_def setId_def setSeedHash_def setSigKey_def job_reset_def kMaxBlobSize_def Let_def
    split: option.splits)

text \<open>C33: whatever sequence of setters runs on a fresh job, with whatever texts from the network, the
  buffers of the job keep their sizes: the blob has 408 bytes and fewer than 408 of them are used, and
  both raw texts with their terminating NUL fit their arrays.\<close>

theorem job_buffers:
  "case job_build ss (new_job nicehash a clientId) of None \<Rightarrow> True
   | Some j \<Rightarrow> length (j_blob j) = 408 \<and> j_size j < 408 \<and>
       length (j_rawBlob j) < 824 \<and> length (j_rawTarget j) < 24"
proof -
  have "job_ok j \<Longrightarrow> job_build ss j = Some j' \<Longrightarrow> job_ok j'" for j j'
    by (induction ss arbitrary: j) (auto split: option.splits dest: job_ok_apply)
  from this [OF job_ok_new] show ?thesis
    by (auto simp: job_ok_def kMaxBlobSize_def split: option.split)
qed

section \<open>The blob\<close>

text \<open>\<open>setBlob\<close> accepts exactly the even-length hexadecimal texts that reach past the nonce and fit the
  buffer. On success the blob starts with the decoded bytes, the text is kept, the size is that of the
  bytes, and a nonzero nonce marks the job as NiceHash, which is never unmarked; on failure nothing but
  bytes of the blob buffer can differ.\<close>

theorem setBlob_spec:
  assumes ok: "job_ok j"
  shows "case setBlob (Some s) j of (r, j') \<Rightarrow>
    r = (even (length s) \<and> nonceOffset j + nonceSize j \<le> length s div 2 \<and> length s div 2 < kMaxBlobSize \<and>
         list_all is_hex s) \<and>
    (if r then unhex s = Some (take (j_size j') (j_blob j')) \<and> j_size j' = length s div 2 \<and> j_rawBlob j' = s \<and>
       j_nicehash j' = (j_nicehash j \<or> le_word (take 4 (drop (nonceOffset j) (j_blob j'))) \<noteq> 0) \<and>
       j' = j\<lparr>j_blob := j_blob j', j_nicehash := j_nicehash j', j_rawBlob := s, j_size := j_size j'\<rparr>
     else j' = j\<lparr>j_blob := j_blob j'\<rparr>)"
proof -
  have len: "length (j_blob j) = kMaxBlobSize" using ok by (simp add: job_ok_def)
  have pos: "0 < nonceOffset j" by (simp add: nonceOffset_def)
  show ?thesis
  proof (cases "even (length s) \<and> nonceOffset j + nonceSize j \<le> length s div 2 \<and> length s div 2 < kMaxBlobSize")
    case False
    then show ?thesis by (auto simp: setBlob_def Let_def)
  next
    case fits: True
    then have n: "length s div 2 * 2 = length s" "length s \<noteq> 0" using pos by (auto simp: nonceOffset_def)
    show ?thesis
    proof (cases "unhex s")
      case None
      then have "\<not> list_all is_hex s" using unhex_all_hex fits by force
      moreover have "fst (fromHex_into (j_blob j) s (length s)) = False"
        using None fromHex_into_True [of "j_blob j" s "length s"]
        by (cases "fromHex_into (j_blob j) s (length s)") auto
      ultimately show ?thesis
        using fits n by (cases "fromHex_into (j_blob j) s (length s)") (auto simp: setBlob_def Let_def)
    next
      case (Some bs)
      have lbs: "length s div 2 = length bs" using unhex_length [OF Some] by simp
      then have "fromHex_into (j_blob j) s (length s) = (True, blit (j_blob j) 0 bs)"
        using Some n fits len by (simp add: fromHex_into_True)
      moreover have "list_all is_hex s" using unhex_digits [OF Some] .
      ultimately show ?thesis
        using fits n Some lbs by (simp add: setBlob_def Let_def blit_def)
    qed
  qed
qed

text \<open>The zero blob of 76 bytes on a CryptoNight job.\<close>

theorem setBlob_spec_witness:
  "fst (setBlob (Some (replicate 152 CHR ''0'')) (new_job False CN_0 None))"
proof -
  have "list_all is_hex (replicate 152 CHR ''0'')"
    by (simp add: list_all_iff is_hex_def hexValue_def Let_def)
  moreover have "nonceOffset (new_job False CN_0 None) = 39 \<and> nonceSize (new_job False CN_0 None) = 4"
    by code_simp
  ultimately show ?thesis
    using setBlob_spec [OF job_ok_new, of "replicate 152 CHR ''0''" False CN_0 None]
    by (simp add: kMaxBlobSize_def split: prod.splits)
qed

section \<open>Targets\<close>

lemma word_div_le_max: "x \<noteq> 0 \<Longrightarrow> (0xFFFFFFFFFFFFFFFF :: u64) div x \<noteq> 0"
proof -
  assume "x \<noteq> 0"
  then have "0 < unat x" by (simp add: unat_gt_0)
  moreover have "unat x < 2 ^ LENGTH(64)" by (rule unsigned_less)
  then have "unat x \<le> unat (0xFFFFFFFFFFFFFFFF :: u64)" by simp
  ultimately have "0 < unat (0xFFFFFFFFFFFFFFFF div x)"
    by (simp only: unat_div div_greater_zero_iff)
  then show ?thesis by (simp add: unat_gt_0)
qed

lemma toDiff_toDiff:
  assumes "d \<noteq> 0"
  shows "d \<le> toDiff (toDiff d)"
proof -
  let ?M = "unat (0xFFFFFFFFFFFFFFFF :: u64)"
  have nz: "toDiff d \<noteq> 0" using assms by (simp add: toDiff_def word_div_le_max)
  have "unat d * (?M div unat d) \<le> ?M" by simp
  moreover have "0 < unat (0xFFFFFFFFFFFFFFFF div d)"
    using nz assms by (simp only: unat_gt_0) (simp add: toDiff_def)
  then have "0 < ?M div unat d" by (simp only: unat_div)
  ultimately have "unat d \<le> ?M div (?M div unat d)"
    by (simp add: less_eq_div_iff_mult_less_eq)
  then show ?thesis using assms nz by (simp add: toDiff_def word_le_nat_alt unat_div)
qed

text \<open>C34: the target a custom difficulty sends to a miner is the one its shares are measured with: the text
  written by \<open>setDiff\<close> is 16 digits and, read back by \<open>setTarget\<close> on any job that is not of the
  decimal-target algorithm, gives the same target, and a difficulty that is not smaller.\<close>

theorem target_roundtrip:
  assumes "d \<noteq> 0" and "j_algorithm j' \<noteq> RX_YADA"
  shows "length (j_rawTarget (setDiff d j)) = 16 \<and> d \<le> toDiff (toDiff d) \<and>
    setTarget (Some (j_rawTarget (setDiff d j))) j' =
      Some (True, j'\<lparr>j_target := j_target (setDiff d j), j_diff := toDiff (toDiff d),
                     j_rawTarget := j_rawTarget (setDiff d j)\<rparr>)"
proof -
  have nz: "toDiff d \<noteq> 0" using assms(1) by (simp add: toDiff_def word_div_le_max)
  let ?s = "hex_string (le_bytes (toDiff d))"
  have raw: "j_rawTarget (setDiff d j) = ?s" by (simp add: setDiff_def Let_def length_hex_target)
  have "fromHex_raw 8 (Some ?s) 16 = Some (le_bytes (toDiff d))"
    by (simp add: fromHex_raw_spec unhex_hex_string)
  then have "parse_target ?s (j_algorithm j') = Some (toDiff d)"
    using assms(2) by (simp add: parse_target_def fromHex_def)
  then show ?thesis
    using nz toDiff_toDiff [OF assms(1)]
    by (simp add: raw setTarget_def) (simp add: setDiff_def Let_def)
qed

theorem target_roundtrip_witness:
  "j_target (snd (the (setTarget (Some (j_rawTarget (setDiff 100000 empty_job))) empty_job))) =
   j_target (setDiff 100000 empty_job)"
proof -
  have "j_algorithm empty_job \<noteq> RX_YADA" by (simp add: empty_job_def algo_ids)
  from target_roundtrip [OF _ this, of 100000 empty_job] show ?thesis by simp
qed

lemma shifted_byte_0:
  assumes "push_bit k (ucast (b :: u8)) = (0 :: u64)" and "k \<le> 56"
  shows "b = 0"
proof (rule bit_eqI)
  fix n :: nat
  assume "possible_bit TYPE(u8) n"
  then have "n < 8" by simp
  moreover have "bit (push_bit k (ucast b) :: u64) (n + k) = False" by (simp only: assms(1) bit_0_eq) simp
  ultimately show "bit b n = bit 0 n" using assms(2) by (simp add: bit_simps)
qed

text \<open>\<open>setTarget\<close> fails to return on exactly one value: eight hexadecimal zeros, whose compact target is
  a divisor of zero.\<close>

theorem setTarget_traps:
  "setTarget t j = None \<longleftrightarrow>
     (\<exists>s. t = Some s \<and> j_algorithm j \<noteq> RX_YADA \<and> unhex s = Some [0, 0, 0, 0])"
proof (cases t)
  case (Some s)
  have four: "length bs = 4 \<and> le_word bs = 0 \<longleftrightarrow> bs = [0, 0, 0, 0]" for bs
  proof
    assume "length bs = 4 \<and> le_word bs = 0"
    then obtain a b c d where bs: "bs = [a, b, c, d]" and z: "le_word [a, b, c, d] = 0"
      by (auto simp: length_Suc_conv eval_nat_numeral)
    have "push_bit 0 (ucast a) = (0 :: u64)" "push_bit 8 (ucast b) = (0 :: u64)"
      "push_bit 16 (ucast c) = (0 :: u64)" "push_bit 24 (ucast d) = (0 :: u64)"
      using z by (auto simp: or_eq_0_iff)
    then have "a = 0 \<and> b = 0 \<and> c = 0 \<and> d = 0" by (auto dest: shifted_byte_0 shifted_byte_0 [of 0, simplified])
    then show "bs = [0, 0, 0, 0]" by (simp add: bs)
  qed simp
  show ?thesis
  proof (cases "length s < 4 \<or> j_algorithm j = RX_YADA")
    case True
    then show ?thesis
      using unhex_length [of s "[0, 0, 0, 0]"]
      by (auto simp: Some setTarget_def parse_target_def Let_def)
  next
    case False
    then have "setTarget t j = None \<longleftrightarrow> parse_target s (j_algorithm j) = None"
      by (auto simp: Some setTarget_def Let_def split: option.splits)
    also have "\<dots> \<longleftrightarrow> fromHex (Some s) (length s) = [0, 0, 0, 0]"
      using False four [of "fromHex (Some s) (length s)"] by (auto simp: parse_target_def Let_def)
    also have "\<dots> \<longleftrightarrow> unhex s = Some [0, 0, 0, 0]"
      using fromHex_raw_spec [of "length s div 2" s "length s" "[0, 0, 0, 0]"] unhex_length [of s "[0, 0, 0, 0]"]
      by (auto simp: fromHex_def split: option.splits)
    finally show ?thesis using False Some by simp
  qed
qed (simp add: setTarget_def)

end
