(* ===== verification/Job_Result.thy ===== *)
theory Job_Result
  imports Job
begin

text \<open>
  Submitted shares, \<open>net/JobResult.cpp\<close>, and the record a pool client keeps of a forwarded share,
  \<open>base/net/stratum/SubmitResult.h\<close>. The difficulty a share reaches is computed from the last eight
  bytes of its hash; the NiceHash check compares the last byte of the nonce with the fixed byte of the
  connection.
\<close>

record job_result =
  q_algorithm :: algo
  q_nonce :: cstr
  q_result :: cstr
  q_sig :: cstr
  q_sig_data :: cstr
  q_commitment :: cstr
  q_view_tag :: u8
  q_id :: int
  q_extra_nonce :: int
  q_jobId :: cstr
  q_templateEntropy :: cstr
  q_shareId :: u64
  q_diff :: u64
  q_height :: u64
  q_minerDiff :: u64
  q_networkDiff :: u64
  q_templateGeneration :: u64
  q_templateSourceId :: u64
  q_actualDiff :: u64

text \<open>The value the constructor leaves in \<open>m_actualDiff\<close>.\<close>

definition actual_diff :: "cstr \<Rightarrow> u64" where
  "actual_diff result =
     (case result of None \<Rightarrow> 0
      | Some r \<Rightarrow>
          if length r = 64
          then (case fromHex_into (replicate 8 0) (drop 48 r) 16 of
                  (False, _) \<Rightarrow> 0
                | (True, bytes) \<Rightarrow>
                    let target = le_word bytes in if target = 0 then -1 else toDiff target)
          else 0)"

definition new_result :: "int \<Rightarrow> cstr \<Rightarrow> cstr \<Rightarrow> cstr \<Rightarrow> algo \<Rightarrow> cstr \<Rightarrow> cstr \<Rightarrow> cstr \<Rightarrow> u8 \<Rightarrow> int
    \<Rightarrow> job_result" where
  "new_result i jobId nonce result a sig sig_data commitment view_tag extra_nonce =
     \<lparr>q_algorithm = a, q_nonce = nonce, q_result = result, q_sig = sig, q_sig_data = sig_data,
      q_commitment = commitment, q_view_tag = view_tag, q_id = i, q_extra_nonce = extra_nonce,
      q_jobId = jobId, q_templateEntropy = None, q_shareId = 0, q_diff = 0, q_height = 0,
      q_minerDiff = 0, q_networkDiff = 0, q_templateGeneration = 0, q_templateSourceId = 0,
      q_actualDiff = actual_diff result\<rparr>"

definition isCompatible :: "u8 \<Rightarrow> job_result \<Rightarrow> bool" where
  "isCompatible fb q =
     (case q_nonce q of None \<Rightarrow> False
      | Some n \<Rightarrow>
          (case fromHex_into (replicate 4 0) n 8 of
             (False, _) \<Rightarrow> False | (True, bytes) \<Rightarrow> bytes ! 3 = fb))"

definition result_isValid :: "job_result \<Rightarrow> bool" where
  "result_isValid q =
     (if q_nonce q = None \<or> q_actualDiff q = 0 then False
      else str_size (q_nonce q) = 8 \<and> \<not> str_is_null (q_jobId q))"

datatype submit_outcome = Unspecified | OutcomeAccepted | OutcomeRejected | Ambiguous

record submit_result =
  sr_reqId :: int
  sr_seq :: int
  sr_backend :: u32
  sr_shareId :: u64
  sr_actualDiff :: u64
  sr_diff :: u64
  sr_elapsed :: u64
  sr_height :: u64
  sr_entropy :: cstr
  sr_jobId :: cstr
  sr_templateGeneration :: u64
  sr_templateSourceId :: u64
  sr_minerDiff :: u64
  sr_outcome :: submit_outcome
  sr_start :: u64

definition submit_done :: "u64 \<Rightarrow> submit_result \<Rightarrow> submit_result" where
  "submit_done now r = r\<lparr>sr_elapsed := now - sr_start r\<rparr>"

definition submit_isAmbiguous :: "submit_result \<Rightarrow> bool" where
  "submit_isAmbiguous r = (sr_outcome r = Ambiguous)"

section \<open>When a share is well formed\<close>

lemma fromHex_into_exact:
  "length buf * 2 = n \<Longrightarrow> fromHex_into buf s n = (True, bs) \<longleftrightarrow>
     n \<noteq> 0 \<and> n \<le> length s \<and> unhex (take n s) = Some bs"
proof -
  assume n: "length buf * 2 = n"
  have "fromHex_into buf s n = (True, bs) \<longleftrightarrow>
      (\<exists>cs. fromHex_raw (length buf) (Some s) n = Some cs \<and> bs = blit buf 0 cs)"
    by (auto simp: fromHex_into_def fromHex_raw_def split: prod.splits)
  moreover have "blit buf 0 cs = cs" if "unhex (take n s) = Some cs" "n \<le> length s" for cs
    using that n unhex_length [OF that(1)] by (simp add: blit_def)
  ultimately show ?thesis
    using n unhex_length [of "take n s" bs] by (auto simp: fromHex_raw_spec)
qed

lemma toDiff_nz: "t \<noteq> 0 \<Longrightarrow> toDiff t \<noteq> 0"
proof -
  assume "t \<noteq> 0"
  then have "0 < unat t" by (simp add: unat_gt_0)
  moreover have "unat t < 2 ^ LENGTH(64)" by (rule unsigned_less)
  then have "unat t \<le> unat (0xFFFFFFFFFFFFFFFF :: u64)" by simp
  ultimately have "0 < unat (0xFFFFFFFFFFFFFFFF div t)" by (simp only: unat_div div_greater_zero_iff)
  with \<open>t \<noteq> 0\<close> show ?thesis by (simp only: unat_gt_0) (simp add: toDiff_def)
qed

lemma actual_diff_nz:
  "actual_diff r \<noteq> 0 \<longleftrightarrow> (\<exists>h. r = Some h \<and> length h = 64 \<and> (\<exists>bs. unhex (drop 48 h) = Some bs))"
proof (cases "\<exists>h. r = Some h \<and> length h = 64")
  case True
  then obtain h where h: "r = Some h" "length h = 64" by blast
  show ?thesis
  proof (cases "fromHex_into (replicate 8 0) (drop 48 h) 16")
    case (Pair ok bytes)
    have "ok \<longleftrightarrow> (\<exists>bs. unhex (drop 48 h) = Some bs)"
      using fromHex_into_exact [of "replicate 8 0" 16 "drop 48 h"] Pair h by (cases ok) auto
    then show ?thesis using Pair h by (cases ok) (auto simp: actual_diff_def Let_def toDiff_nz)
  qed
qed (auto simp: actual_diff_def split: option.splits)

text \<open>A freshly parsed share is valid exactly when it names a job, its nonce has eight characters and
  its hash has 64 characters of which the last 16 are hexadecimal digits; in particular the strongest
  hash, whose last eight bytes are zero, is valid and counts with the greatest difficulty.\<close>

theorem result_valid_iff:
  "(result_isValid (new_result i jobId nonce result a sig sd cm vt xn) \<longleftrightarrow>
     str_size nonce = 8 \<and> jobId \<noteq> None \<and>
     (\<exists>h bs. result = Some h \<and> length h = 64 \<and> unhex (drop 48 h) = Some bs)) \<and>
   actual_diff (Some (h48 @ replicate 16 CHR ''0'')) = (if length h48 = 48 then -1 else 0)"
proof
  show "result_isValid (new_result i jobId nonce result a sig sd cm vt xn) \<longleftrightarrow>
     str_size nonce = 8 \<and> jobId \<noteq> None \<and>
     (\<exists>h bs. result = Some h \<and> length h = 64 \<and> unhex (drop 48 h) = Some bs)"
    using actual_diff_nz [of result]
    by (auto simp: result_isValid_def new_result_def str_is_null_def str_size_def split: option.splits)
  have "unhex (replicate 16 CHR ''0'') = Some (replicate 8 0)" by code_simp
  then have "fromHex_into (replicate 8 0) (replicate 16 CHR ''0'') 16 = (True, replicate 8 0)"
    using fromHex_into_exact [of "replicate 8 0" 16 "replicate 16 CHR ''0''" "replicate 8 0"] by simp
  moreover have "le_word (replicate 8 0) = 0" by (simp add: numeral_eq_Suc)
  ultimately show "actual_diff (Some (h48 @ replicate 16 CHR ''0'')) = (if length h48 = 48 then -1 else 0)"
    by (simp add: actual_diff_def)
qed

lemma isCompatible_no:
  assumes n: "q_nonce q = Some n" and no: "\<And>bs. fromHex_into (replicate 4 0) n 8 \<noteq> (True, bs)"
  shows "\<not> isCompatible fb q"
proof -
  obtain ok bytes where p: "fromHex_into (replicate 4 0) n 8 = (ok, bytes)" by fastforce
  have "\<not> ok" using no [of bytes] p by (cases ok) simp_all
  then show ?thesis by (simp add: isCompatible_def n p)
qed

text \<open>The NiceHash check passes exactly when the nonce starts with eight hexadecimal digits of which
  the last two spell the fixed byte of the connection, in any letter case.\<close>

theorem isCompatible_iff:
  "isCompatible fb q \<longleftrightarrow>
     (\<exists>n. q_nonce q = Some n \<and> 8 \<le> length n \<and> list_all is_hex (take 8 n) \<and>
        map to_lower (take 2 (drop 6 n)) = hex_string [fb])"
proof (cases "\<exists>n. q_nonce q = Some n \<and> 8 \<le> length n")
  case True
  then obtain n where n: "q_nonce q = Some n" "8 \<le> length n" by blast
  show ?thesis
  proof (cases "unhex (take 8 n)")
    case None
    have "\<not> list_all is_hex (take 8 n)"
      using None n(2) unhex_all_hex [of "take 8 n"] by simp
    moreover have "fromHex_into (replicate 4 0) n 8 \<noteq> (True, bs)" for bs
      using None fromHex_into_exact [of "replicate 4 0" 8 n bs] by simp
    then have "\<not> isCompatible fb q"
      by (rule isCompatible_no [OF n(1)])
    ultimately show ?thesis using n by simp
  next
    case (Some bs)
    have len: "length bs = 4" using unhex_length [OF Some] n(2) by simp
    then obtain b0 b1 b2 b3 where bs: "bs = [b0, b1, b2, b3]" by (auto simp: length_Suc_conv eval_nat_numeral)
    have "fromHex_into (replicate 4 0) n 8 = (True, bs)"
      using Some n fromHex_into_exact [of "replicate 4 0" 8 n bs] by simp
    then have "isCompatible fb q \<longleftrightarrow> b3 = fb" by (simp add: isCompatible_def n bs)
    also have "\<dots> \<longleftrightarrow> hex_string [b3] = hex_string [fb]"
      by (metis list.inject option.inject unhex_hex_string)
    also have "hex_string [b3] = drop 6 (hex_string bs)" by (simp add: bs hex_string_def)
    also have "\<dots> = map to_lower (take 2 (drop 6 n))"
      by (simp add: hex_string_unhex [OF Some] drop_map drop_take)
    finally have "isCompatible fb q \<longleftrightarrow> map to_lower (take 2 (drop 6 n)) = hex_string [fb]" .
    then show ?thesis using n unhex_digits [OF Some] by simp
  qed
next
  case False
  show ?thesis
  proof (cases "q_nonce q")
    case (Some n)
    with False have short: "\<not> 8 \<le> length n" by blast
    then have "fromHex_into (replicate 4 0) n 8 \<noteq> (True, bs)" for bs
      using fromHex_into_exact [of "replicate 4 0" 8 n bs] by simp
    then have "\<not> isCompatible fb q"
      by (rule isCompatible_no [OF Some])
    then show ?thesis using Some short by simp
  qed (simp add: isCompatible_def)
qed

end
