(* ===== verification/Json.thy ===== *)
theory Json
  imports Prelude
begin

text \<open>
  JSON values as the parser delivers them and the accessors of \<open>base/io/json/Json.cpp\<close>: lookup of a
  member with a type test and a default. The parser and writer themselves are third-party code.
  Integers are the numbers without fraction or exponent; other numbers are a decimal mantissa and exponent. A C string read
  from a JSON string ends at the first NUL. \<open>convertOffset\<close> turns a byte offset into the line and column
  shown in error messages.
\<close>

datatype json =
    JNull
  | JBool bool
  | JInt int
  | JNum int int
  | JStr string
  | JArr "json list"
  | JObj "(string \<times> json) list"

fun find_member :: "json \<Rightarrow> string \<Rightarrow> json option" where
  "find_member (JObj ms) key = map_of ms key"
| "find_member _ key = None"

fun json_isEmpty :: "json \<Rightarrow> bool" where
  "json_isEmpty (JObj ms) = (ms = [])"
| "json_isEmpty _ = True"

definition NUL :: char where "NUL = char_of (0 :: nat)"

definition c_string :: "string \<Rightarrow> string" where
  "c_string s = takeWhile (\<lambda>c. c \<noteq> NUL) s"

definition getBool :: "json \<Rightarrow> string \<Rightarrow> bool \<Rightarrow> bool" where
  "getBool obj key dflt =
     (if json_isEmpty obj then dflt
      else case find_member obj key of Some (JBool b) \<Rightarrow> b | _ \<Rightarrow> dflt)"

definition getString :: "json \<Rightarrow> string \<Rightarrow> cstr \<Rightarrow> cstr" where
  "getString obj key dflt =
     (if json_isEmpty obj then dflt
      else case find_member obj key of Some (JStr s) \<Rightarrow> Some (c_string s) | _ \<Rightarrow> dflt)"

definition getArray :: "json \<Rightarrow> string \<Rightarrow> json" where
  "getArray obj key =
     (if json_isEmpty obj then JNull
      else case find_member obj key of Some (JArr xs) \<Rightarrow> JArr xs | _ \<Rightarrow> JNull)"

definition getObject :: "json \<Rightarrow> string \<Rightarrow> json" where
  "getObject obj key =
     (if json_isEmpty obj then JNull
      else case find_member obj key of Some (JObj ms) \<Rightarrow> JObj ms | _ \<Rightarrow> JNull)"

definition getValue :: "json \<Rightarrow> string \<Rightarrow> json" where
  "getValue obj key =
     (if json_isEmpty obj then JNull else case find_member obj key of Some v \<Rightarrow> v | None \<Rightarrow> JNull)"

text \<open>\<open>IsInt\<close>, \<open>IsInt64\<close>, \<open>IsUint\<close> and \<open>IsUint64\<close> test the range of an integer.\<close>

definition getInt :: "json \<Rightarrow> string \<Rightarrow> int \<Rightarrow> int" where
  "getInt obj key dflt =
     (if json_isEmpty obj then dflt
      else case find_member obj key of
             Some (JInt i) \<Rightarrow> if - (2 ^ 31) \<le> i \<and> i < 2 ^ 31 then i else dflt
           | _ \<Rightarrow> dflt)"

definition getInt64 :: "json \<Rightarrow> string \<Rightarrow> int \<Rightarrow> int" where
  "getInt64 obj key dflt =
     (if json_isEmpty obj then dflt
      else case find_member obj key of
             Some (JInt i) \<Rightarrow> if - (2 ^ 63) \<le> i \<and> i < 2 ^ 63 then i else dflt
           | _ \<Rightarrow> dflt)"

definition getUint64 :: "json \<Rightarrow> string \<Rightarrow> u64 \<Rightarrow> u64" where
  "getUint64 obj key dflt =
     (if json_isEmpty obj then dflt
      else case find_member obj key of
             Some (JInt i) \<Rightarrow> if 0 \<le> i \<and> i < 2 ^ 64 then of_int i else dflt
           | _ \<Rightarrow> dflt)"

definition getUint :: "json \<Rightarrow> string \<Rightarrow> u32 \<Rightarrow> u32" where
  "getUint obj key dflt =
     (if json_isEmpty obj then dflt
      else case find_member obj key of
             Some (JInt i) \<Rightarrow> if 0 \<le> i \<and> i < 2 ^ 32 then of_int i else dflt
           | _ \<Rightarrow> dflt)"

text \<open>The overload with a size limit: a longer string is cut, embedded NULs included.\<close>

definition getString_max :: "json \<Rightarrow> string \<Rightarrow> nat \<Rightarrow> cstr" where
  "getString_max obj key maxSize =
     (if json_isEmpty obj then None
      else case find_member obj key of
             Some (JStr s) \<Rightarrow>
               if maxSize = 0 \<or> length s \<le> maxSize then Some (c_string s) else Some (take maxSize s)
           | _ \<Rightarrow> None)"

section \<open>Positions in a file\<close>

fun split_lines :: "string \<Rightarrow> string list" where
  "split_lines [] = [[]]"
| "split_lines (c # cs) =
     (if c = CHR 0x0A then [] # split_lines cs
      else case split_lines cs of [] \<Rightarrow> [[c]] | l # ls \<Rightarrow> (c # l) # ls)"

text \<open>The loop of \<open>convertOffset\<close>: \<open>k\<close> bytes and \<open>line\<close> lines have been read, \<open>prev\<close> is the last line.\<close>

fun convertOffset_loop :: "nat \<Rightarrow> nat \<Rightarrow> nat \<Rightarrow> string \<Rightarrow> string list
    \<Rightarrow> (nat \<times> nat \<times> string list) option" where
  "convertOffset_loop offset k line prev [] = None"
| "convertOffset_loop offset k line prev (t # ts) =
     (let k' = k + length t + 1; line' = line + 1
      in if offset < k'
         then Some (line', offset + length t + 1 + 1 - k', (if prev = [] then [] else [prev]) @ [t])
         else convertOffset_loop offset k' line' t ts)"

definition convertOffset :: "string \<Rightarrow> nat \<Rightarrow> (nat \<times> nat \<times> string list) option" where
  "convertOffset text offset = convertOffset_loop offset 0 0 [] (split_lines text)"

lemma split_lines_nonempty: "split_lines s \<noteq> []"
  by (induction s) (auto split: list.splits)

lemma count_newline_append: "length (filter ((=) c) (xs @ ys)) = length (filter ((=) c) xs) + length (filter ((=) c) ys)"
  by simp

lemma split_lines_newline:
  "split_lines s = l # ls \<Longrightarrow>
   CHR 0x0A \<notin> set l \<and> (if ls = [] then s = l else \<exists>r. s = l @ CHR 0x0A # r \<and> split_lines r = ls)"
proof (induction s arbitrary: l ls)
  case (Cons c cs)
  obtain l' ls' where split: "split_lines cs = l' # ls'" using split_lines_nonempty by (cases "split_lines cs") auto
  show ?case
  proof (cases "c = CHR 0x0A")
    case True
    then show ?thesis using Cons.prems split by (auto intro: exI [of _ cs])
  next
    case False
    then have l: "l = c # l'" "ls = ls'" using Cons.prems split by auto
    from Cons.IH [OF split] show ?thesis using False by (auto simp: l)
  qed
qed simp

lemma convertOffset_loop_pos:
  "split_lines s = ts \<Longrightarrow> k \<le> offset \<Longrightarrow> offset < k + length s \<Longrightarrow>
   \<exists>ls. convertOffset_loop offset k line prev ts =
     Some (line + 1 + length (filter ((=) (CHR 0x0A)) (take (offset - k) s)),
           1 + length (takeWhile (\<lambda>c. c \<noteq> CHR 0x0A) (rev (take (offset - k) s))), ls)"
proof (induction ts arbitrary: s k line prev)
  case Nil
  then show ?case using split_lines_nonempty by blast
next
  case (Cons t ts)
  note sp = split_lines_newline [OF Cons.prems(1)]
  have clean: "filter ((=) (CHR 0x0A)) (take n t) = []" for n
    using sp by (auto simp: filter_empty_conv dest: in_set_takeD)
  have all: "takeWhile (\<lambda>c. c \<noteq> CHR 0x0A) (rev (take n t)) = rev (take n t)" for n
    using sp by (auto simp: takeWhile_eq_all_conv dest: in_set_takeD)
  show ?case
  proof (cases "offset < k + length t + 1")
    case True
    then have tk: "take (offset - k) s = take (offset - k) t"
      using sp Cons.prems(2,3) by (auto split: if_splits)
    have "length (take (offset - k) t) = offset - k" using True by simp
    then show ?thesis using True Cons.prems(2) by (simp add: tk clean all Let_def)
  next
    case False
    then have "ts \<noteq> []" using sp Cons.prems(3) by (auto split: if_splits)
    then obtain r where r: "s = t @ CHR 0x0A # r" "split_lines r = ts" using sp by auto
    let ?k = "k + length t + 1"
    have tk: "take (offset - k) s = t @ CHR 0x0A # take (offset - ?k) r"
      using False by (simp add: r(1) take_Cons' Suc_diff_le)
    have cnt: "length (filter ((=) (CHR 0x0A)) (take (offset - k) s)) =
        Suc (length (filter ((=) (CHR 0x0A)) (take (offset - ?k) r)))"
      using clean [of "length t"] by (simp add: tk)
    have col: "takeWhile (\<lambda>c. c \<noteq> CHR 0x0A) (rev (take (offset - k) s)) =
        takeWhile (\<lambda>c. c \<noteq> CHR 0x0A) (rev (take (offset - ?k) r))"
      by (simp add: tk takeWhile_tail)
    show ?thesis
      unfolding cnt col
      using Cons.IH [OF r(2), of ?k "line + 1" t] False Cons.prems(3) by (simp add: r(1) Let_def)
  qed
qed

text \<open>The position reported for a byte of a text is its line, one more than the number of line breaks
  before it, and its column, one more than the number of characters since the last line break.\<close>

theorem convertOffset_position:
  assumes "offset < length str"
  shows "\<exists>ls. convertOffset str offset =
    Some (1 + length (filter ((=) (CHR 0x0A)) (take offset str)),
          1 + length (takeWhile (\<lambda>c. c \<noteq> CHR 0x0A) (rev (take offset str))), ls)"
  unfolding convertOffset_def
  using convertOffset_loop_pos [OF refl, of 0 offset str 0 "[]"] assms by simp

theorem convertOffset_position_witness:
  "\<exists>ls. convertOffset [CHR ''{'', CHR 0x0A, CHR ''x'', CHR ''!''] 3 = Some (2, 2, ls)"
  using convertOffset_position [of 3 "[CHR ''{'', CHR 0x0A, CHR ''x'', CHR ''!'']"] by (simp add: numeral_2_eq_2)

end
