(* ===== verification/Proxy_Base.thy ===== *)
theory Proxy_Base
  imports Algorithm
begin

text \<open>
  Small shared parts of the proxy: error codes and their texts (\<open>proxy/Error.cpp\<close>), the connection
  counters (\<open>proxy/Counters.h\<close>), the upstream counts of a splitter (\<open>proxy/interfaces/ISplitter.h\<close>) and
  the event dispatcher (\<open>proxy/Events.cpp\<close>), which runs every listener of an event exactly once and
  refuses to start an event while another one is running.
\<close>

section \<open>Errors\<close>

datatype error_code =
    NoError | BadGateway | InvalidJobId | InvalidMethod | InvalidNonce | LowDifficulty | Unauthenticated
  | IncompatibleAlgorithm | IncorrectAlgorithm | Forbidden | RouteNotFound | DuplicateShare
  | InvalidResult | VerificationFailed | CandidateRateLimit | StaleShare

fun error_toString :: "error_code \<Rightarrow> string" where
  "error_toString BadGateway = ''Bad gateway''"
| "error_toString InvalidJobId = ''Invalid job id''"
| "error_toString InvalidMethod = ''Invalid method''"
| "error_toString InvalidNonce = ''Invalid nonce; is miner not compatible with NiceHash?''"
| "error_toString LowDifficulty = ''Low difficulty share''"
| "error_toString Unauthenticated = ''Unauthenticated''"
| "error_toString IncompatibleAlgorithm = ''No compatible algorithm found, change algo option in your miner.''"
| "error_toString IncorrectAlgorithm = ''Incorrect algorithm''"
| "error_toString Forbidden = ''Permission denied''"
| "error_toString RouteNotFound = ''Algorithm negotiation failed''"
| "error_toString DuplicateShare = ''Duplicate share''"
| "error_toString InvalidResult = ''Invalid share result''"
| "error_toString VerificationFailed = ''RandomX verification unavailable''"
| "error_toString CandidateRateLimit = ''Candidate submission rate limit exceeded''"
| "error_toString StaleShare = ''Stale share''"
| "error_toString NoError = ''Unknown error''"

section \<open>Counters\<close>

record counters =
  ct_added :: u32
  ct_removed :: u32
  ct_accepted :: u64
  ct_connections :: u64
  ct_expired :: u64
  ct_maxMiners :: u64
  ct_miners :: u64

definition init_counters :: counters where
  "init_counters =
     \<lparr>ct_added = 0, ct_removed = 0, ct_accepted = 0, ct_connections = 0, ct_expired = 0,
      ct_maxMiners = 0, ct_miners = 0\<rparr>"

definition counters_reset :: "counters \<Rightarrow> counters" where
  "counters_reset c = c\<lparr>ct_added := 0, ct_removed := 0, ct_accepted := 0\<rparr>"

definition counters_add :: "counters \<Rightarrow> counters" where
  "counters_add c =
     (let c' = c\<lparr>ct_miners := ct_miners c + 1, ct_added := ct_added c + 1\<rparr>
      in if ct_maxMiners c' < ct_miners c' then c'\<lparr>ct_maxMiners := ct_miners c'\<rparr> else c')"

definition counters_remove :: "counters \<Rightarrow> counters" where
  "counters_remove c = c\<lparr>ct_miners := ct_miners c - 1, ct_removed := ct_removed c + 1\<rparr>"

section \<open>Upstream counts\<close>

record upstreams =
  up_active :: u64
  up_sleep :: u64
  up_total :: u64
  up_error :: u64

definition new_upstreams :: "u64 \<Rightarrow> u64 \<Rightarrow> u64 \<Rightarrow> upstreams" where
  "new_upstreams active sleep tot =
     \<lparr>up_active = active, up_sleep = sleep, up_total = tot, up_error = tot - active - sleep\<rparr>"

definition upstreams_plus :: "upstreams \<Rightarrow> upstreams \<Rightarrow> upstreams" where
  "upstreams_plus u v =
     \<lparr>up_active = up_active u + up_active v, up_sleep = up_sleep u + up_sleep v,
      up_total = up_total u + up_total v, up_error = up_error u + up_error v\<rparr>"

text \<open>The counting loop that the splitters share: suspended upstreams are never active.\<close>

definition count_upstreams :: "('m \<Rightarrow> bool) \<Rightarrow> ('m \<Rightarrow> bool) \<Rightarrow> 'm list \<Rightarrow> upstreams" where
  "count_upstreams active suspended ms =
     (case fold (\<lambda>m (a, s). if active m then (a + 1, s) else if suspended m then (a, s + 1) else (a, s))
        ms (0, 0) of
        (a, s) \<Rightarrow> new_upstreams a s (of_nat (length ms)))"

lemma count_upstreams_fold:
  "fold (\<lambda>m (a, s). if active m then (a + 1, s) else if suspended m then (a, s + 1) else (a, s))
     ms (a0, s0 :: u64) =
   (a0 + of_nat (length (filter active ms)), s0 + of_nat (length (filter (\<lambda>m. \<not> active m \<and> suspended m) ms)))"
  by (induction ms arbitrary: a0 s0) (auto simp: algebra_simps)

lemma count_upstreams_eq:
  "count_upstreams active suspended ms =
     new_upstreams (of_nat (length (filter active ms)))
       (of_nat (length (filter (\<lambda>m. \<not> active m \<and> suspended m) ms))) (of_nat (length ms))"
  by (simp add: count_upstreams_def count_upstreams_fold)

lemma length_partition:
  "length (filter P xs) + (length (filter (\<lambda>x. \<not> P x \<and> Q x) xs) + length (filter (\<lambda>x. \<not> P x \<and> \<not> Q x) xs)) =
   length xs"
  by (induction xs) auto

lemma count_upstreams_error:
  "up_error (count_upstreams active suspended ms) =
     of_nat (length (filter (\<lambda>m. \<not> active m \<and> \<not> suspended m) ms))"
proof -
  have "(of_nat (length ms) :: u64) = of_nat (length (filter active ms)) +
      (of_nat (length (filter (\<lambda>m. \<not> active m \<and> suspended m) ms)) +
       of_nat (length (filter (\<lambda>m. \<not> active m \<and> \<not> suspended m) ms)))"
    by (simp only: length_partition flip: of_nat_add)
  then show ?thesis by (simp add: count_upstreams_eq new_upstreams_def)
qed

section \<open>Events\<close>

datatype event_type = ConnectionType | CloseType | LoginType | SubmitType | AcceptType

text \<open>
  A listener of the dispatcher handles an accepted and a rejected event; the event carries its own
  rejection, which a listener may set, so that the listeners after it get the rejected form. \<open>'e\<close> is
  the event and \<open>'s\<close> the state the listeners work on.
\<close>

record ('e, 's) listener =
  l_onEvent :: "'e \<Rightarrow> 's \<Rightarrow> 'e \<times> 's"
  l_onRejectedEvent :: "'e \<Rightarrow> 's \<Rightarrow> 'e \<times> 's"

record ('e, 's) events =
  ev_ready :: bool
  ev_listeners :: "(event_type, ('e, 's) listener list) umap"

definition init_events :: "('e, 's) events" where
  "init_events = \<lparr>ev_ready = True, ev_listeners = []\<rparr>"

definition subscribe :: "event_type \<Rightarrow> ('e, 's) listener \<Rightarrow> ('e, 's) events \<Rightarrow> ('e, 's) events" where
  "subscribe t l ev =
     ev\<lparr>ev_listeners := AList.update t
          ((case map_of (ev_listeners ev) t of None \<Rightarrow> [] | Some ls \<Rightarrow> ls) @ [l]) (ev_listeners ev)\<rparr>"

definition events_stop :: "('e, 's) events \<Rightarrow> ('e, 's) events" where
  "events_stop ev = ev\<lparr>ev_listeners := []\<rparr>"

text \<open>
  \<open>Events::exec\<close>: the result, the final event and the state. While the listeners run, \<open>m_ready\<close> is
  false, so an event they start is refused without effect.
\<close>

definition events_exec :: "('e \<Rightarrow> event_type) \<Rightarrow> ('e \<Rightarrow> bool) \<Rightarrow> ('e, 's) events \<Rightarrow> 'e \<Rightarrow> 's
    \<Rightarrow> bool \<times> 'e \<times> 's" where
  "events_exec etype rejected ev e s =
     (if \<not> ev_ready ev then (False, e, s)
      else
        let ls = (case map_of (ev_listeners ev) (etype e) of None \<Rightarrow> [] | Some ls \<Rightarrow> ls);
            (e', s') = fold (\<lambda>l (e, s). if rejected e then l_onRejectedEvent l e s else l_onEvent l e s)
                         ls (e, s)
        in (\<not> rejected e', e', s'))"

lemma events_exec_subscribed:
  assumes "ev_ready ev"
  shows "events_exec etype rejected (subscribe (etype e) l ev) e s =
    (case events_exec etype rejected ev e s of
       (_, e', s') \<Rightarrow>
         (case (if rejected e' then l_onRejectedEvent l e' s' else l_onEvent l e' s') of
            (e'', s'') \<Rightarrow> (\<not> rejected e'', e'', s'')))"
  using assms by (auto simp: events_exec_def subscribe_def update_conv' split: prod.splits option.splits)

end
