(* ===== verification/Verifier.thy ===== *)
theory Verifier
  imports Json Job "HOL-Library.Char_ord" "HOL-Library.List_Lexorder"
begin

text \<open>
  The client of the external RandomX verifier, \<open>proxy/RandomXVerifier.cpp\<close>: admission of verification
  requests, the sliding windows that limit share candidates, the seeds prepared in the sidecar, the
  length-prefixed frames and the responses.

  The state is the object's; what it does to the outside is the list \<open>v_out\<close> of actions: documents
  written to the pipe, connecting and closing, and calls of completion callbacks. A callback is a value
  of type \<open>'cb\<close>; the code's callbacks do not touch the pending requests, so they may run after the
  operation. The environment gives the time, what the pipe does with a document and the size of its
  text. Rows of the event stream and timing metrics are left out.
\<close>

section \<open>Data\<close>

definition kMaxFrameSize :: nat where "kMaxFrameSize = 16 * 1024"
definition kControlTimeoutMs :: u64 where "kControlTimeoutMs = 120000"
definition kReconnectDelayMs :: u64 where "kReconnectDelayMs = 1000"
definition kSeedRetentionMs :: u64 where "kSeedRetentionMs = 120000"
definition kCandidateWindowMs :: u64 where "kCandidateWindowMs = 60000"
definition kSeedRetryDelayMs :: u64 where "kSeedRetryDelayMs = 1000"
definition kStatsIntervalMs :: u64 where "kStatsIntervalMs = 5000"

record verify_request =
  vr_owner :: u64
  vr_shareId :: u64
  vr_seedHash :: string
  vr_blob :: string
  vr_claimedHash :: string
  vr_jobId :: string
  vr_nonce :: string
  vr_priority :: bool

record verify_result =
  vs_ok :: bool
  vs_hash :: string
  vs_error :: string
  vs_latencyMs :: u64
  vs_requestId :: u64

datatype seed_status = Wanted | Requested | SeedReady

record seed_state =
  sd_status :: seed_status
  sd_lastSeenMs :: u64
  sd_retryAtMs :: u64
  sd_order :: u64

record 'cb pending_verify =
  pv_request :: verify_request
  pv_callback :: 'cb
  pv_sentAtMs :: u64

record verify_control =
  vc_op :: string
  vc_seedHash :: string
  vc_sentAtMs :: u64

datatype 'cb verify_action =
    V_connect
  | V_close
  | V_send json
  | V_callback 'cb verify_result

record 'cb verifier =
  v_connected :: bool
  v_ready :: bool
  v_stopping :: bool
  v_pipe :: bool
  v_controls :: "(u64, verify_control) omap"
  v_candidateWindows :: "(u64, u64 list) omap"
  v_emergencyWindows :: "(u64, u64 list) omap"
  v_globalWindow :: "u64 list"
  v_emergencyWindow :: "u64 list"
  v_pendingByOwner :: "(u64, u32) omap"
  v_pending :: "(u64, 'cb pending_verify) omap"
  v_seeds :: "(string, seed_state) omap"
  v_currentSeedHash :: string
  v_nextSeedHash :: string
  v_previousSeedHash :: string
  v_path :: string
  v_receiveBuffer :: string
  v_nextRequestId :: u64
  v_nextStatsAtMs :: u64
  v_reconnectAtMs :: u64
  v_seedOrder :: u64
  v_seedSourceId :: u64
  v_timeoutMs :: u64
  v_candidateLimit :: u32
  v_emergencyCandidateLimit :: u32
  v_globalCandidateLimit :: u32
  v_maxConsecutiveRejections :: u32
  v_maxPendingPerMiner :: u32
  v_maxQueue :: u32
  v_vmPoolSize :: u32
  v_out :: "'cb verify_action list"

datatype write_result = Not_writable | Write_error | Written

record verify_env =
  ve_now :: u64
  ve_write :: "json \<Rightarrow> write_result"
  ve_size :: "json \<Rightarrow> nat"

definition new_verifier :: "string \<Rightarrow> u64 \<Rightarrow> u32 \<Rightarrow> u32 \<Rightarrow> u32 \<Rightarrow> u32 \<Rightarrow> u32 \<Rightarrow> u32 \<Rightarrow> 'cb verifier" where
  "new_verifier path timeoutMs maxQueue maxPending candLimit globLimit emerLimit maxRej =
     \<lparr>v_connected = False, v_ready = False, v_stopping = False, v_pipe = False, v_controls = [],
      v_candidateWindows = [], v_emergencyWindows = [], v_globalWindow = [], v_emergencyWindow = [],
      v_pendingByOwner = [], v_pending = [], v_seeds = [], v_currentSeedHash = [], v_nextSeedHash = [],
      v_previousSeedHash = [], v_path = path, v_receiveBuffer = [], v_nextRequestId = 1,
      v_nextStatsAtMs = 0, v_reconnectAtMs = 0, v_seedOrder = 0, v_seedSourceId = 0,
      v_timeoutMs = timeoutMs, v_candidateLimit = candLimit, v_emergencyCandidateLimit = emerLimit,
      v_globalCandidateLimit = globLimit, v_maxConsecutiveRejections = maxRej,
      v_maxPendingPerMiner = maxPending, v_maxQueue = maxQueue, v_vmPoolSize = 0, v_out = []\<rparr>"

definition act :: "'cb verify_action \<Rightarrow> 'cb verifier \<Rightarrow> 'cb verifier" where
  "act a v = v\<lparr>v_out := v_out v @ [a]\<rparr>"

section \<open>Checks on texts\<close>

definition validHash :: "string \<Rightarrow> bool" where
  "validHash h \<longleftrightarrow> length h = 64 \<and> fst (fromHex_into (replicate 32 0) h 64)"

definition validBlob :: "string \<Rightarrow> bool" where
  "validBlob b \<longleftrightarrow>
     \<not> (b = [] \<or> odd (length b) \<or> 8192 < length b) \<and>
     fst (fromHex_into (replicate (length b div 2) 0) b (length b))"

definition zeroHash :: "string \<Rightarrow> bool" where
  "zeroHash h \<longleftrightarrow> length h = 64 \<and> list_all ((=) (CHR ''0'')) h"

definition hasCapability :: "json \<Rightarrow> string \<Rightarrow> bool" where
  "hasCapability caps name =
     (case caps of JArr xs \<Rightarrow> list_ex (\<lambda>x. case x of JStr s \<Rightarrow> c_string s = name | _ \<Rightarrow> False) xs
      | _ \<Rightarrow> False)"

definition validMetric :: "json \<Rightarrow> string \<Rightarrow> bool" where
  "validMetric doc name =
     (case find_member doc name of
        Some (JInt i) \<Rightarrow> 0 \<le> i | Some (JNum m e) \<Rightarrow> 0 \<le> m | _ \<Rightarrow> False)"

text \<open>Two hexadecimal texts of 32 bytes are equal as bytes.\<close>

definition same_hash :: "string \<Rightarrow> string \<Rightarrow> bool" where
  "same_hash a b =
     (case (fromHex_into (replicate 32 0) a (length a), fromHex_into (replicate 32 0) b (length b)) of
        ((True, x), (True, y)) \<Rightarrow> x = y | _ \<Rightarrow> False)"

section \<open>Completing and failing requests\<close>

definition fail_result :: "u64 \<Rightarrow> string \<Rightarrow> u64 \<Rightarrow> verify_result" where
  "fail_result i err latency =
     \<lparr>vs_ok = False, vs_hash = [], vs_error = err, vs_latencyMs = latency, vs_requestId = i\<rparr>"

definition failAll :: "u64 \<Rightarrow> string \<Rightarrow> 'cb verifier \<Rightarrow> 'cb verifier" where
  "failAll now err v =
     v\<lparr>v_pending := [], v_pendingByOwner := [],
       v_out := v_out v @ map (\<lambda>(i, p). V_callback (pv_callback p)
         (fail_result i err (if pv_sentAtMs p \<le> now then now - pv_sentAtMs p else 0))) (v_pending v)\<rparr>"

definition v_disconnect :: "u64 \<Rightarrow> string \<Rightarrow> bool \<Rightarrow> 'cb verifier \<Rightarrow> 'cb verifier" where
  "v_disconnect now err failPending v =
     (if \<not> v_connected v \<and> \<not> v_pipe v then v
      else
        let v1 = v\<lparr>v_connected := False, v_ready := False, v_receiveBuffer := [], v_controls := [],
                   v_seeds := map (\<lambda>(h, s). (h, s\<lparr>sd_status := Wanted, sd_retryAtMs := 0\<rparr>)) (v_seeds v)\<rparr>;
            v2 = (if failPending then failAll now err v1 else v1);
            v3 = (if v_pipe v2 then act V_close (v2\<lparr>v_pipe := False\<rparr>) else v2)
        in v3\<lparr>v_reconnectAtMs := now + kReconnectDelayMs\<rparr>)"

text \<open>One pending request fewer for its owner.\<close>

definition owner_done :: "u64 \<Rightarrow> (u64, u32) omap \<Rightarrow> (u64, u32) omap" where
  "owner_done ow m =
     (case map_of m ow of None \<Rightarrow> m
      | Some n \<Rightarrow> if n - 1 = 0 then AList.delete ow m else om_put ow (n - 1) m)"

section \<open>Writing documents\<close>

definition sendDocument :: "verify_env \<Rightarrow> json \<Rightarrow> 'cb verifier \<Rightarrow> bool \<times> 'cb verifier" where
  "sendDocument env doc v =
     (if \<not> v_pipe v \<or> \<not> v_connected v \<or> ve_write env doc = Not_writable then (False, v)
      else if ve_size env doc = 0 \<or> kMaxFrameSize < ve_size env doc then (False, v)
      else if ve_write env doc = Write_error then (False, v_disconnect (ve_now env) ''write'' False v)
      else (True, act (V_send doc) v))"

text \<open>The header of a frame and the frame of a text.\<close>

definition frame :: "string \<Rightarrow> string" where
  "frame body =
     (let size = of_nat (length body) :: u32 in
      map (\<lambda>k. char_of (unat (drop_bit k size AND 0xff))) [24, 16, 8, 0] @ body)"

definition control_doc :: "u64 \<Rightarrow> string \<Rightarrow> string \<Rightarrow> json" where
  "control_doc i op seedHash =
     JObj ([(''v'', JInt 1), (''id'', JInt (uint i)), (''op'', JStr op)] @
       (if seedHash \<noteq> [] then [(''seed_hash'', JStr (c_string seedHash))] else []) @
       (if op = ''prepare_seed''
        then [(''mode'', JStr ''fast''), (''allow_light_fallback'', JBool False)]
        else if op = ''hello'' then [(''client'', JStr ''xmrig-proxy'')] else []))"

definition sendControl :: "verify_env \<Rightarrow> string \<Rightarrow> string \<Rightarrow> 'cb verifier \<Rightarrow> bool \<times> 'cb verifier" where
  "sendControl env op seedHash v =
     (if \<not> v_connected v then (False, v)
      else
        let i = v_nextRequestId v;
            doc = control_doc i op seedHash;
            v1 = v\<lparr>v_nextRequestId := i + 1,
                   v_controls := (case map_of (v_controls v) i of
                       None \<Rightarrow> om_put i \<lparr>vc_op = op, vc_seedHash = seedHash, vc_sentAtMs = ve_now env\<rparr> (v_controls v)
                     | Some _ \<Rightarrow> v_controls v)\<rparr>
        in (case sendDocument env doc v1 of
              (False, v2) \<Rightarrow> (False, v2\<lparr>v_controls := AList.delete i (v_controls v2)\<rparr>)
            | (True, v2) \<Rightarrow> (True, v2)))"

definition requestStats :: "verify_env \<Rightarrow> 'cb verifier \<Rightarrow> 'cb verifier" where
  "requestStats env v =
     (let v1 = v\<lparr>v_nextStatsAtMs := ve_now env + kStatsIntervalMs\<rparr> in
      if list_ex (\<lambda>(i, c). vc_op c = ''stats'') (v_controls v1) then v1
      else snd (sendControl env ''stats'' [] v1))"

text \<open>
  Asking for one seed of the list of wanted ones. The map holds the seeds in ascending order of their
  hash, so sorting by the order number alone sorts the pairs.
\<close>

definition request_seed :: "verify_env \<Rightarrow> string \<Rightarrow> 'cb verifier \<Rightarrow> 'cb verifier" where
  "request_seed env h v =
     (case map_of (v_seeds v) h of None \<Rightarrow> v
      | Some _ \<Rightarrow>
          (case sendControl env ''prepare_seed'' h v of
             (False, v1) \<Rightarrow> v1
           | (True, v1) \<Rightarrow>
               v1\<lparr>v_seeds := (case map_of (v_seeds v1) h of None \<Rightarrow> v_seeds v1
                   | Some s \<Rightarrow> om_put h (s\<lparr>sd_status := Requested, sd_retryAtMs := 0\<rparr>) (v_seeds v1))\<rparr>))"

definition requestWantedSeeds :: "verify_env \<Rightarrow> 'cb verifier \<Rightarrow> 'cb verifier" where
  "requestWantedSeeds env v =
     (let wanted = sort_key fst (map (\<lambda>(h, s). (sd_order s, h))
            (filter (\<lambda>(h, s). sd_status s = Wanted \<and> sd_retryAtMs s \<le> ve_now env) (v_seeds v)))
      in fold (\<lambda>(ord, h). request_seed env h) wanted v)"

section \<open>Seeds\<close>

definition prepareSeed :: "verify_env \<Rightarrow> string \<Rightarrow> 'cb verifier \<Rightarrow> 'cb verifier" where
  "prepareSeed env h v =
     (if \<not> validHash h \<or> zeroHash h then v
      else
        let s0 = (case map_of (v_seeds v) h of
                    None \<Rightarrow> \<lparr>sd_status = Wanted, sd_lastSeenMs = 0, sd_retryAtMs = 0, sd_order = 0\<rparr>
                  | Some s \<Rightarrow> s);
            fresh = (sd_order s0 = 0);
            ord = (if fresh then v_seedOrder v + 1 else v_seedOrder v);
            s1 = s0\<lparr>sd_order := (if fresh then ord else sd_order s0), sd_lastSeenMs := ve_now env\<rparr>;
            v1 = v\<lparr>v_seedOrder := ord, v_seeds := om_put h s1 (v_seeds v)\<rparr>
        in if v_connected v1 \<and> v_ready v1 \<and> sd_status s1 = Wanted \<and> sd_retryAtMs s1 \<le> ve_now env
           then request_seed env h v1 else v1)"

definition setSeedRoles :: "u64 \<Rightarrow> string \<Rightarrow> string \<Rightarrow> string \<Rightarrow> 'cb verifier \<Rightarrow> 'cb verifier" where
  "setSeedRoles src previous current nxt v =
     (let ok = (\<lambda>h. if validHash h \<and> \<not> zeroHash h then h else []) in
      v\<lparr>v_seedSourceId := src, v_previousSeedHash := ok previous, v_currentSeedHash := ok current,
        v_nextSeedHash := ok nxt\<rparr>)"

definition seedRole :: "string \<Rightarrow> 'cb verifier \<Rightarrow> string" where
  "seedRole h v =
     (if h \<noteq> [] \<and> h = v_currentSeedHash v then ''current''
      else if h \<noteq> [] \<and> h = v_nextSeedHash v then ''next''
      else if h \<noteq> [] \<and> h = v_previousSeedHash v then ''previous'' else ''retained'')"

definition isSeedReady :: "string \<Rightarrow> 'cb verifier \<Rightarrow> bool" where
  "isSeedReady h v \<longleftrightarrow> v_connected v \<and> v_ready v \<and>
     (case map_of (v_seeds v) h of None \<Rightarrow> False | Some s \<Rightarrow> sd_status s = SeedReady)"

section \<open>Admission\<close>

text \<open>Slots of the queue kept back for share candidates.\<close>

definition candidateReserve :: "u32 \<Rightarrow> nat" where
  "candidateReserve maxQueue =
     (if 1 < maxQueue then min 4 (max 1 (unat maxQueue div 16)) else 0)"

definition owner_pending :: "u64 \<Rightarrow> 'cb verifier \<Rightarrow> u32" where
  "owner_pending ow v = (case map_of (v_pendingByOwner v) ow of None \<Rightarrow> 0 | Some n \<Rightarrow> n)"

definition verify_doc :: "u64 \<Rightarrow> verify_request \<Rightarrow> json" where
  "verify_doc i r =
     JObj [(''v'', JInt 1), (''id'', JInt (uint i)), (''op'', JStr ''verify''),
       (''seed_hash'', JStr (c_string (vr_seedHash r))), (''blob'', JStr (c_string (vr_blob r))),
       (''claimed_hash'', JStr (c_string (vr_claimedHash r))), (''job_id'', JStr (c_string (vr_jobId r))),
       (''nonce'', JStr (c_string (vr_nonce r))), (''share_id'', JInt (uint (vr_shareId r)))]"

definition v_verify :: "verify_env \<Rightarrow> verify_request \<Rightarrow> 'cb option \<Rightarrow> 'cb verifier \<Rightarrow> bool \<times> 'cb verifier" where
  "v_verify env r callback v =
     (let ownerPending = owner_pending (vr_owner r) v;
          admissionLimit = (if vr_priority r then unat (v_maxQueue v)
                            else unat (v_maxQueue v) - candidateReserve (v_maxQueue v));
          ownerLimit = (if vr_priority r then v_maxPendingPerMiner v + 1 else v_maxPendingPerMiner v)
      in case callback of None \<Rightarrow> (False, v)
         | Some cb \<Rightarrow>
             if \<not> v_connected v \<or> \<not> v_ready v \<or> admissionLimit \<le> length (v_pending v) \<or>
                ownerLimit \<le> ownerPending \<or> \<not> isSeedReady (vr_seedHash r) v \<or>
                \<not> validHash (vr_seedHash r) \<or> \<not> validHash (vr_claimedHash r) \<or> \<not> validBlob (vr_blob r)
             then (False, v)
             else
               let i = v_nextRequestId v; v1 = v\<lparr>v_nextRequestId := i + 1\<rparr> in
               (case sendDocument env (verify_doc i r) v1 of
                  (False, v2) \<Rightarrow> (False, v2)
                | (True, v2) \<Rightarrow>
                    (True, v2\<lparr>v_pending := (case map_of (v_pending v2) i of
                         None \<Rightarrow> om_put i \<lparr>pv_request = r, pv_callback = cb, pv_sentAtMs = ve_now env\<rparr> (v_pending v2)
                       | Some _ \<Rightarrow> v_pending v2),
                       v_pendingByOwner :=
                         om_put (vr_owner r) (owner_pending (vr_owner r) v2 + 1) (v_pendingByOwner v2)\<rparr>)))"

definition v_cancelOwner :: "u64 \<Rightarrow> 'cb verifier \<Rightarrow> 'cb verifier" where
  "v_cancelOwner ow v =
     v\<lparr>v_candidateWindows := AList.delete ow (v_candidateWindows v),
       v_emergencyWindows := AList.delete ow (v_emergencyWindows v),
       v_pending := filter (\<lambda>(i, p). vr_owner (pv_request p) \<noteq> ow) (v_pending v),
       v_pendingByOwner := AList.delete ow (v_pendingByOwner v)\<rparr>"

section \<open>Windows of candidates\<close>

text \<open>The loop that pops the entries older than the window from the front of a deque.\<close>

definition slide :: "u64 \<Rightarrow> u64 list \<Rightarrow> u64 list" where
  "slide now w = dropWhile (\<lambda>t. t + kCandidateWindowMs \<le> now) w"

definition window_of :: "u64 \<Rightarrow> (u64, u64 list) omap \<Rightarrow> u64 list" where
  "window_of ow ws = (case map_of ws ow of None \<Rightarrow> [] | Some w \<Rightarrow> w)"

definition allowCandidate :: "u64 \<Rightarrow> u64 \<Rightarrow> 'cb verifier \<Rightarrow> bool \<times> 'cb verifier" where
  "allowCandidate now ow v =
     (if v_candidateLimit v = 0 \<and> v_globalCandidateLimit v = 0 then (True, v)
      else
        let w = slide now (window_of ow (v_candidateWindows v));
            g = slide now (v_globalWindow v);
            v1 = v\<lparr>v_candidateWindows := om_put ow w (v_candidateWindows v), v_globalWindow := g\<rparr>
        in if v_candidateLimit v \<noteq> 0 \<and> unat (v_candidateLimit v) \<le> length w \<or>
              v_globalCandidateLimit v \<noteq> 0 \<and> unat (v_globalCandidateLimit v) \<le> length g
           then (False, v1)
           else (True,
             v1\<lparr>v_candidateWindows := (if v_candidateLimit v \<noteq> 0
                  then om_put ow (w @ [now]) (v_candidateWindows v1) else v_candidateWindows v1),
                v_globalWindow := (if v_globalCandidateLimit v \<noteq> 0 then g @ [now] else g)\<rparr>))"

definition allowEmergencyCandidate :: "u64 \<Rightarrow> u64 \<Rightarrow> 'cb verifier \<Rightarrow> bool \<times> 'cb verifier" where
  "allowEmergencyCandidate now ow v =
     (if v_emergencyCandidateLimit v = 0 then (True, v)
      else
        let w = slide now (window_of ow (v_emergencyWindows v));
            g = slide now (v_emergencyWindow v);
            v1 = v\<lparr>v_emergencyWindows := om_put ow w (v_emergencyWindows v), v_emergencyWindow := g\<rparr>
        in if w \<noteq> [] \<or> unat (v_emergencyCandidateLimit v) \<le> length g then (False, v1)
           else (True, v1\<lparr>v_emergencyWindows := om_put ow (w @ [now]) (v_emergencyWindows v1),
                          v_emergencyWindow := g @ [now]\<rparr>))"

section \<open>Connecting and stopping\<close>

text \<open>\<open>pipe_ok\<close> is the success of \<open>uv_pipe_init\<close>.\<close>

definition v_connect :: "bool \<Rightarrow> u64 \<Rightarrow> 'cb verifier \<Rightarrow> bool \<times> 'cb verifier" where
  "v_connect pipe_ok now v =
     (if v_stopping v \<or> v_pipe v \<or> v_path v = [] then (False, v)
      else if \<not> pipe_ok then (False, v\<lparr>v_reconnectAtMs := now + kReconnectDelayMs\<rparr>)
      else (True, act V_connect (v\<lparr>v_pipe := True\<rparr>)))"

definition v_start :: "bool \<Rightarrow> u64 \<Rightarrow> 'cb verifier \<Rightarrow> bool \<times> 'cb verifier" where
  "v_start pipe_ok now v = v_connect pipe_ok now (v\<lparr>v_stopping := False\<rparr>)"

definition v_stop :: "u64 \<Rightarrow> 'cb verifier \<Rightarrow> 'cb verifier" where
  "v_stop now v =
     (if v_stopping v then v
      else
        let v1 = failAll now ''verifier stopped'' (v\<lparr>v_stopping := True\<rparr>);
            v2 = v1\<lparr>v_controls := [], v_candidateWindows := [], v_globalWindow := [],
                    v_ready := False, v_connected := False\<rparr>
        in if v_pipe v2 then act V_close (v2\<lparr>v_pipe := False\<rparr>) else v2)"

definition v_onConnect :: "verify_env \<Rightarrow> bool \<Rightarrow> 'cb verifier \<Rightarrow> 'cb verifier" where
  "v_onConnect env ok v =
     (if v_stopping v then v
      else if \<not> ok then v_disconnect (ve_now env) ''connect'' True v
      else
        (case sendControl env ''hello'' [] (v\<lparr>v_connected := True, v_ready := False\<rparr>) of
           (True, v1) \<Rightarrow> v1
         | (False, v1) \<Rightarrow> v_disconnect (ve_now env) ''failed to send verifier hello'' True v1))"

definition v_onWrite :: "u64 \<Rightarrow> bool \<Rightarrow> 'cb verifier \<Rightarrow> 'cb verifier" where
  "v_onWrite now ok v = (if ok then v else v_disconnect now ''write'' True v)"

section \<open>The timer\<close>

definition expire_request :: "u64 \<Rightarrow> u64 \<Rightarrow> 'cb verifier \<Rightarrow> 'cb verifier" where
  "expire_request now i v =
     (case map_of (v_pending v) i of None \<Rightarrow> v
      | Some p \<Rightarrow>
          act (V_callback (pv_callback p) (fail_result i ''verifier request timed out'' (now - pv_sentAtMs p)))
            (v\<lparr>v_pending := AList.delete i (v_pending v),
               v_pendingByOwner := owner_done (vr_owner (pv_request p)) (v_pendingByOwner v)\<rparr>))"

definition expire_requests :: "u64 \<Rightarrow> 'cb verifier \<Rightarrow> 'cb verifier" where
  "expire_requests now v =
     fold (expire_request now)
       (map fst (filter (\<lambda>(i, p). pv_sentAtMs p + v_timeoutMs v \<le> now) (v_pending v))) v"

definition control_timeout :: "'cb verifier \<Rightarrow> verify_control \<Rightarrow> u64" where
  "control_timeout v c =
     (if vc_op c = ''hello'' then max 1000 (min (v_timeoutMs v) 5000) else kControlTimeoutMs)"

text \<open>The loop over the controls; \<open>True\<close> is the early return after a \<open>hello\<close> that timed out.\<close>

fun expire_controls :: "u64 \<Rightarrow> (u64 \<times> verify_control) list \<Rightarrow> 'cb verifier \<Rightarrow> bool \<times> 'cb verifier" where
  "expire_controls now [] v = (False, v)"
| "expire_controls now ((i, c) # cs) v =
     (if now < vc_sentAtMs c + control_timeout v c then expire_controls now cs v
      else if vc_op c = ''hello'' then (True, v_disconnect now ''verifier hello timed out'' True v)
      else
        let v1 = (if vc_op c = ''prepare_seed''
                  then (case map_of (v_seeds v) (vc_seedHash c) of None \<Rightarrow> v
                        | Some s \<Rightarrow> v\<lparr>v_seeds := om_put (vc_seedHash c)
                            (s\<lparr>sd_status := Wanted, sd_retryAtMs := now + kSeedRetryDelayMs\<rparr>) (v_seeds v)\<rparr>)
                  else v)
        in expire_controls now cs (v1\<lparr>v_controls := AList.delete i (v_controls v1)\<rparr>))"

definition release_seed :: "verify_env \<Rightarrow> string \<Rightarrow> 'cb verifier \<Rightarrow> 'cb verifier" where
  "release_seed env h v =
     (let v1 = (if v_connected v \<and> v_ready v then snd (sendControl env ''release_seed'' h v) else v)
      in v1\<lparr>v_seeds := AList.delete h (v_seeds v1)\<rparr>)"

definition v_tick :: "verify_env \<Rightarrow> bool \<Rightarrow> 'cb verifier \<Rightarrow> 'cb verifier" where
  "v_tick env pipe_ok v =
     (let now = ve_now env; v1 = expire_requests now v in
      case expire_controls now (v_controls v1) v1 of
        (True, v2) \<Rightarrow> v2
      | (False, v2) \<Rightarrow>
          let old = map fst (filter (\<lambda>(h, s). sd_lastSeenMs s + kSeedRetentionMs \<le> now) (v_seeds v2));
              v3 = fold (release_seed env) old v2;
              v4 = (if v_connected v3 \<and> v_ready v3
                    then (let w = requestWantedSeeds env v3
                          in if v_nextStatsAtMs w \<le> now then requestStats env w else w)
                    else v3)
          in if \<not> v_stopping v4 \<and> \<not> v_pipe v4 \<and> v_reconnectAtMs v4 \<le> now
             then snd (v_connect pipe_ok now v4) else v4)"

section \<open>Responses\<close>

definition hello_ok :: "json \<Rightarrow> bool" where
  "hello_ok doc \<longleftrightarrow>
     (let caps = getArray doc ''capabilities'' in
      getString doc ''service'' (Some []) = Some ''xmrig-randomx-verifier'' \<and>
      getString doc ''mode'' (Some []) = Some ''fast'' \<and>
      \<not> getBool doc ''allow_light_fallback'' True \<and>
      getUint doc ''max_frame'' 0 \<noteq> 0 \<and> unat (getUint doc ''max_frame'' 0) \<le> kMaxFrameSize \<and>
      getUint doc ''vm_pool_size'' 0 \<noteq> 0 \<and>
      hasCapability caps ''prepare_seed'' \<and> hasCapability caps ''release_seed'' \<and>
      hasCapability caps ''verify'' \<and> hasCapability caps ''stats'')"

definition control_response :: "verify_env \<Rightarrow> verify_control \<Rightarrow> json \<Rightarrow> 'cb verifier \<Rightarrow> 'cb verifier" where
  "control_response env c doc v =
     (let now = ve_now env; ok = getBool doc ''ok'' False in
      if vc_op c = ''hello''
      then (if \<not> ok then v_disconnect now (the (getString doc ''error'' (Some ''verifier hello rejected''))) True v
            else if \<not> hello_ok doc
            then v_disconnect now ''verifier hello lacks required fast-mode capabilities'' True v
            else requestStats env (requestWantedSeeds env
                   (v\<lparr>v_vmPoolSize := getUint doc ''vm_pool_size'' 0, v_ready := True\<rparr>)))
      else if vc_op c = ''prepare_seed''
      then
        let returned = the (getString doc ''seed_hash'' (Some []));
            matching = length returned = 64 \<and> same_hash (vc_seedHash c) returned
        in if ok \<and> (\<not> matching \<or> getString doc ''state'' (Some []) \<noteq> Some ''ready'')
           then v_disconnect now ''invalid prepare_seed readiness response'' True v
           else (case map_of (v_seeds v) (vc_seedHash c) of None \<Rightarrow> v
                 | Some s \<Rightarrow> v\<lparr>v_seeds := om_put (vc_seedHash c)
                     (s\<lparr>sd_status := (if ok then SeedReady else Wanted),
                        sd_retryAtMs := (if ok then 0 else now + kSeedRetryDelayMs)\<rparr>) (v_seeds v)\<rparr>)
      else v)"

text \<open>The checks on the answer to a verification request.\<close>

definition response_result :: "u64 \<Rightarrow> verify_request \<Rightarrow> u64 \<Rightarrow> json \<Rightarrow> verify_result" where
  "response_result i r latency doc =
     (let ok = getBool doc ''ok'' False;
          hash = the (getString doc ''hash'' (Some []));
          err = the (getString doc ''error'' (Some []));
          res = \<lparr>vs_ok = ok, vs_hash = hash, vs_error = err, vs_latencyMs = latency, vs_requestId = i\<rparr>
      in if ok \<and> \<not> validHash hash
         then res\<lparr>vs_ok := False, vs_error := ''verifier returned an invalid hash''\<rparr>
         else if ok
         then (case find_member doc ''match'' of
                 Some (JBool m) \<Rightarrow>
                   if \<not> validMetric doc ''queue_ms'' \<or> \<not> validMetric doc ''hash_ms'' \<or>
                      \<not> validMetric doc ''total_ms''
                   then res\<lparr>vs_ok := False, vs_error := ''verifier returned a malformed success response''\<rparr>
                   else if m \<noteq> same_hash (vr_claimedHash r) hash
                   then res\<lparr>vs_ok := False, vs_error := ''verifier returned an inconsistent match flag''\<rparr>
                   else res
               | _ \<Rightarrow> res\<lparr>vs_ok := False, vs_error := ''verifier returned a malformed success response''\<rparr>)
         else if err = [] then res\<lparr>vs_error := ''verifier rejected request without an error''\<rparr>
         else res)"

definition v_handleResponse :: "verify_env \<Rightarrow> json \<Rightarrow> 'cb verifier \<Rightarrow> 'cb verifier" where
  "v_handleResponse env doc v =
     (let now = ve_now env in
      if getUint doc ''v'' 0 \<noteq> 1 then v_disconnect now ''unsupported verifier protocol version'' True v
      else
        let i = getUint64 doc ''id'' 0 in
        if i = 0 then v_disconnect now ''verifier response missing id'' True v
        else (case map_of (v_controls v) i of
                Some c \<Rightarrow> control_response env c doc (v\<lparr>v_controls := AList.delete i (v_controls v)\<rparr>)
              | None \<Rightarrow>
                  (case map_of (v_pending v) i of None \<Rightarrow> v
                   | Some p \<Rightarrow>
                       act (V_callback (pv_callback p) (response_result i (pv_request p)
                              (if pv_sentAtMs p \<le> now then now - pv_sentAtMs p else 0) doc))
                         (v\<lparr>v_pending := AList.delete i (v_pending v),
                            v_pendingByOwner := owner_done (vr_owner (pv_request p)) (v_pendingByOwner v)\<rparr>))))"

text \<open>\<open>parse\<close> is the JSON parser.\<close>

definition v_handleFrame :: "(string \<Rightarrow> json option) \<Rightarrow> verify_env \<Rightarrow> string \<Rightarrow> 'cb verifier \<Rightarrow> 'cb verifier" where
  "v_handleFrame parse env body v =
     (case parse body of
        Some (JObj ms) \<Rightarrow>
          if body = [] then v_disconnect (ve_now env) ''malformed verifier JSON response'' True v
          else v_handleResponse env (JObj ms) v
      | _ \<Rightarrow> v_disconnect (ve_now env) ''malformed verifier JSON response'' True v)"

definition frame_size :: "string \<Rightarrow> nat" where
  "frame_size buf = unat (push_bit 24 (of_char (buf ! 0)) OR push_bit 16 (of_char (buf ! 1)) OR
     push_bit 8 (of_char (buf ! 2)) OR of_char (buf ! 3) :: u32)"


section \<open>Frames\<close>

text \<open>No response makes the receive buffer longer: it stays, or a disconnect empties it. None connects.\<close>

definition buffer_kept :: "'cb verifier \<Rightarrow> 'cb verifier \<Rightarrow> bool" where
  "buffer_kept v v' \<longleftrightarrow> (v_receiveBuffer v' = v_receiveBuffer v \<or> v_receiveBuffer v' = []) \<and>
     (v_connected v' \<longrightarrow> v_connected v \<and> v_receiveBuffer v' = v_receiveBuffer v)"

named_theorems buffer_rules

lemma buffer_kept_refl [buffer_rules]: "buffer_kept v v"
  by (simp add: buffer_kept_def)

lemma buffer_kept_trans: "buffer_kept v v' \<Longrightarrow> buffer_kept v' v'' \<Longrightarrow> buffer_kept v v''"
  by (auto simp: buffer_kept_def)

lemma buffer_kept_fold:
  "(\<And>x v. buffer_kept v (f x v)) \<Longrightarrow> buffer_kept v (fold f xs v)"
  by (induction xs arbitrary: v) (auto simp: buffer_kept_refl intro: buffer_kept_trans)

lemma buffer_disconnect [buffer_rules]: "buffer_kept v (v_disconnect now err b v)"
  by (simp add: v_disconnect_def buffer_kept_def Let_def act_def failAll_def)

lemma buffer_sendDocument [buffer_rules]: "buffer_kept v (snd (sendDocument env doc v))"
  by (auto simp: sendDocument_def buffer_rules) (simp add: buffer_kept_def act_def)

lemma buffer_same:
  "v_receiveBuffer v' = v_receiveBuffer v \<Longrightarrow> v_connected v' = v_connected v \<Longrightarrow> buffer_kept v v'"
  by (simp add: buffer_kept_def)

lemma buffer_kept_via:
  "buffer_kept v1 v2 \<Longrightarrow> v_receiveBuffer v1 = v_receiveBuffer v \<Longrightarrow> v_receiveBuffer v' = v_receiveBuffer v2 \<Longrightarrow>
   v_connected v1 = v_connected v \<Longrightarrow> v_connected v' = v_connected v2 \<Longrightarrow> buffer_kept v v'"
  by (simp add: buffer_kept_def)

lemma buffer_sendControl [buffer_rules]: "buffer_kept v (snd (sendControl env op h v))"
proof (cases "v_connected v")
  case True
  define d where "d = control_doc (v_nextRequestId v) op h"
  define v1 where "v1 = v\<lparr>v_nextRequestId := v_nextRequestId v + 1,
      v_controls := (case map_of (v_controls v) (v_nextRequestId v) of
          None \<Rightarrow> om_put (v_nextRequestId v) \<lparr>vc_op = op, vc_seedHash = h, vc_sentAtMs = ve_now env\<rparr> (v_controls v)
        | Some _ \<Rightarrow> v_controls v)\<rparr>"
  obtain b v2 where sd: "sendDocument env d v1 = (b, v2)" by fastforce
  have "v_receiveBuffer (snd (sendControl env op h v)) = v_receiveBuffer v2 \<and>
      v_connected (snd (sendControl env op h v)) = v_connected v2"
    using True sd by (cases b) (simp_all add: sendControl_def Let_def flip: d_def v1_def)
  moreover have "buffer_kept v1 v2" using buffer_sendDocument [of v1 env d] sd by simp
  moreover have "v_receiveBuffer v1 = v_receiveBuffer v" "v_connected v1 = v_connected v" by (simp_all add: v1_def)
  ultimately show ?thesis by (simp add: buffer_kept_def)
qed (simp add: sendControl_def buffer_kept_refl)

lemma buffer_request_seed [buffer_rules]: "buffer_kept v (request_seed env h v)"
  using buffer_sendControl [of v env "''prepare_seed''" h]
  by (auto simp: request_seed_def buffer_kept_def split: option.split prod.split bool.split)

lemma buffer_requestWantedSeeds [buffer_rules]: "buffer_kept v (requestWantedSeeds env v)"
  unfolding requestWantedSeeds_def Let_def by (rule buffer_kept_fold) (auto simp: buffer_rules)

lemma buffer_requestStats [buffer_rules]: "buffer_kept v (requestStats env v)"
  using buffer_sendControl [of "v\<lparr>v_nextStatsAtMs := ve_now env + kStatsIntervalMs\<rparr>" env "''stats''" "[]"]
  by (auto simp: requestStats_def Let_def buffer_kept_def)

lemma buffer_control_response [buffer_rules]: "buffer_kept v (control_response env c doc v)"
proof -
  have "buffer_kept v (requestStats env (requestWantedSeeds env v'))" if "v_receiveBuffer v' = v_receiveBuffer v" "v_connected v' = v_connected v" for v'
    using buffer_requestWantedSeeds [of v' env] buffer_requestStats [of "requestWantedSeeds env v'" env] that
    by (auto simp: buffer_kept_def)
  then show ?thesis
    by (auto simp: control_response_def Let_def buffer_rules split: option.split intro: buffer_same)
qed

lemma buffer_handleFrame: "buffer_kept v (v_handleFrame parse env body v)"
proof -
  have "buffer_kept v (v_handleResponse env doc v)" for doc
  proof -
    have "buffer_kept v (control_response env c doc (v\<lparr>v_controls := cs\<rparr>))" for c cs
      by (rule buffer_kept_via [OF buffer_control_response]) simp_all
    then show ?thesis
      by (auto simp: v_handleResponse_def Let_def buffer_rules act_def split: option.split intro: buffer_same)
  qed
  then show ?thesis
    by (auto simp: v_handleFrame_def buffer_rules split: option.split json.split)
qed

function parseFrames :: "(string \<Rightarrow> json option) \<Rightarrow> verify_env \<Rightarrow> 'cb verifier \<Rightarrow> 'cb verifier" where
  "parseFrames parse env v =
     (let buf = v_receiveBuffer v in
      if length buf < 4 then v
      else
        let n = frame_size buf in
        if n = 0 \<or> kMaxFrameSize < n then v_disconnect (ve_now env) ''invalid verifier frame length'' True v
        else if length buf < 4 + n then v
        else
          let v1 = v_handleFrame parse env (take n (drop 4 buf)) v in
          if \<not> v_connected v1 then v1
          else parseFrames parse env (v1\<lparr>v_receiveBuffer := drop (4 + n) (v_receiveBuffer v1)\<rparr>))"
  by pat_completeness auto

termination
proof (relation "measure (\<lambda>(parse, env, v). length (v_receiveBuffer v))")
  fix parse :: "string \<Rightarrow> json option" and env :: verify_env and v :: "'cb verifier" and buf n v1
  assume "buf = v_receiveBuffer v" "\<not> length buf < 4" "v1 = v_handleFrame parse env (take n (drop 4 buf)) v"
  then show "((parse, env, v1\<lparr>v_receiveBuffer := drop (4 + n) (v_receiveBuffer v1)\<rparr>), parse, env, v)
      \<in> measure (\<lambda>(parse, env, v). length (v_receiveBuffer v))"
    using buffer_handleFrame [of v parse env "take n (drop 4 buf)"] by (auto simp: buffer_kept_def)
qed simp

declare parseFrames.simps [simp del]

definition v_onRead :: "(string \<Rightarrow> json option) \<Rightarrow> verify_env \<Rightarrow> string \<Rightarrow> 'cb verifier \<Rightarrow> 'cb verifier" where
  "v_onRead parse env bytes v = parseFrames parse env (v\<lparr>v_receiveBuffer := v_receiveBuffer v @ bytes\<rparr>)"

definition v_onReadError :: "u64 \<Rightarrow> 'cb verifier \<Rightarrow> 'cb verifier" where
  "v_onReadError now v = v_disconnect now ''read'' True v"

end
