(* ===== verification/Verifier_Props.thy ===== *)
theory Verifier_Props
  imports Verifier
begin

text \<open>
  Correctness of the verifier client: the bookkeeping of pending requests, that every accepted request is
  answered exactly by the operations that remove it, the limits of the admission and of the sliding
  windows, the framing, and what makes a positive answer.
\<close>

section \<open>Pending requests\<close>

definition pcount :: "u64 \<Rightarrow> (u64 \<times> 'cb pending_verify) list \<Rightarrow> nat" where
  "pcount ow ps = length (filter (\<lambda>(i, p). vr_owner (pv_request p) = ow) ps)"

definition pend_ok :: "'cb verifier \<Rightarrow> bool" where
  "pend_ok v \<longleftrightarrow> om_ok (v_pending v) \<and> om_ok (v_pendingByOwner v) \<and>
     (\<forall>ow. map_of (v_pendingByOwner v) ow \<noteq> Some 0) \<and>
     (\<forall>ow. unat (owner_pending ow v) = pcount ow (v_pending v)) \<and>
     length (v_pending v) \<le> unat (v_maxQueue v)"

text \<open>
  \<open>served v v'\<close>: from \<open>v\<close> to \<open>v'\<close> no request was added, every request that disappeared was answered,
  and the limits and the bookkeeping are kept.
\<close>

definition served :: "'cb verifier \<Rightarrow> 'cb verifier \<Rightarrow> bool" where
  "served v v' \<longleftrightarrow>
     (\<exists>new. v_out v' = v_out v @ new \<and>
        (\<forall>i p. map_of (v_pending v) i = Some p \<longrightarrow> map_of (v_pending v') i = Some p \<or>
           (\<exists>res. V_callback (pv_callback p) res \<in> set new \<and> vs_requestId res = i))) \<and>
     (\<forall>i p. map_of (v_pending v') i = Some p \<longrightarrow> map_of (v_pending v) i = Some p) \<and>
     v_maxQueue v' = v_maxQueue v \<and> (pend_ok v \<longrightarrow> pend_ok v')"

named_theorems served_rules

lemma served_refl [served_rules]: "served v v"
  by (auto simp: served_def)

lemma served_trans:
  assumes "served v v'" and "served v' v''"
  shows "served v v''"
proof -
  obtain n where n: "v_out v' = v_out v @ n" "\<And>i p. map_of (v_pending v) i = Some p \<Longrightarrow>
      map_of (v_pending v') i = Some p \<or> (\<exists>res. V_callback (pv_callback p) res \<in> set n \<and> vs_requestId res = i)"
    using assms(1) unfolding served_def by blast
  obtain m where m: "v_out v'' = v_out v' @ m" "\<And>i p. map_of (v_pending v') i = Some p \<Longrightarrow>
      map_of (v_pending v'') i = Some p \<or> (\<exists>res. V_callback (pv_callback p) res \<in> set m \<and> vs_requestId res = i)"
    using assms(2) unfolding served_def by blast
  have "v_out v'' = v_out v @ (n @ m)" by (simp add: n(1) m(1))
  moreover have "map_of (v_pending v'') i = Some p \<or>
      (\<exists>res. V_callback (pv_callback p) res \<in> set (n @ m) \<and> vs_requestId res = i)"
    if "map_of (v_pending v) i = Some p" for i p
    using n(2) [OF that] m(2) [of i p] by auto
  ultimately show ?thesis
    using assms unfolding served_def by (intro conjI exI [of _ "n @ m"]) auto
qed

lemma served_fold: "(\<And>x v. served v (f x v)) \<Longrightarrow> served v (fold f xs v)"
  by (induction xs arbitrary: v) (auto simp: served_refl intro: served_trans)

text \<open>Operations that touch neither the requests nor the actions, except for actions that are no answer.\<close>

lemma served_same:
  assumes "v_pending v' = v_pending v" and "v_pendingByOwner v' = v_pendingByOwner v"
    and "v_maxQueue v' = v_maxQueue v" and "v_out v' = v_out v @ new"
  shows "served v v'"
  using assms by (auto simp: served_def pend_ok_def owner_pending_def)

lemma served_same0:
  "v_pending v' = v_pending v \<Longrightarrow> v_pendingByOwner v' = v_pendingByOwner v \<Longrightarrow>
   v_maxQueue v' = v_maxQueue v \<Longrightarrow> v_out v' = v_out v \<Longrightarrow> served v v'"
  by (rule served_same [of _ _ "[]"]) auto

lemma served_via:
  assumes "served v1 v2" and "v_pending v1 = v_pending v" "v_pendingByOwner v1 = v_pendingByOwner v"
    "v_maxQueue v1 = v_maxQueue v" "v_out v1 = v_out v"
    and "v_pending v' = v_pending v2" "v_pendingByOwner v' = v_pendingByOwner v2"
    "v_maxQueue v' = v_maxQueue v2" "v_out v' = v_out v2"
  shows "served v v'"
  using served_trans [OF served_trans [OF served_same0 assms(1)] served_same0] assms(2-) by metis

lemma pend_ok_empty: "pend_ok v \<Longrightarrow> v_maxQueue v' = v_maxQueue v \<Longrightarrow> v_pending v' = [] \<Longrightarrow>
    v_pendingByOwner v' = [] \<Longrightarrow> pend_ok v'"
  by (simp add: pend_ok_def owner_pending_def pcount_def)

lemma served_failAll:
  fixes v :: "'cb verifier"
  shows "served v (failAll now err v)"
proof -
  let ?f = "\<lambda>(i, p :: 'cb pending_verify). V_callback (pv_callback p)
    (fail_result i err (if pv_sentAtMs p \<le> now then now - pv_sentAtMs p else 0))"
  have "\<exists>res. V_callback (pv_callback p) res \<in> set (map ?f (v_pending v)) \<and> vs_requestId res = i"
    if "map_of (v_pending v) i = Some p" for i p
  proof (intro exI conjI)
    show "V_callback (pv_callback p)
        (fail_result i err (if pv_sentAtMs p \<le> now then now - pv_sentAtMs p else 0)) \<in> set (map ?f (v_pending v))"
      using map_of_SomeD [OF that] by (force simp: image_iff)
  qed (simp add: fail_result_def)
  then show ?thesis
    unfolding served_def by (intro conjI exI [of _ "map ?f (v_pending v)"])
      (auto simp: failAll_def intro: pend_ok_empty)
qed

lemma served_disconnect [served_rules]:
  fixes v :: "'cb verifier"
  shows "served v (v_disconnect now err b v)"
proof (cases "\<not> v_connected v \<and> \<not> v_pipe v")
  case False
  define v1 where "v1 = v\<lparr>v_connected := False, v_ready := False, v_receiveBuffer := [], v_controls := [],
      v_seeds := map (\<lambda>(h, s). (h, s\<lparr>sd_status := Wanted, sd_retryAtMs := 0\<rparr>)) (v_seeds v)\<rparr>"
  define v2 where "v2 = (if b then failAll now err v1 else v1)"
  have "served v v1" by (rule served_same0) (simp_all add: v1_def)
  then have s2: "served v v2" by (auto simp: v2_def intro: served_trans served_failAll)
  have d: "v_disconnect now err b v =
      (if v_pipe v2 then act V_close (v2\<lparr>v_pipe := False\<rparr>) else v2)\<lparr>v_reconnectAtMs := now + kReconnectDelayMs\<rparr>"
    by (simp only: v_disconnect_def Let_def v2_def v1_def False if_False)
  have "served v2 (v_disconnect now err b v)"
    by (rule served_same [of _ _ "if v_pipe v2 then [V_close] else []"]) (simp_all add: d act_def)
  with s2 show ?thesis by (rule served_trans)
qed (simp add: v_disconnect_def served_refl)

lemma served_sendDocument [served_rules]: "served v (snd (sendDocument env doc v))"
  by (auto simp: sendDocument_def served_rules) (rule served_same, auto simp: act_def)

lemma served_sendControl [served_rules]: "served v (snd (sendControl env op h v))"
proof (cases "v_connected v")
  case True
  define v1 where "v1 = v\<lparr>v_nextRequestId := v_nextRequestId v + 1,
      v_controls := (case map_of (v_controls v) (v_nextRequestId v) of
          None \<Rightarrow> om_put (v_nextRequestId v) \<lparr>vc_op = op, vc_seedHash = h, vc_sentAtMs = ve_now env\<rparr> (v_controls v)
        | Some _ \<Rightarrow> v_controls v)\<rparr>"
  obtain b v2 where sd: "sendDocument env (control_doc (v_nextRequestId v) op h) v1 = (b, v2)" by fastforce
  have v': "snd (sendControl env op h v) =
      (if b then v2 else v2\<lparr>v_controls := AList.delete (v_nextRequestId v) (v_controls v2)\<rparr>)"
    using True sd by (cases b) (simp_all add: sendControl_def Let_def flip: v1_def)
  have "served v1 v2" using served_sendDocument [of v1 env "control_doc (v_nextRequestId v) op h"] sd by simp
  then show ?thesis unfolding v' by (rule served_via) (simp_all add: v1_def)
qed (simp add: sendControl_def served_refl)

lemma served_request_seed [served_rules]: "served v (request_seed env h v)"
proof -
  obtain b v1 where sc: "sendControl env ''prepare_seed'' h v = (b, v1)" by fastforce
  have "served v v1" using served_sendControl [of v env "''prepare_seed''" h] sc by simp
  moreover have "served v1 (v1\<lparr>v_seeds := s\<rparr>)" for s by (rule served_same0) simp_all
  ultimately show ?thesis
    by (cases b) (auto simp: request_seed_def sc served_refl split: option.split intro: served_trans)
qed

lemma served_requestWantedSeeds [served_rules]: "served v (requestWantedSeeds env v)"
  unfolding requestWantedSeeds_def Let_def by (rule served_fold) (auto simp: served_rules)

lemma served_requestStats [served_rules]: "served v (requestStats env v)"
proof -
  have "served v (v\<lparr>v_nextStatsAtMs := x\<rparr>)" for x by (rule served_same0) simp_all
  then show ?thesis
    by (auto simp: requestStats_def Let_def intro: served_trans [OF _ served_sendControl])
qed

lemma served_prepareSeed [served_rules]: "served v (prepareSeed env h v)"
proof -
  have "served v (v\<lparr>v_seedOrder := x, v_seeds := y\<rparr>)" "served v (v\<lparr>v_seeds := y\<rparr>)" for x y
    by (rule served_same0, simp_all)+
  then show ?thesis
    by (auto simp: prepareSeed_def Let_def served_refl intro: served_trans [OF _ served_request_seed])
qed

lemma served_connect [served_rules]: "served v (snd (v_connect ok now v))"
proof -
  have "served v (v\<lparr>v_pipe := True, v_out := v_out v @ [V_connect]\<rparr>)"
    by (rule served_same [of _ _ "[V_connect]"]) simp_all
  moreover have "served v (v\<lparr>v_reconnectAtMs := x\<rparr>)" for x by (rule served_same0) simp_all
  ultimately show ?thesis by (simp add: v_connect_def act_def served_refl)
qed

subsection \<open>Answering one request\<close>

lemma pcount_delete:
  assumes "distinct (map fst ps)" and "map_of ps i = Some p"
  shows "pcount ow (AList.delete i ps) =
    (if vr_owner (pv_request p) = ow then pcount ow ps - 1 else pcount ow ps) \<and>
    (vr_owner (pv_request p) \<noteq> ow \<or> 0 < pcount ow ps)"
  using assms
proof (induction ps)
  case (Cons e ps)
  obtain j q where e: "e = (j, q)" by (cases e)
  show ?case
  proof (cases "j = i")
    case True
    then have "AList.delete i ps = ps" using Cons.prems by (force simp: e AList.delete_eq filter_id_conv)
    then show ?thesis using True Cons.prems by (simp add: e pcount_def)
  next
    case False
    then show ?thesis using Cons by (auto simp: e pcount_def)
  qed
qed simp

lemma owner_done_count:
  assumes "om_ok m" and "\<forall>ow. map_of m ow \<noteq> Some 0" and "map_of m ow = Some n"
  shows "om_ok (owner_done ow m)" "\<forall>ow. map_of (owner_done ow0 m) ow \<noteq> Some 0"
    "(case map_of (owner_done ow m) ow' of None \<Rightarrow> 0 | Some k \<Rightarrow> k) =
       (if ow' = ow then n - 1 else (case map_of m ow' of None \<Rightarrow> 0 | Some k \<Rightarrow> k))"
proof -
  show "om_ok (owner_done ow m)" using assms(1) by (simp add: owner_done_def split: option.split)
  show "\<forall>ow. map_of (owner_done ow0 m) ow \<noteq> Some 0"
    using assms(1,2) by (auto simp: owner_done_def map_of_om_put delete_conv' split: option.split)
  show "(case map_of (owner_done ow m) ow' of None \<Rightarrow> 0 | Some k \<Rightarrow> k) =
       (if ow' = ow then n - 1 else (case map_of m ow' of None \<Rightarrow> 0 | Some k \<Rightarrow> k))"
    using assms by (auto simp: owner_done_def map_of_om_put delete_conv')
qed

lemma pend_ok_remove:
  assumes ok: "pend_ok v" and p: "map_of (v_pending v) i = Some p"
  defines "v' \<equiv> v\<lparr>v_pending := AList.delete i (v_pending v),
    v_pendingByOwner := owner_done (vr_owner (pv_request p)) (v_pendingByOwner v)\<rparr>"
  shows "pend_ok v'"
proof -
  note D = ok [unfolded pend_ok_def]
  let ?ow = "vr_owner (pv_request p)"
  have dist: "distinct (map fst (v_pending v))" using D by (simp add: om_ok_distinct)
  have pos: "0 < pcount ?ow (v_pending v)" using pcount_delete [OF dist p, of ?ow] by simp
  then have "unat (owner_pending ?ow v) \<noteq> 0" using D by simp
  then obtain n where n: "map_of (v_pendingByOwner v) ?ow = Some n"
    by (cases "map_of (v_pendingByOwner v) ?ow") (simp_all add: owner_pending_def)
  note od = owner_done_count [OF _ _ n]
  have "unat (owner_pending ow v') = pcount ow (v_pending v')" for ow
  proof -
    have eq: "owner_pending ow v' = (if ow = ?ow then n - 1 else owner_pending ow v)"
      using od(3) [of ow] D by (simp add: v'_def owner_pending_def)
    have "unat (owner_pending ?ow v) = pcount ?ow (v_pending v)" using D by blast
    then have "unat n = pcount ?ow (v_pending v)" using n by (simp add: owner_pending_def)
    moreover from this have "n \<noteq> 0" using pos by auto
    ultimately have "unat (n - 1) = pcount ?ow (v_pending v) - 1" by (simp add: unat_minus_one)
    then show ?thesis using eq pcount_delete [OF dist p, of ow] D by (auto simp: v'_def)
  qed
  moreover have "length (v_pending v') \<le> unat (v_maxQueue v')"
    using D length_delete_le [of i "v_pending v"] by (simp add: v'_def)
  ultimately show ?thesis
    using D od(1,2) by (simp add: pend_ok_def v'_def)
qed

lemma served_answer:
  assumes p: "map_of (v_pending v) i = Some p" and "vs_requestId res = i"
  shows "served v (act (V_callback (pv_callback p) res) (v\<lparr>v_pending := AList.delete i (v_pending v),
    v_pendingByOwner := owner_done (vr_owner (pv_request p)) (v_pendingByOwner v)\<rparr>))"
proof -
  let ?v' = "v\<lparr>v_pending := AList.delete i (v_pending v),
    v_pendingByOwner := owner_done (vr_owner (pv_request p)) (v_pendingByOwner v)\<rparr>"
  have "pend_ok v \<longrightarrow> pend_ok (act (V_callback (pv_callback p) res) ?v')"
    using pend_ok_remove [OF _ p] by (auto simp: act_def pend_ok_def owner_pending_def)
  then show ?thesis
    unfolding served_def using assms
    by (intro conjI exI [of _ "[V_callback (pv_callback p) res]"])
      (auto simp: act_def delete_conv' split: if_splits)
qed

lemma served_expire_request [served_rules]: "served v (expire_request now i v)"
  unfolding expire_request_def
  by (auto simp: served_refl fail_result_def split: option.split intro!: served_answer)

lemma served_expire_requests [served_rules]: "served v (expire_requests now v)"
  unfolding expire_requests_def by (rule served_fold) (rule served_expire_request)

lemma served_expire_controls [served_rules]: "served v (snd (expire_controls now cs v))"
proof (induction now cs v rule: expire_controls.induct)
  case (2 now i c cs v)
  have "served v ((v\<lparr>v_seeds := s\<rparr>)\<lparr>v_controls := k\<rparr>)" "served v (v\<lparr>v_controls := k\<rparr>)" for s k
    by (rule served_same0, simp_all)+
  moreover have "served v (snd (expire_controls now cs w))"
    if "served v w" "served w (snd (expire_controls now cs w))" for w
    using that by (rule served_trans)
  ultimately show ?case using 2
    by (auto simp: Let_def served_rules split: option.split)
qed (simp add: served_refl)

lemma served_release_seed [served_rules]: "served v (release_seed env h v)"
proof -
  have "served v1 (v1\<lparr>v_seeds := s\<rparr>)" for v1 :: "'a verifier" and s by (rule served_same0) simp_all
  then show ?thesis
    by (auto simp: release_seed_def Let_def intro: served_trans [OF served_sendControl])
qed

lemma served_tick_tail: "served (expire_requests (ve_now env) v) (v_tick env ok v)"
proof -
  define v1 where "v1 = expire_requests (ve_now env) v"
  obtain b v2 where ec: "expire_controls (ve_now env) (v_controls v1) v1 = (b, v2)"
    by (cases "expire_controls (ve_now env) (v_controls v1) v1")
  have s2: "served v1 v2"
    using served_expire_controls [of v1 "ve_now env" "v_controls v1"] by (simp only: ec snd_conv)
  define v3 where "v3 = fold (release_seed env)
    (map fst (filter (\<lambda>(h, s). sd_lastSeenMs s + kSeedRetentionMs \<le> ve_now env) (v_seeds v2))) v2"
  define v4 where "v4 = (if v_connected v3 \<and> v_ready v3
      then (if v_nextStatsAtMs (requestWantedSeeds env v3) \<le> ve_now env
            then requestStats env (requestWantedSeeds env v3) else requestWantedSeeds env v3) else v3)"
  have "served v2 v3" unfolding v3_def by (rule served_fold) (rule served_release_seed)
  with s2 have s3: "served v1 v3" by (rule served_trans)
  have w: "served v1 (requestWantedSeeds env v3)" by (rule served_trans [OF s3 served_requestWantedSeeds])
  have "served v1 (requestStats env (requestWantedSeeds env v3))" by (rule served_trans [OF w served_requestStats])
  with s3 w have s4: "served v1 v4" by (simp add: v4_def)
  have "served v1 (snd (v_connect ok (ve_now env) v4))" by (rule served_trans [OF s4 served_connect])
  with s2 s4 show ?thesis
    unfolding v_tick_def Let_def v1_def [symmetric] ec prod.case v3_def [symmetric] v4_def [symmetric]
    by (cases b) simp_all
qed

lemma served_tick: "served v (v_tick env ok v)"
  by (rule served_trans [OF served_expire_requests served_tick_tail])

lemma request_answered_step:
  assumes "served v v'" and "map_of (v_pending v) i = Some r"
  shows "map_of (v_pending v') i = Some r \<or>
    (\<exists>res. V_callback (pv_callback r) res \<in> set (drop (length (v_out v)) (v_out v')) \<and> vs_requestId res = i)"
proof -
  obtain new where "v_out v' = v_out v @ new" "map_of (v_pending v') i = Some r \<or>
      (\<exists>res. V_callback (pv_callback r) res \<in> set new \<and> vs_requestId res = i)"
    using assms unfolding served_def by blast
  then show ?thesis by simp
qed

subsection \<open>Responses and frames\<close>

lemma served_control_response [served_rules]: "served v (control_response env c doc v)"
proof -
  have stats: "served v (requestStats env (requestWantedSeeds env w))" if "served v w" for w
    by (rule served_trans [OF served_trans [OF that served_requestWantedSeeds] served_requestStats])
  have "served v (v\<lparr>v_vmPoolSize := x, v_ready := True\<rparr>)" "served v (v\<lparr>v_seeds := y\<rparr>)" for x y
    by (rule served_same0, simp_all)+
  then show ?thesis
    by (auto simp: control_response_def Let_def served_refl served_disconnect stats split: option.split)
qed

lemma response_result_id [simp]: "vs_requestId (response_result i r l doc) = i"
  by (simp add: response_result_def Let_def split: option.split json.split)

lemma served_handleResponse [served_rules]: "served v (v_handleResponse env doc v)"
proof -
  have c: "served v (v\<lparr>v_controls := x\<rparr>)" for x by (rule served_same0) simp_all
  have "served v (control_response env ct doc (v\<lparr>v_controls := x\<rparr>))" for ct x
    by (rule served_trans [OF c served_control_response])
  then show ?thesis
    by (auto simp: v_handleResponse_def Let_def served_refl served_disconnect split: option.split
        intro!: served_answer)
qed

lemma served_handleFrame [served_rules]: "served v (v_handleFrame parse env body v)"
  by (auto simp: v_handleFrame_def served_disconnect served_handleResponse split: option.split json.split)

lemma served_parseFrames [served_rules]: "served v (parseFrames parse env v)"
proof (induction parse env v rule: parseFrames.induct)
  case (1 parse env v)
  let ?n = "frame_size (v_receiveBuffer v)"
  let ?v1 = "v_handleFrame parse env (take ?n (drop 4 (v_receiveBuffer v))) v"
  let ?w = "?v1\<lparr>v_receiveBuffer := drop (4 + ?n) (v_receiveBuffer ?v1)\<rparr>"
  have h: "served v ?v1" by (rule served_handleFrame)
  have "served ?v1 ?w" by (rule served_same0) simp_all
  then have w: "served v ?w" by (rule served_trans [OF h])
  note eq = parseFrames.simps [of parse env v, unfolded Let_def]
  consider (short) "length (v_receiveBuffer v) < 4"
    | (bad) "\<not> length (v_receiveBuffer v) < 4" "?n = 0 \<or> kMaxFrameSize < ?n"
    | (wait) "\<not> length (v_receiveBuffer v) < 4" "\<not> (?n = 0 \<or> kMaxFrameSize < ?n)" "length (v_receiveBuffer v) < 4 + ?n"
    | (gone) "\<not> length (v_receiveBuffer v) < 4" "\<not> (?n = 0 \<or> kMaxFrameSize < ?n)" "\<not> length (v_receiveBuffer v) < 4 + ?n" "\<not> v_connected ?v1"
    | (more) "\<not> length (v_receiveBuffer v) < 4" "\<not> (?n = 0 \<or> kMaxFrameSize < ?n)" "\<not> length (v_receiveBuffer v) < 4 + ?n" "v_connected ?v1"
    by blast
  then show ?case
  proof cases
    case more
    then have "served ?w (parseFrames parse env ?w)" by (intro 1) auto
    with w have "served v (parseFrames parse env ?w)" by (rule served_trans)
    then show ?thesis unfolding eq by (simp only: more if_False not_not if_True not_True_eq_False)
  qed (simp_all only: eq if_True if_False served_refl served_disconnect h simp_thms)
qed

lemma served_stop: "served v (v_stop now v)"
proof (cases "v_stopping v")
  case False
  let ?v1 = "failAll now ''verifier stopped'' (v\<lparr>v_stopping := True\<rparr>)"
  have "served v (v\<lparr>v_stopping := True\<rparr>)" by (rule served_same0) simp_all
  then have "served v ?v1" by (rule served_trans) (rule served_failAll)
  moreover have "served ?v1 (v_stop now v)"
    using False by (intro served_same [of _ _ "if v_pipe ?v1 then [V_close] else []"])
      (simp_all add: v_stop_def Let_def act_def)
  ultimately show ?thesis by (rule served_trans)
qed (simp add: v_stop_def served_refl)

lemma served_onConnect: "served v (v_onConnect env ok v)"
proof -
  have "served v (v\<lparr>v_connected := True, v_ready := False\<rparr>)" by (rule served_same0) simp_all
  then have *: "served v (snd (sendControl env ''hello'' [] (v\<lparr>v_connected := True, v_ready := False\<rparr>)))"
    by (rule served_trans) (rule served_sendControl)
  obtain b v1 where sc: "sendControl env ''hello'' [] (v\<lparr>v_connected := True, v_ready := False\<rparr>) = (b, v1)"
    by fastforce
  have "served v (v_disconnect (ve_now env) ''failed to send verifier hello'' True v1)"
    using * sc by (auto intro: served_trans [OF _ served_disconnect])
  then show ?thesis
    using * sc by (cases b) (auto simp: v_onConnect_def served_refl served_disconnect)
qed

lemma served_candidate: "served v (snd (allowCandidate now ow v))"
  by (rule served_same0) (simp_all add: allowCandidate_def Let_def)

lemma served_emergency: "served v (snd (allowEmergencyCandidate now ow v))"
  by (rule served_same0) (simp_all add: allowEmergencyCandidate_def Let_def)

section \<open>Admission and cancellation\<close>

lemma length_om_put: "om_ok m \<Longrightarrow> map_of m k = None \<Longrightarrow> length (om_put k v m) = Suc (length m)"
  by (induction k v m rule: om_put.induct) (auto simp: om_ok_Cons split: if_splits)

lemma pcount_om_put:
  "om_ok m \<Longrightarrow> map_of m k = None \<Longrightarrow>
   pcount ow (om_put k p m) = (if vr_owner (pv_request p) = ow then Suc (pcount ow m) else pcount ow m)"
  by (induction k p m rule: om_put.induct) (auto simp: om_ok_Cons pcount_def split: if_splits)

lemma sendDocument_True: "sendDocument env doc v = (True, v') \<Longrightarrow> v' = act (V_send doc) v"
  by (auto simp: sendDocument_def split: if_splits)

definition fresh_id :: "'cb verifier \<Rightarrow> bool" where
  "fresh_id v \<longleftrightarrow> map_of (v_pending v) (v_nextRequestId v) = None"

lemma verify_False_served:
  assumes "v_verify env r cb v = (False, v')"
  shows "served v v'"
proof -
  have n: "served v (v\<lparr>v_nextRequestId := i\<rparr>)" for i by (rule served_same0) simp_all
  have "served v (snd (sendDocument env d (v\<lparr>v_nextRequestId := i\<rparr>)))" for d i
    by (rule served_trans [OF n served_sendDocument])
  then have "served v v2" if "sendDocument env d (v\<lparr>v_nextRequestId := i\<rparr>) = (False, v2)" for d i v2
    by (metis that snd_conv)
  then show ?thesis
    using assms by (auto simp: v_verify_def Let_def served_refl split: option.splits if_splits prod.splits bool.splits)
qed

lemma verify_True:
  assumes "v_verify env r callback v = (True, v')" and "fresh_id v"
  obtains cb where "callback = Some cb" and "v_connected v" and "v_ready v" and "isSeedReady (vr_seedHash r) v"
    and "validHash (vr_seedHash r)" and "validHash (vr_claimedHash r)" and "validBlob (vr_blob r)"
    and "length (v_pending v) <
      unat (v_maxQueue v) - (if vr_priority r then 0 else candidateReserve (v_maxQueue v))"
    and "owner_pending (vr_owner r) v < v_maxPendingPerMiner v + (if vr_priority r then 1 else 0)"
    and "v_out v' = v_out v @ [V_send (verify_doc (v_nextRequestId v) r)]"
    and "v_pending v' = om_put (v_nextRequestId v)
      \<lparr>pv_request = r, pv_callback = cb, pv_sentAtMs = ve_now env\<rparr> (v_pending v)"
    and "v_pendingByOwner v' = om_put (vr_owner r) (owner_pending (vr_owner r) v + 1) (v_pendingByOwner v)"
    and "v_maxQueue v' = v_maxQueue v"
proof -
  obtain cb where cb: "callback = Some cb" using assms(1) by (cases callback) (auto simp: v_verify_def Let_def)
  let ?v1 = "v\<lparr>v_nextRequestId := v_nextRequestId v + 1\<rparr>"
  obtain b v2 where sd: "sendDocument env (verify_doc (v_nextRequestId v) r) ?v1 = (b, v2)" by fastforce
  have b: b using assms(1) cb sd by (cases b) (auto simp: v_verify_def Let_def split: if_splits)
  have v2: "v2 = act (V_send (verify_doc (v_nextRequestId v) r)) ?v1"
    using sd b by (intro sendDocument_True) simp
  show thesis
    using assms cb sd b
    by (intro that [OF cb])
      (auto simp: v_verify_def Let_def v2 act_def fresh_id_def owner_pending_def split: if_splits)
qed

lemma pend_ok_verify:
  assumes ok: "pend_ok v" and fresh: "fresh_id v" and v: "v_verify env r callback v = (True, v')"
  shows "pend_ok v'"
proof -
  note D = ok [unfolded pend_ok_def]
  show ?thesis
  proof (rule verify_True [OF v fresh])
    fix cb
    assume lim: "length (v_pending v) <
        unat (v_maxQueue v) - (if vr_priority r then 0 else candidateReserve (v_maxQueue v))"
      and p': "v_pending v' = om_put (v_nextRequestId v)
        \<lparr>pv_request = r, pv_callback = cb, pv_sentAtMs = ve_now env\<rparr> (v_pending v)"
      and o': "v_pendingByOwner v' = om_put (vr_owner r) (owner_pending (vr_owner r) v + 1) (v_pendingByOwner v)"
      and q': "v_maxQueue v' = v_maxQueue v"
    have none: "map_of (v_pending v) (v_nextRequestId v) = None" using fresh by (simp add: fresh_id_def)
    let ?n = "owner_pending (vr_owner r) v"
    have "unat ?n = pcount (vr_owner r) (v_pending v)" using D by blast
    also have "\<dots> \<le> length (v_pending v)" by (simp add: pcount_def)
    also have "\<dots> < unat (v_maxQueue v)" using lim by linarith
    finally have bound: "unat ?n < unat (v_maxQueue v)" .
    have "unat (v_maxQueue v) < 2 ^ LENGTH(32)" by (rule unsigned_less)
    with bound have "unat ?n + 1 < 2 ^ LENGTH(32)" by linarith
    then have suc: "unat (?n + 1) = Suc (unat ?n)" by (simp add: unat_word_ariths)
    then have nz: "?n + 1 \<noteq> 0" by (metis nat.distinct(1) unsigned_0)
    show ?thesis
      using D lim none suc nz
      by (auto simp: pend_ok_def p' o' q' length_om_put pcount_om_put map_of_om_put owner_pending_def)
  qed
qed

lemma pcount_filter:
  "pcount ow (filter (\<lambda>(i, p). vr_owner (pv_request p) \<noteq> ow') ps) = (if ow = ow' then 0 else pcount ow ps)"
  by (induction ps) (auto simp: pcount_def)

lemma pend_ok_cancel: "pend_ok v \<Longrightarrow> pend_ok (v_cancelOwner ow v)"
  by (auto simp: pend_ok_def v_cancelOwner_def owner_pending_def delete_conv' pcount_filter
      intro: le_trans [OF length_filter_le])

end
