(* ===== verification/Verifier_Claims.thy ===== *)
theory Verifier_Claims
  imports Verifier_Props
begin

text \<open>
  Runs of the verifier client and the properties of its bookkeeping, admission, timeouts, answers and
  frames.
\<close>

section \<open>Runs\<close>












section \<open>Properties\<close>












section \<open>Admission\<close>

text \<open>The exact admission rule. A request is accepted precisely when the verifier is connected and
  ready, the queue has room, where requests that are no share candidates leave the reserve free, the
  connection has not used up its share of the queue, where a candidate has one slot more, the seed is
  ready, the texts are well formed and the pipe takes the document.\<close>

theorem verify_admission:
  "fst (v_verify env r (Some cb) v) \<longleftrightarrow>
     v_connected v \<and> v_ready v \<and> v_pipe v \<and>
     length (v_pending v) < unat (v_maxQueue v) - (if vr_priority r then 0 else candidateReserve (v_maxQueue v)) \<and>
     owner_pending (vr_owner r) v < v_maxPendingPerMiner v + (if vr_priority r then 1 else 0) \<and>
     (\<exists>s. map_of (v_seeds v) (vr_seedHash r) = Some s \<and> sd_status s = SeedReady) \<and>
     validHash (vr_seedHash r) \<and> validHash (vr_claimedHash r) \<and> validBlob (vr_blob r) \<and>
     ve_write env (verify_doc (v_nextRequestId v) r) = Written \<and>
     0 < ve_size env (verify_doc (v_nextRequestId v) r) \<and>
     ve_size env (verify_doc (v_nextRequestId v) r) \<le> kMaxFrameSize"
proof -
  have send: "fst (sendDocument env d w) \<longleftrightarrow> v_pipe w \<and> v_connected w \<and> ve_write env d = Written \<and>
      0 < ve_size env d \<and> ve_size env d \<le> kMaxFrameSize" for d and w :: "'a verifier"
    by (cases "ve_write env d") (auto simp: sendDocument_def)
  have "fst (case sendDocument env d w of (False, v2) \<Rightarrow> (False, v2) | (True, v2) \<Rightarrow> (True, f v2)) =
      fst (sendDocument env d w)" for d f and w :: "'a verifier"
    by (simp split: prod.split bool.split)
  then show ?thesis
    by (auto simp: v_verify_def Let_def send isSeedReady_def not_le split: option.splits)
qed

end
