(* ===== verification/Sliding_Window.thy ===== *)
theory Sliding_Window
  imports Prelude
begin

text \<open>
  Deques of times whose old entries leave from the front: the interface that the verifier's rate limits
  and the duplicate tables of the connections rely on. The lemmas show that a deque kept this way holds
  exactly the recent entries, so that a check of its length bounds the entries of every window position.
\<close>

section \<open>Sliding windows\<close>

locale sliding_window =
  fixes W :: u64 and slide :: "u64 \<Rightarrow> u64 list \<Rightarrow> u64 list"
  assumes slide_front: "slide now (t # w) = (if t + W \<le> now then slide now w else t # w)"
    and slide_empty: "slide now [] = []"
begin

definition in_range :: "u64 \<Rightarrow> bool" where
  "in_range now \<longleftrightarrow> unat now + unat W < 2 ^ 64"

lemma unat_plus_W: "in_range now \<Longrightarrow> t \<le> now \<Longrightarrow> unat (t + W) = unat t + unat W"
  by (simp add: in_range_def unat_word_ariths word_le_nat_alt)

lemma slide_recent:
  "sorted w \<Longrightarrow> \<forall>t \<in> set w. t \<le> now \<Longrightarrow> in_range now \<Longrightarrow> slide now w = filter (\<lambda>t. \<not> t + W \<le> now) w"
proof (induction w)
  case (Cons t w)
  show ?case
  proof (cases "t + W \<le> now")
    case False
    have "\<not> s + W \<le> now" if "s \<in> set w" for s
    proof -
      have "t \<le> s" "s \<le> now" "t \<le> now" using that Cons.prems by auto
      then show ?thesis
        using False unat_plus_W [OF Cons.prems(3), of t] unat_plus_W [OF Cons.prems(3), of s]
        by (simp add: word_le_nat_alt)
    qed
    then have "filter (\<lambda>t. \<not> t + W \<le> now) w = w" by (simp add: filter_id_conv)
    with False show ?thesis by (simp add: slide_front)
  qed (use Cons in \<open>simp add: slide_front\<close>)
qed (simp add: slide_empty)

text \<open>\<open>w\<close> is the log \<open>A\<close> of all entries without those that were too old at time \<open>t0\<close>.\<close>

definition tracks :: "u64 list \<Rightarrow> u64 list \<Rightarrow> u64 \<Rightarrow> bool" where
  "tracks A w t0 \<longleftrightarrow> (\<exists>old. A = old @ w \<and> (\<forall>t \<in> set old. t + W \<le> t0))"

lemma tracks_Nil [simp]: "tracks [] [] t0"
  by (simp add: tracks_def)

lemma tracks_slide:
  assumes "tracks A w t0" and "t0 \<le> now" and "sorted A" and "\<forall>t \<in> set A. t \<le> now" and "in_range now"
  shows "slide now w = filter (\<lambda>t. \<not> t + W \<le> now) A \<and> tracks A (slide now w) now"
proof -
  obtain old where A: "A = old @ w" and o: "\<forall>t \<in> set old. t + W \<le> t0"
    using assms(1) by (auto simp: tracks_def)
  have o': "\<forall>t \<in> set old. t + W \<le> now" using o assms(2) by auto
  have sl: "slide now w = filter (\<lambda>t. \<not> t + W \<le> now) w"
    using assms(3-5) by (intro slide_recent) (auto simp: A sorted_append)
  have "filter (\<lambda>t. \<not> t + W \<le> now) old = []" using o' by (simp add: filter_empty_conv)
  then have eq: "slide now w = filter (\<lambda>t. \<not> t + W \<le> now) A" by (simp add: A sl)
  have "\<exists>gone. w = gone @ slide now w \<and> (\<forall>t \<in> set gone. t + W \<le> now)"
  proof (induction w)
    case (Cons t w)
    then obtain gone where g: "w = gone @ slide now w" "\<forall>t \<in> set gone. t + W \<le> now" by blast
    show ?case
    proof (cases "t + W \<le> now")
      case True
      with g show ?thesis by (intro exI [of _ "t # gone"]) (simp add: slide_front)
    qed (simp add: slide_front)
  qed (simp add: slide_empty)
  then obtain gone where "w = gone @ slide now w" "\<forall>t \<in> set gone. t + W \<le> now" by blast
  then have "tracks A (slide now w) now"
    unfolding tracks_def using o' A by (intro exI [of _ "old @ gone"]) auto
  with eq show ?thesis ..
qed

lemma tracks_snoc: "tracks A w t0 \<Longrightarrow> tracks (A @ [t]) (w @ [t]) t0"
  by (auto simp: tracks_def)

lemma tracks_later: "tracks A w t0 \<Longrightarrow> t0 \<le> now \<Longrightarrow> tracks A w now"
  unfolding tracks_def by force

text \<open>At most \<open>L\<close> entries in every window of length \<open>W\<close>.\<close>

definition within :: "nat \<Rightarrow> u64 list \<Rightarrow> bool" where
  "within L A \<longleftrightarrow> (\<forall>t. length (filter (\<lambda>s. t \<le> s \<and> unat s < unat t + unat W) A) \<le> L)"

lemma within_Nil [simp]: "within L []"
  by (simp add: within_def)

lemma within_snoc:
  assumes "within L A" and "\<forall>t \<in> set A. t \<le> now" and "in_range now"
    and "length (filter (\<lambda>t. \<not> t + W \<le> now) A) < L"
  shows "within L (A @ [now])"
  unfolding within_def
proof
  fix t
  let ?P = "\<lambda>s :: u64. t \<le> s \<and> unat s < unat t + unat W"
  show "length (filter ?P (A @ [now])) \<le> L"
  proof (cases "?P now")
    case False
    then show ?thesis using assms(1) by (auto simp: within_def)
  next
    case True
    have "\<not> s + W \<le> now" if "s \<in> set A" "?P s" for s
      using that True assms(2) unat_plus_W [OF assms(3), of s] by (simp add: word_le_nat_alt)
    then have eq: "filter ?P A = filter ?P (filter (\<lambda>t. \<not> t + W \<le> now) A)"
      unfolding filter_filter by (intro filter_cong refl) blast
    have "length (filter ?P A) \<le> length (filter (\<lambda>t. \<not> t + W \<le> now) A)"
      by (subst eq) (rule length_filter_le)
    then show ?thesis using assms(4) True by simp
  qed
qed

end

end
