(* ===== verification/Verifier_Limits.thy ===== *)
theory Verifier_Limits
  imports Verifier_Claims Sliding_Window
begin

text \<open>
  The rate limits of the verifier client and its protocol. The windows of candidate times are an
  instance of the interface \<open>sliding_window\<close>, so the check of their lengths bounds every window
  position. The second part is about frames: the reader takes them apart as the writer builds them,
  however the stream is cut.
\<close>

interpretation rate: sliding_window kCandidateWindowMs slide
  by unfold_locales (simp_all add: slide_def)

section \<open>The candidate limits\<close>

text \<open>The calls of \<open>allowCandidate\<close> that were allowed, as pairs of time and connection.\<close>

fun candidate_log :: "(u64 \<times> u64) list \<Rightarrow> 'cb verifier \<Rightarrow> (u64 \<times> u64) list" where
  "candidate_log [] v = []"
| "candidate_log ((now, ow) # cs) v =
     (case allowCandidate now ow v of
        (allowed, v') \<Rightarrow> (if allowed then [(now, ow)] else []) @ candidate_log cs v')"

definition times_of :: "u64 \<Rightarrow> (u64 \<times> u64) list \<Rightarrow> u64 list" where
  "times_of ow A = map fst (filter (\<lambda>(t, o'). o' = ow) A)"

definition limits_ok :: "(u64 \<times> u64) list \<Rightarrow> u64 \<Rightarrow> 'cb verifier \<Rightarrow> bool" where
  "limits_ok A t0 v \<longleftrightarrow> om_ok (v_candidateWindows v) \<and> sorted (map fst A) \<and> (\<forall>t \<in> fst ` set A. t \<le> t0) \<and>
     (v_candidateLimit v \<noteq> 0 \<longrightarrow> (\<forall>ow. rate.tracks (times_of ow A) (window_of ow (v_candidateWindows v)) t0 \<and>
        rate.within (unat (v_candidateLimit v)) (times_of ow A))) \<and>
     (v_globalCandidateLimit v \<noteq> 0 \<longrightarrow> rate.tracks (map fst A) (v_globalWindow v) t0 \<and>
        rate.within (unat (v_globalCandidateLimit v)) (map fst A))"

lemma times_of_snoc: "times_of ow (A @ [(t, o')]) = (if o' = ow then times_of ow A @ [t] else times_of ow A)"
  by (simp add: times_of_def)

lemma times_of_sorted: "sorted (map fst A) \<Longrightarrow> sorted (times_of ow A)"
  unfolding times_of_def by (induction A) (auto simp: sorted_append)

lemma times_of_set: "set (times_of ow A) \<subseteq> fst ` set A"
  by (auto simp: times_of_def)

lemma window_of_put: "om_ok ws \<Longrightarrow> window_of ow' (om_put ow w ws) = (if ow' = ow then w else window_of ow' ws)"
  by (simp add: window_of_def map_of_om_put)

lemma limits_step:
  assumes L: "limits_ok A t0 v" and t: "t0 \<le> now" and r: "rate.in_range now"
    and step: "allowCandidate now ow v = (allowed, v')"
  shows "limits_ok (A @ (if allowed then [(now, ow)] else [])) now v' \<and>
    v_candidateLimit v' = v_candidateLimit v \<and> v_globalCandidateLimit v' = v_globalCandidateLimit v"
proof (cases "v_candidateLimit v = 0 \<and> v_globalCandidateLimit v = 0")
  case True
  then have "allowed" "v' = v" using step by (auto simp: allowCandidate_def)
  then show ?thesis using L t True by (auto simp: limits_ok_def sorted_append image_iff)
next
  case False
  note D = L [unfolded limits_ok_def]
  define w where "w = slide now (window_of ow (v_candidateWindows v))"
  define g where "g = slide now (v_globalWindow v)"
  have le: "\<forall>t \<in> set (map fst A). t \<le> now" "\<forall>t \<in> set (times_of o' A). t \<le> now" for o'
    using D t times_of_set [of o' A] by (fastforce, fastforce)
  have tw: "w = filter (\<lambda>t. \<not> t + kCandidateWindowMs \<le> now) (times_of ow A) \<and> rate.tracks (times_of ow A) w now"
    if "v_candidateLimit v \<noteq> 0"
    unfolding w_def using D that t r le by (intro rate.tracks_slide) (auto simp: times_of_sorted)
  have tg: "g = filter (\<lambda>t. \<not> t + kCandidateWindowMs \<le> now) (map fst A) \<and> rate.tracks (map fst A) g now"
    if "v_globalCandidateLimit v \<noteq> 0"
    unfolding g_def using D that t r le by (intro rate.tracks_slide) auto
  have other: "rate.tracks (times_of o' A) (window_of o' (v_candidateWindows v)) now" if "v_candidateLimit v \<noteq> 0" for o'
    using D that t by (auto intro: rate.tracks_later)
  show ?thesis
  proof (cases allowed)
    case False
    then have v': "v' = v\<lparr>v_candidateWindows := om_put ow w (v_candidateWindows v), v_globalWindow := g\<rparr>"
      using step \<open>\<not> (v_candidateLimit v = 0 \<and> v_globalCandidateLimit v = 0)\<close>
      by (auto simp: allowCandidate_def Let_def w_def g_def split: if_splits)
    show ?thesis
      using D False tw tg other le by (auto simp: limits_ok_def v' window_of_put)
  next
    case True
    then have room: "v_candidateLimit v \<noteq> 0 \<longrightarrow> length w < unat (v_candidateLimit v)"
        "v_globalCandidateLimit v \<noteq> 0 \<longrightarrow> length g < unat (v_globalCandidateLimit v)"
      and v': "v' = v\<lparr>v_candidateWindows := (if v_candidateLimit v \<noteq> 0
                  then om_put ow (w @ [now]) (om_put ow w (v_candidateWindows v))
                  else om_put ow w (v_candidateWindows v)),
                v_globalWindow := (if v_globalCandidateLimit v \<noteq> 0 then g @ [now] else g)\<rparr>"
      using step \<open>\<not> (v_candidateLimit v = 0 \<and> v_globalCandidateLimit v = 0)\<close>
      by (auto simp: allowCandidate_def Let_def w_def g_def split: if_splits)
    have "rate.within (unat (v_candidateLimit v)) (times_of ow A @ [now])" if "v_candidateLimit v \<noteq> 0"
      using D that room(1) tw r le by (intro rate.within_snoc) auto
    moreover have "rate.within (unat (v_globalCandidateLimit v)) (map fst A @ [now])" if "v_globalCandidateLimit v \<noteq> 0"
      using D that room(2) tg r le by (intro rate.within_snoc) auto
    ultimately show ?thesis
      using D True tw tg other le
      by (auto simp: limits_ok_def v' window_of_put times_of_snoc sorted_append rate.tracks_snoc)
  qed
qed

lemma limits_run:
  fixes v :: "'cb verifier"
  assumes "limits_ok A t0 v" and "sorted (t0 # map fst cs)" and "\<forall>t \<in> fst ` set cs. rate.in_range t"
  shows "\<exists>t (v' :: 'cb verifier). limits_ok (A @ candidate_log cs v) t v' \<and>
    v_candidateLimit v' = v_candidateLimit v \<and> v_globalCandidateLimit v' = v_globalCandidateLimit v"
  using assms
proof (induction cs arbitrary: A t0 v)
  case (Cons c cs)
  obtain now ow where c: "c = (now, ow)" by (cases c)
  obtain allowed v' where s: "allowCandidate now ow v = (allowed, v')" by (cases "allowCandidate now ow v")
  have st: "limits_ok (A @ (if allowed then [(now, ow)] else [])) now v' \<and>
      v_candidateLimit v' = v_candidateLimit v \<and> v_globalCandidateLimit v' = v_globalCandidateLimit v"
    using Cons.prems by (intro limits_step [OF Cons.prems(1) _ _ s]) (auto simp: c)
  have s1: "sorted (now # map fst cs)" using Cons.prems(2) by (simp add: c)
  have s2: "\<forall>t \<in> fst ` set cs. rate.in_range t" using Cons.prems(3) by simp
  note IH = Cons.IH [of "A @ (if allowed then [(now, ow)] else [])" now v', OF st [THEN conjunct1] s1 s2]
  from IH obtain t and w :: "'cb verifier" where "limits_ok ((A @ (if allowed then [(now, ow)] else [])) @ candidate_log cs v') t w"
    "v_candidateLimit w = v_candidateLimit v'" "v_globalCandidateLimit w = v_globalCandidateLimit v'" by blast
  then show ?case using st by (intro exI [of _ t] exI [of _ w]) (auto simp: c s)
qed auto

text \<open>C4: the candidate limits hold for every stretch of one minute, wherever it starts: among the calls of
  \<open>allowCandidate\<close> at non-decreasing times, at most the configured number is allowed per connection and
  at most the configured number in total; zero means no limit.\<close>

theorem candidate_rate_limit:
  assumes "sorted (map fst cs)" and "\<forall>t \<in> fst ` set cs. unat t + 60000 < 2 ^ 64"
    and allowed_def: "allowed = candidate_log cs (new_verifier path tm q p c g e m :: 'cb verifier)"
  shows "(c = 0 \<or> length (filter (\<lambda>(s, o'). o' = ow \<and> t \<le> s \<and> unat s < unat t + 60000) allowed) \<le> unat c) \<and>
    (g = 0 \<or> length (filter (\<lambda>(s, o'). t \<le> s \<and> unat s < unat t + 60000) allowed) \<le> unat g)"
proof -
  have "limits_ok [] 0 (new_verifier path tm q p c g e m :: 'cb verifier)"
    by (simp add: limits_ok_def new_verifier_def window_of_def times_of_def)
  moreover have "\<forall>t \<in> fst ` set cs. rate.in_range t"
    using assms(2) by (simp add: rate.in_range_def) (simp add: kCandidateWindowMs_def)
  moreover have "sorted (0 # map fst cs)" using assms(1) by simp
  ultimately have "\<exists>t' (v' :: 'cb verifier). limits_ok ([] @ candidate_log cs (new_verifier path tm q p c g e m :: 'cb verifier)) t' v' \<and>
      v_candidateLimit v' = v_candidateLimit (new_verifier path tm q p c g e m :: 'cb verifier) \<and>
      v_globalCandidateLimit v' = v_globalCandidateLimit (new_verifier path tm q p c g e m :: 'cb verifier)"
    by (intro limits_run)
  then obtain t' and v' :: "'cb verifier" where L: "limits_ok allowed t' v'" "v_candidateLimit v' = c" "v_globalCandidateLimit v' = g"
    by (auto simp: allowed_def new_verifier_def)
  have W: "unat kCandidateWindowMs = 60000" by (simp add: kCandidateWindowMs_def)
  have "length (filter (\<lambda>s. t \<le> s \<and> unat s < unat t + 60000) (times_of ow allowed)) \<le> unat c" if "c \<noteq> 0"
  proof -
    have "rate.within (unat c) (times_of ow allowed)" using L that by (simp add: limits_ok_def)
    then show ?thesis by (simp only: rate.within_def W)
  qed
  moreover have "length (filter (\<lambda>s. t \<le> s \<and> unat s < unat t + 60000) (map fst allowed)) \<le> unat g" if "g \<noteq> 0"
  proof -
    have "rate.within (unat g) (map fst allowed)" using L that by (simp add: limits_ok_def)
    then show ?thesis by (simp only: rate.within_def W)
  qed
  moreover have "length (filter (\<lambda>s. t \<le> s \<and> unat s < unat t + 60000) (times_of ow allowed)) =
      length (filter (\<lambda>(s, o'). o' = ow \<and> t \<le> s \<and> unat s < unat t + 60000) allowed)"
    by (simp add: times_of_def filter_map comp_def case_prod_unfold conj_ac)
  moreover have "length (filter (\<lambda>s. t \<le> s \<and> unat s < unat t + 60000) (map fst allowed)) =
      length (filter (\<lambda>(s, o'). t \<le> s \<and> unat s < unat t + 60000) allowed)"
    by (simp add: filter_map comp_def case_prod_unfold)
  ultimately show ?thesis by argo
qed

theorem candidate_rate_limit_witness:
  "length (filter (\<lambda>(s, o'). o' = 7 \<and> 0 \<le> s \<and> unat s < unat (0 :: u64) + 60000)
     (candidate_log [(1, 7), (2, 7), (3, 7)] (new_verifier [] 0 0 0 2 0 0 0 :: nat verifier))) \<le> 2"
  using candidate_rate_limit [where cs = "[(1, 7), (2, 7), (3, 7)]" and c = 2 and g = 0 and ow = 7 and t = 0,
      OF _ _ refl] by simp

section \<open>Frames\<close>

text \<open>
  Two states that differ in the bytes behind the receive buffer only. A disconnect drops them, and
  makes the states equal.
\<close>

definition padded :: "string \<Rightarrow> 'cb verifier \<Rightarrow> 'cb verifier \<Rightarrow> bool" where
  "padded b v w \<longleftrightarrow> w = (if v_connected v then v\<lparr>v_receiveBuffer := v_receiveBuffer v @ b\<rparr> else v)"

named_theorems padded_rules

lemma padded_fold:
  "(\<And>x v w. padded b v w \<Longrightarrow> padded b (f x v) (f x w)) \<Longrightarrow> padded b v w \<Longrightarrow> padded b (fold f xs v) (fold f xs w)"
  by (induction xs arbitrary: v w) auto

lemma padded_disconnect [padded_rules]:
  "padded b v w \<Longrightarrow> padded b (v_disconnect now e f v) (v_disconnect now e f w)"
  by (cases "v_connected v") (simp_all add: padded_def v_disconnect_def Let_def failAll_def act_def)

lemma padded_sendDocument:
  "padded b v w \<Longrightarrow> fst (sendDocument env doc w) = fst (sendDocument env doc v) \<and>
     padded b (snd (sendDocument env doc v)) (snd (sendDocument env doc w))"
  by (cases "v_connected v")
    (auto simp: padded_def sendDocument_def v_disconnect_def Let_def failAll_def act_def)

lemma padded_sendControl:
  assumes "padded b v w"
  shows "fst (sendControl env op h w) = fst (sendControl env op h v) \<and>
     padded b (snd (sendControl env op h v)) (snd (sendControl env op h w))"
proof (cases "v_connected v")
  case True
  define d where "d = control_doc (v_nextRequestId v) op h"
  define register where "register = (\<lambda>v :: 'a verifier. v\<lparr>v_nextRequestId := v_nextRequestId v + 1,
      v_controls := (case map_of (v_controls v) (v_nextRequestId v) of
          None \<Rightarrow> om_put (v_nextRequestId v) \<lparr>vc_op = op, vc_seedHash = h, vc_sentAtMs = ve_now env\<rparr> (v_controls v)
        | Some _ \<Rightarrow> v_controls v)\<rparr>)"
  have w: "w = v\<lparr>v_receiveBuffer := v_receiveBuffer v @ b\<rparr>" using assms True by (simp add: padded_def)
  have p: "padded b (register v) (register w)" 
    using True by (cases "map_of (v_controls v) (v_nextRequestId v)") (simp_all add: w register_def padded_def)
  have c: "v_connected w" "v_nextRequestId w = v_nextRequestId v" using True by (simp_all add: w)
  obtain x v2 where sv: "sendDocument env d (register v) = (x, v2)" by fastforce
  obtain y w2 where sw: "sendDocument env d (register w) = (y, w2)" by fastforce
  have y: "y = x" and p2: "padded b v2 w2" using padded_sendDocument [OF p, of env d] sv sw by auto
  have step: "sendControl env op h u = (case sendDocument env (control_doc (v_nextRequestId u) op h) (register u) of
      (False, u2) \<Rightarrow> (False, u2\<lparr>v_controls := AList.delete (v_nextRequestId u) (v_controls u2)\<rparr>)
    | (True, u2) \<Rightarrow> (True, u2))" if "v_connected u" for u
    using that by (simp add: sendControl_def Let_def register_def)
  have "sendControl env op h v = (if x then (True, v2) else (False, v2\<lparr>v_controls := AList.delete (v_nextRequestId v) (v_controls v2)\<rparr>))"
    using sv by (simp add: step [OF True] flip: d_def)
  moreover have "sendControl env op h w = (if x then (True, w2) else (False, w2\<lparr>v_controls := AList.delete (v_nextRequestId v) (v_controls w2)\<rparr>))"
    using sw by (simp add: step [OF c(1)] c(2) y flip: d_def)
  ultimately show ?thesis using p2 by (auto simp: padded_def)
qed (use assms in \<open>simp add: padded_def sendControl_def\<close>)

lemma padded_request_seed [padded_rules]:
  assumes "padded b v w"
  shows "padded b (request_seed env h v) (request_seed env h w)"
proof (cases "map_of (v_seeds v) h")
  case None
  moreover have "v_seeds w = v_seeds v" using assms by (auto simp: padded_def)
  ultimately show ?thesis using assms by (simp add: request_seed_def)
next
  case (Some s)
  have e: "v_seeds w = v_seeds v" using assms by (auto simp: padded_def)
  obtain x v2 where sv: "sendControl env ''prepare_seed'' h v = (x, v2)" by fastforce
  obtain y w2 where sw: "sendControl env ''prepare_seed'' h w = (y, w2)" by fastforce
  have y: "y = x" and p2: "padded b v2 w2" using padded_sendControl [OF assms, of env "''prepare_seed''" h] sv sw by auto
  then show ?thesis using Some sv sw e by (cases x) (auto simp: request_seed_def padded_def split: option.split)
qed

lemma padded_requestWantedSeeds [padded_rules]:
  assumes "padded b v w"
  shows "padded b (requestWantedSeeds env v) (requestWantedSeeds env w)"
proof -
  have "v_seeds w = v_seeds v" using assms by (auto simp: padded_def)
  then show ?thesis
    unfolding requestWantedSeeds_def Let_def using assms by (auto intro!: padded_fold padded_rules)
qed

lemma padded_requestStats [padded_rules]:
  assumes "padded b v w"
  shows "padded b (requestStats env v) (requestStats env w)"
proof -
  define upd where "upd = (\<lambda>v :: 'a verifier. v\<lparr>v_nextStatsAtMs := ve_now env + kStatsIntervalMs\<rparr>)"
  have p: "padded b (upd v) (upd w)" using assms by (auto simp: upd_def padded_def)
  have "v_controls (upd w) = v_controls (upd v)" using assms by (auto simp: upd_def padded_def)
  then show ?thesis
    using p padded_sendControl [OF p, of env "''stats''" "[]"] by (simp add: requestStats_def Let_def flip: upd_def)
qed

lemma padded_control_response [padded_rules]:
  assumes "padded b v w"
  shows "padded b (control_response env c doc v) (control_response env c doc w)"
proof -
  have "padded b (v\<lparr>v_vmPoolSize := n, v_ready := True\<rparr>) (w\<lparr>v_vmPoolSize := n, v_ready := True\<rparr>)" for n
    using assms by (auto simp: padded_def)
  then have h: "padded b (requestStats env (requestWantedSeeds env (v\<lparr>v_vmPoolSize := n, v_ready := True\<rparr>)))
      (requestStats env (requestWantedSeeds env (w\<lparr>v_vmPoolSize := n, v_ready := True\<rparr>)))" for n
    by (intro padded_rules)
  have s: "v_seeds w = v_seeds v" "padded b (v\<lparr>v_seeds := z\<rparr>) (w\<lparr>v_seeds := z\<rparr>)" for z
    using assms by (auto simp: padded_def)
  show ?thesis
    using assms h s by (auto simp: control_response_def Let_def padded_rules split: option.split)
qed

lemma padded_handleFrame:
  assumes "padded b v w"
  shows "padded b (v_handleFrame parse env body v) (v_handleFrame parse env body w)"
proof -
  have e: "v_controls w = v_controls v" "v_pending w = v_pending v" "v_pendingByOwner w = v_pendingByOwner v"
    "padded b (v\<lparr>v_controls := z\<rparr>) (w\<lparr>v_controls := z\<rparr>)"
    "padded b (act a (v\<lparr>v_pending := z1, v_pendingByOwner := z2\<rparr>)) (act a (w\<lparr>v_pending := z1, v_pendingByOwner := z2\<rparr>))"
    for z a z1 z2
    using assms by (auto simp: padded_def act_def)
  have "padded b (v_handleResponse env doc v) (v_handleResponse env doc w)" for doc
    using assms e by (auto simp: v_handleResponse_def Let_def padded_rules split: option.split)
  then show ?thesis
    using assms by (auto simp: v_handleFrame_def padded_rules split: option.split json.split)
qed

lemma frame_size_append: "4 \<le> length buf \<Longrightarrow> frame_size (buf @ b) = frame_size buf"
proof -
  assume "4 \<le> length buf"
  then have "0 < length buf" "1 < length buf" "2 < length buf" "3 < length buf" by linarith+
  then show ?thesis by (simp only: frame_size_def nth_append if_True)
qed

lemma parseFrames_padded:
  "v_connected v \<Longrightarrow> parseFrames parse env (v\<lparr>v_receiveBuffer := v_receiveBuffer v @ b\<rparr>) =
     (let v1 = parseFrames parse env v in
      if v_connected v1 then parseFrames parse env (v1\<lparr>v_receiveBuffer := v_receiveBuffer v1 @ b\<rparr>) else v1)"
proof (induction parse env v rule: parseFrames.induct)
  case (1 parse env v)
  define w where "w = v\<lparr>v_receiveBuffer := v_receiveBuffer v @ b\<rparr>"
  define buf where "buf = v_receiveBuffer v"
  define n where "n = frame_size buf"
  show ?case
  proof (cases "length buf < 4 \<or> (\<not> (n = 0 \<or> kMaxFrameSize < n) \<and> length buf < 4 + n)")
    case True
    then have "parseFrames parse env v = v"
      by (auto simp: parseFrames.simps [of parse env v] Let_def buf_def n_def)
    then show ?thesis using 1(2) by simp
  next
    case long: False
    have nw: "frame_size (v_receiveBuffer w) = n" using long by (simp add: w_def n_def buf_def frame_size_append)
    have lw: "\<not> length (v_receiveBuffer w) < 4" using long by (simp add: w_def buf_def)
    have p: "padded b v w" using 1(2) by (simp add: padded_def w_def)
    show ?thesis
    proof (cases "n = 0 \<or> kMaxFrameSize < n")
      case True
      let ?d = "v_disconnect (ve_now env) ''invalid verifier frame length'' True"
      have "parseFrames parse env v = ?d v"
        using True long by (auto simp: parseFrames.simps [of parse env v] Let_def buf_def n_def)
      moreover have "parseFrames parse env w = ?d w"
        using True nw lw by (auto simp: parseFrames.simps [of parse env w] Let_def)
      moreover have "\<not> v_connected (?d v)"
        using 1(2) by (simp add: v_disconnect_def Let_def failAll_def act_def)
      moreover have "?d w = ?d v" using padded_disconnect [OF p] calculation(3) by (simp add: padded_def)
      ultimately show ?thesis by (simp flip: w_def)
    next
      case False
      define body where "body = take n (drop 4 buf)"
      define v1 where "v1 = v_handleFrame parse env body v"
      define w1 where "w1 = v_handleFrame parse env body w"
      have p1: "padded b v1 w1" unfolding v1_def w1_def by (rule padded_handleFrame [OF p])
      have body: "take n (drop 4 (v_receiveBuffer w)) = body" using long False by (auto simp: body_def w_def buf_def)
      have lw: "\<not> length (v_receiveBuffer w) < 4" "\<not> length (v_receiveBuffer w) < 4 + n"
        using long False by (auto simp: w_def buf_def)
      have pv: "parseFrames parse env v = (if \<not> v_connected v1 then v1
          else parseFrames parse env (v1\<lparr>v_receiveBuffer := drop (4 + n) (v_receiveBuffer v1)\<rparr>))"
        using long False by (simp add: parseFrames.simps [of parse env v] Let_def v1_def body_def flip: buf_def n_def)
      have pw: "parseFrames parse env w = (if \<not> v_connected w1 then w1
          else parseFrames parse env (w1\<lparr>v_receiveBuffer := drop (4 + n) (v_receiveBuffer w1)\<rparr>))"
        using lw False nw body by (simp add: parseFrames.simps [of parse env w] Let_def w1_def)
      show ?thesis
      proof (cases "v_connected v1")
        case True
        then have same: "v_receiveBuffer v1 = buf"
          using buffer_handleFrame [of v parse env body] by (simp add: buffer_kept_def v1_def buf_def)
        have w1: "w1 = v1\<lparr>v_receiveBuffer := buf @ b\<rparr>" using p1 True same by (simp add: padded_def)
        define v2 where "v2 = v1\<lparr>v_receiveBuffer := drop (4 + n) buf\<rparr>"
        have "v_connected v2" using True by (simp add: v2_def)
        have ih: "parseFrames parse env (v2\<lparr>v_receiveBuffer := v_receiveBuffer v2 @ b\<rparr>) =
            (let v3 = parseFrames parse env v2 in
             if v_connected v3 then parseFrames parse env (v3\<lparr>v_receiveBuffer := v_receiveBuffer v3 @ b\<rparr>) else v3)"
          using 1(1) [OF buf_def _ n_def False _ v1_def [unfolded body_def]] long False True same
          by (simp add: v2_def)
        have "w1\<lparr>v_receiveBuffer := drop (4 + n) (v_receiveBuffer w1)\<rparr> = v2\<lparr>v_receiveBuffer := v_receiveBuffer v2 @ b\<rparr>"
          using long False by (simp add: w1 v2_def)
        then show ?thesis using pv pw ih True same by (simp add: w1 flip: w_def v2_def)
      next
        case False
        then show ?thesis using pv pw p1 by (simp add: padded_def flip: w_def)
      qed
    qed
  qed
qed

text \<open>C27: how the operating system cuts the byte stream into reads does not matter: reading \<open>a @ b\<close> at once has
  the effect of reading \<open>a\<close> and then \<open>b\<close>, unless what is in \<open>a\<close> makes the client disconnect; then \<open>b\<close> is
  not looked at.\<close>

theorem reads_compose:
  assumes "v_connected v"
  shows "v_onRead parse env (a @ b) v =
    (let v1 = v_onRead parse env a v in if v_connected v1 then v_onRead parse env b v1 else v1)"
  using parseFrames_padded [of "v\<lparr>v_receiveBuffer := v_receiveBuffer v @ a\<rparr>" parse env b] assms
  by (simp add: v_onRead_def Let_def)

theorem reads_compose_witness:
  "let v = (new_verifier [] 0 1 1 0 0 0 0 :: nat verifier)\<lparr>v_connected := True\<rparr>;
       env = \<lparr>ve_now = 0, ve_write = (\<lambda>_. Written), ve_size = (\<lambda>_. 1)\<rparr>
   in v_onRead (\<lambda>_. None) env ([CHR 0x00] @ [CHR 0x00]) v =
      (let v1 = v_onRead (\<lambda>_. None) env [CHR 0x00] v in
       if v_connected v1 then v_onRead (\<lambda>_. None) env [CHR 0x00] v1 else v1)"
  unfolding Let_def by (rule reads_compose [unfolded Let_def]) simp

lemma ff_mask: "(0xff :: u32) = mask 8"
  by (simp add: mask_eq_exp_minus_1)

lemma frame_bytes:
  fixes w :: u32
  shows "push_bit 24 (drop_bit 24 w AND 0xff) OR push_bit 16 (drop_bit 16 w AND 0xff) OR
    push_bit 8 (drop_bit 8 w AND 0xff) OR (w AND 0xff) = w"
  unfolding ff_mask
proof (rule bit_word_eqI)
  fix n assume n: "n < LENGTH(32)"
  consider "n < 8" | "8 \<le> n" "n < 16" | "16 \<le> n" "n < 24" | "24 \<le> n" "n < 32" using n by fastforce
  then show "bit (push_bit 24 (drop_bit 24 w AND mask 8) OR push_bit 16 (drop_bit 16 w AND mask 8) OR
    push_bit 8 (drop_bit 8 w AND mask 8) OR (w AND mask 8)) n = bit w n"
    by cases (auto simp: bit_or_iff bit_and_iff bit_push_bit_iff bit_drop_bit_eq bit_mask_iff less_diff_conv2)
qed

lemma of_char_byte:
  fixes w :: u32
  shows "of_char (char_of (unat (w AND 0xff)) :: char) = w AND 0xff"
proof -
  have "w AND 0xff \<le> 0xff" by (rule word_and_le1)
  then have "unat (w AND 0xff) \<le> 255" by (simp only: word_le_nat_alt) simp
  then have "(of_char (char_of (unat (w AND 0xff)) :: char) :: nat) = unat (w AND 0xff)" by simp
  then have "of_nat (of_char (char_of (unat (w AND 0xff)) :: char)) = (of_nat (unat (w AND 0xff)) :: u32)" by (rule arg_cong)
  then show ?thesis by (simp only: of_nat_of_char) simp
qed

lemma frame_size_frame: "frame_size (frame body) = unat (of_nat (length body) :: u32)"
proof -
  define n :: u32 where "n = of_nat (length body)"
  show ?thesis
    using frame_bytes [of n] by (simp add: frame_size_def frame_def Let_def of_char_byte flip: n_def)
qed

text \<open>The length header written before a document is the one the reader takes apart: a frame that arrives
  whole on an empty buffer is handled as its text and leaves the buffer empty.\<close>

theorem frame_roundtrip:
  assumes "v_connected v" and "v_receiveBuffer v = []" and "0 < length body" and "length body \<le> kMaxFrameSize"
  shows "frame_size (frame body) = length body \<and> v_onRead parse env (frame body) v = v_handleFrame parse env body v"
proof -
  have size: "frame_size (frame body) = length body"
    using assms(4) by (simp add: frame_size_frame unat_of_nat kMaxFrameSize_def)
  have shape: "length (frame body) = 4 + length body" "take (length body) (drop 4 (frame body)) = body"
    by (simp_all add: frame_def Let_def)
  define w where "w = v\<lparr>v_receiveBuffer := frame body\<rparr>"
  define v1 where "v1 = v_handleFrame parse env body v"
  define w1 where "w1 = v_handleFrame parse env body w"
  have p: "padded (frame body) v1 w1"
    unfolding v1_def w1_def by (rule padded_handleFrame) (use assms in \<open>simp add: padded_def w_def\<close>)
  have wb: "v_receiveBuffer w = frame body" by (simp add: w_def)
  have kept: "buffer_kept v v1" unfolding v1_def by (rule buffer_handleFrame)
  have "v_onRead parse env (frame body) v = parseFrames parse env w"
    using assms(2) by (simp add: v_onRead_def w_def)
  also have "\<dots> = (if \<not> v_connected w1 then w1
      else parseFrames parse env (w1\<lparr>v_receiveBuffer := drop (4 + length body) (v_receiveBuffer w1)\<rparr>))"
    using assms(3,4) shape size wb by (simp add: parseFrames.simps [of parse env w] Let_def w1_def)
  also have "\<dots> = v1"
  proof (cases "v_connected v1")
    case True
    then have "v_receiveBuffer v1 = []" using kept assms(2) by (simp add: buffer_kept_def)
    moreover from this have "w1\<lparr>v_receiveBuffer := drop (4 + length body) (v_receiveBuffer w1)\<rparr> = v1"
      using p True shape by (simp add: padded_def)
    moreover have "v_connected w1" using p True by (simp add: padded_def)
    ultimately show ?thesis by (simp add: parseFrames.simps [of parse env v1])
  qed (use p in \<open>simp add: padded_def\<close>)
  finally show ?thesis using size by (simp add: v1_def)
qed

theorem frame_roundtrip_witness:
  "let v = (new_verifier [] 0 1 1 0 0 0 0 :: nat verifier)\<lparr>v_connected := True\<rparr>;
       env = \<lparr>ve_now = 0, ve_write = (\<lambda>_. Written), ve_size = (\<lambda>_. 1)\<rparr>
   in v_onRead (\<lambda>_. None) env (frame ''{}'') v = v_handleFrame (\<lambda>_. None) env ''{}'' v"
  unfolding Let_def
  by (rule frame_roundtrip [THEN conjunct2]) (simp_all add: new_verifier_def kMaxFrameSize_def)

end
