(* ===== verification/Line_Reader.thy ===== *)
theory Line_Reader
  imports Prelude
begin

text \<open>
  The splitter of byte streams into lines, \<open>base/net/tools/LineReader.cpp\<close>, which every connection to a
  miner or a pool reads through. The bytes of an unfinished line wait in a buffer of fixed size; a line
  that does not fit makes the reader report failure. A call returns the success, the lines handed to
  the listener and the new state; \<open>m_pos\<close> is the length of \<open>lr_buf\<close>. The listeners do not touch the
  reader, so the lines may be handed over after the call.
\<close>

section \<open>The reader\<close>

definition kChunkSize :: nat where "kChunkSize = 64 * 1024"

abbreviation NL :: char where "NL \<equiv> CHR 0x0A"

record line_reader =
  lr_buf :: string
  lr_overflow :: bool

definition new_reader :: line_reader where
  "new_reader = \<lparr>lr_buf = [], lr_overflow = False\<rparr>"

definition lr_reset :: "line_reader \<Rightarrow> line_reader" where
  "lr_reset r = r\<lparr>lr_buf := [], lr_overflow := False\<rparr>"

definition lr_add :: "string \<Rightarrow> line_reader \<Rightarrow> bool \<times> line_reader" where
  "lr_add data r =
     (let maxPayload = kChunkSize - 1 in
      if lr_overflow r \<or> maxPayload < length (lr_buf r) \<or> maxPayload - length (lr_buf r) < length data
      then (False, r\<lparr>lr_buf := [], lr_overflow := True\<rparr>)
      else (True, r\<lparr>lr_buf := lr_buf r @ data\<rparr>))"

text \<open>One round of the loop: \<open>line\<close> is the text before the newline.\<close>

definition lr_line :: "string \<Rightarrow> line_reader \<Rightarrow> bool \<times> string list \<times> line_reader" where
  "lr_line line r =
     (if lr_overflow r then (False, [], r\<lparr>lr_overflow := False\<rparr>)
      else if lr_buf r \<noteq> []
      then (case lr_add line r of
              (True, r1) \<Rightarrow> (True, [lr_buf r1], r1\<lparr>lr_buf := []\<rparr>)
            | (False, r1) \<Rightarrow> (False, [], r1\<lparr>lr_overflow := False\<rparr>))
      else if line \<noteq> []
      then (if kChunkSize \<le> length line then (False, [], r) else (True, [line], r))
      else (True, [], r))"

lemma length_after_newline:
  "NL \<in> set data \<Longrightarrow> length (dropWhile (\<lambda>c. c \<noteq> NL) data) - Suc 0 < length data"
  by (induction data) auto

function lr_getline :: "string \<Rightarrow> line_reader \<Rightarrow> bool \<times> string list \<times> line_reader" where
  "lr_getline data r =
     (if NL \<in> set data
      then (case lr_line (takeWhile (\<lambda>c. c \<noteq> NL) data) r of
              (False, ls, r1) \<Rightarrow> (False, ls, r1)
            | (True, ls, r1) \<Rightarrow>
                (case lr_getline (tl (dropWhile (\<lambda>c. c \<noteq> NL) data)) r1 of
                   (ok, ls', r2) \<Rightarrow> (ok, ls @ ls', r2)))
      else if data = [] then (True, [], lr_reset r)
      else (case lr_add data r of (ok, r1) \<Rightarrow> (ok, [], r1)))"
  by pat_completeness auto

termination lr_getline
  by (relation "measure (\<lambda>(data, r). length data)") (simp_all add: length_after_newline)

declare lr_getline.simps [simp del]

definition lr_parse :: "string \<Rightarrow> line_reader \<Rightarrow> bool \<times> string list \<times> line_reader" where
  "lr_parse data r = (if data = [] then (True, [], r) else lr_getline data r)"

section \<open>The lines of a stream\<close>

text \<open>The reference: the segments of a text that a newline ends, and what follows the last newline.\<close>

fun segments :: "string \<Rightarrow> string \<Rightarrow> string list \<times> string" where
  "segments acc [] = ([], acc)"
| "segments acc (c # cs) =
     (if c = NL then (case segments [] cs of (ls, rest) \<Rightarrow> (acc # ls, rest)) else segments (acc @ [c]) cs)"

definition lines_of :: "string \<Rightarrow> string list" where
  "lines_of s = filter (\<lambda>l. l \<noteq> []) (fst (segments [] s))"

definition rest_of :: "string \<Rightarrow> string" where
  "rest_of s = snd (segments [] s)"

text \<open>Every line of the text fits in the buffer.\<close>

definition short_lines :: "string \<Rightarrow> bool" where
  "short_lines s \<longleftrightarrow> list_all (\<lambda>l. length l < kChunkSize) (rest_of s # fst (segments [] s))"

lemma segments_no_newline: "NL \<notin> set s \<Longrightarrow> segments acc s = ([], acc @ s)"
  by (induction s arbitrary: acc) auto

lemma segments_newline:
  "NL \<notin> set l \<Longrightarrow> segments acc (l @ NL # s) = (case segments [] s of (ls, rest) \<Rightarrow> ((acc @ l) # ls, rest))"
  by (induction l arbitrary: acc) auto

lemma segments_append:
  "segments acc (a @ b) =
    (case segments acc a of (ls, rest) \<Rightarrow> (case segments rest b of (ls', rest') \<Rightarrow> (ls @ ls', rest')))"
  by (induction a arbitrary: acc) (auto split: prod.split)

lemma segments_acc: "NL \<notin> set acc \<Longrightarrow> segments acc s = segments [] (acc @ s)"
  by (simp add: segments_append segments_no_newline split: prod.split)

lemma split_at_newline:
  "NL \<in> set s \<Longrightarrow>
   s = takeWhile (\<lambda>c. c \<noteq> NL) s @ NL # tl (dropWhile (\<lambda>c. c \<noteq> NL) s)"
  by (induction s) auto

lemma lr_getline_lines:
  "\<not> lr_overflow r \<Longrightarrow> NL \<notin> set (lr_buf r) \<Longrightarrow> short_lines (lr_buf r @ data) \<Longrightarrow>
   lr_getline data r = (True, lines_of (lr_buf r @ data), r\<lparr>lr_buf := (if data = [] then [] else rest_of (lr_buf r @ data))\<rparr>)"
proof (induction data r rule: lr_getline.induct)
  case (1 data r)
  let ?b = "lr_buf r"
  show ?case
  proof (cases "NL \<in> set data")
    case False
    have seg: "segments [] (?b @ data) = ([], ?b @ data)"
      using False 1(3) by (intro segments_no_newline [of _ "[]", simplified]) auto
    then have "length (?b @ data) < kChunkSize" using 1(4) by (simp add: short_lines_def rest_of_def)
    then have "lr_add data r = (True, r\<lparr>lr_buf := ?b @ data\<rparr>)"
      using 1(2) by (auto simp: lr_add_def Let_def)
    then show ?thesis
      using False seg 1(2) by (simp add: lr_getline.simps [of data r] lines_of_def rest_of_def lr_reset_def)
  next
    case True
    define l where "l = takeWhile (\<lambda>c. c \<noteq> NL) data"
    define t where "t = tl (dropWhile (\<lambda>c. c \<noteq> NL) data)"
    have data: "data = l @ NL # t" unfolding l_def t_def by (rule split_at_newline [OF True])
    have l: "NL \<notin> set l" by (auto simp: l_def dest: set_takeWhileD)
    have seg: "segments [] (?b @ data) = (case segments [] t of (ls, rest) \<Rightarrow> ((?b @ l) # ls, rest))"
      using segments_newline [of "?b @ l" "[]" t] l 1(3) by (simp add: data)
    have len: "length (?b @ l) < kChunkSize" and short: "short_lines t"
      using 1(4) by (auto simp: short_lines_def rest_of_def seg split: prod.splits)
    define r1 where "r1 = r\<lparr>lr_buf := []\<rparr>"
    have line: "lr_line l r = (True, if ?b @ l = [] then [] else [?b @ l], r1)"
      using len 1(2) by (auto simp: lr_line_def lr_add_def Let_def r1_def)
    have ih: "lr_getline t r1 = (True, lines_of t, r1\<lparr>lr_buf := (if t = [] then [] else rest_of t)\<rparr>)"
      using 1(1) [OF True line [symmetric, unfolded l_def]] short 1(2) by (simp add: r1_def t_def)
    have "lines_of (?b @ data) = (if ?b @ l = [] then [] else [?b @ l]) @ lines_of t"
      by (simp add: lines_of_def seg split: prod.split)
    moreover have "rest_of (?b @ data) = (if t = [] then [] else rest_of t)"
      by (auto simp: rest_of_def seg split: prod.split)
    moreover have "lr_getline data r = (True, (if ?b @ l = [] then [] else [?b @ l]) @ lines_of t,
        r1\<lparr>lr_buf := (if t = [] then [] else rest_of t)\<rparr>)"
      using True by (subst lr_getline.simps) (simp add: ih line flip: l_def t_def)
    moreover have "data \<noteq> []" using True by auto
    ultimately show ?thesis by (simp add: r1_def)
  qed
qed

text \<open>C28: a connection sees the same lines however its stream is cut: as long as every line fits in the buffer,
  the listener gets exactly the nonempty lines of what has arrived, and what follows the last newline
  is kept for the next read.\<close>

theorem line_reader_stream:
  assumes "\<not> lr_overflow r" and "NL \<notin> set (lr_buf r)" and "short_lines (lr_buf r @ data)"
  shows "lr_parse data r = (True, lines_of (lr_buf r @ data), r\<lparr>lr_buf := rest_of (lr_buf r @ data)\<rparr>)"
proof (cases "data = []")
  case True
  then show ?thesis
    using segments_no_newline [of "lr_buf r" "[]"] assms(2) by (simp add: lr_parse_def lines_of_def rest_of_def)
qed (use lr_getline_lines [OF assms] in \<open>simp add: lr_parse_def\<close>)

theorem line_reader_stream_witness:
  "lr_parse (''ab'' @ [NL, NL] @ ''cd'') \<lparr>lr_buf = ''x'', lr_overflow = False\<rparr> =
     (True, [''xab''], \<lparr>lr_buf = ''cd'', lr_overflow = False\<rparr>)"
  by (subst line_reader_stream)
    (simp_all add: short_lines_def rest_of_def lines_of_def kChunkSize_def)

end
