(* ===== verification/Miner.thy ===== *)
theory Miner
  imports Share_Cache Job_Result Proxy_Base Verifier Line_Reader
begin

text \<open>
  A miner connection, \<open>proxy/Miner.h\<close> and \<open>Miner.cpp\<close>: its login and lifecycle, the jobs it is sent and
  still accepts shares for, the checks on a submitted share, the detection of duplicates, the
  asynchronous verification and the strikes that close the connection.

  The state is the object's together with what the code shares between connections: the duplicate-share
  cache, the verifier client, the counters and the share sequence (the fields \<open>w_\<close>). What a connection
  does to the outside is the list \<open>w_out\<close>: texts and documents written, events started, the socket
  closed. The environment \<open>miner_env\<close> holds the results of calls into libuv, OpenSSL and RapidJSON and
  the outcome of dispatching a submit event. The miner signature and the hashing blob of a job
  (\<open>Job::generateSignatureData\<close>, \<open>Job::generateHashingBlob\<close>) are parameters of it. Rows of the live
  event stream and log lines are left out.
\<close>

section \<open>Data\<close>

datatype miner_state = WaitLoginState | WaitReadyState | ReadyState | ClosingState

record telemetry_job =
  t_algorithm :: algo
  t_entropy :: cstr
  t_hashingBlob :: cstr
  t_id :: cstr
  t_prevHash :: cstr
  t_seedHash :: cstr
  t_signatureData :: cstr
  t_height :: u64
  t_issuedAt :: u64
  t_minerDiff :: u64
  t_networkDiff :: u64
  t_issuanceToken :: u64
  t_templateGeneration :: u64
  t_templateSourceId :: u64
  t_nonceOffset :: nat
  t_viewTag :: u8
  t_extraNonce :: int

record submission =
  sb_global :: reservation
  sb_computedGlobal :: reservation
  sb_localKey :: string
  sb_localToken :: u64

definition no_submission :: submission where
  "no_submission =
     \<lparr>sb_global = no_reservation, sb_computedGlobal = no_reservation, sb_localKey = [], sb_localToken = 0\<rparr>"

record pending_share =
  ps_algorithm :: algo
  ps_mapperId :: int
  ps_requestId :: int
  ps_extraNonce :: int
  ps_viewTag :: u8
  ps_shareId :: u64
  ps_height :: u64
  ps_minerDiff :: u64
  ps_networkDiff :: u64
  ps_issuanceToken :: u64
  ps_verificationGeneration :: u64
  ps_templateGeneration :: u64
  ps_templateSourceId :: u64
  ps_candidateFallback :: bool
  ps_jobId :: string
  ps_nonce :: string
  ps_claimedHash :: string
  ps_hashingBlob :: string
  ps_prevHash :: string
  ps_seedHash :: string
  ps_signature :: string
  ps_signatureData :: string
  ps_commitment :: string
  ps_entropy :: string
  ps_submission :: submission
  ps_retainSubmission :: bool

record seen_submission =
  ss_key :: string
  ss_seenAt :: u64
  ss_token :: u64

record seen_stamp =
  st_seenAt :: u64
  st_token :: u64

definition kLoginTimeout :: u64 where "kLoginTimeout = 10 * 1000"
definition kSocketTimeout :: u64 where "kSocketTimeout = 60 * 10 * 1000"
definition kTelemetryJobTtl :: u64 where "kTelemetryJobTtl = 120000"
definition kTelemetryJobCount :: nat where "kTelemetryJobCount = 6"
definition kSubmissionTtl :: u64 where "kSubmissionTtl = 120000"
definition kMaxRememberedSubmissions :: nat where "kMaxRememberedSubmissions = 65536"
definition kMaxConsecutiveInfrastructureFailures :: u32 where "kMaxConsecutiveInfrastructureFailures = 16"
definition kSendBufSize :: nat where "kSendBufSize = 16384"

text \<open>What a connection does to the outside.\<close>

datatype miner_action =
    M_text string
  | M_doc json
  | M_login int "algo list" json
  | M_submit job_result error_code
  | M_accept int submit_result
  | M_close
  | M_shutdown

record world =
  w_cache :: share_cache
  w_verifier :: "pending_share verifier option"
  w_counters :: counters
  w_shareSequence :: u64
  w_nextId :: int
  w_out :: "miner_action list"

record miner = world +
  m_strictTls :: bool
  m_rpcId :: cstr
  m_hasTlsCtx :: bool
  m_routeId :: int
  m_id :: int
  m_loginId :: int
  m_reader :: line_reader
  m_mapperId :: int
  m_state :: miner_state
  m_extAlgo :: bool
  m_extNicehash :: bool
  m_extConnect :: bool
  m_agent :: cstr
  m_currentJobEntropy :: cstr
  m_currentJobId :: cstr
  m_password :: cstr
  m_rigId :: cstr
  m_user :: cstr
  m_signatureData :: cstr
  m_telemetryJobs :: "telemetry_job list"
  m_seenSubmissions :: "seen_submission list"
  m_seenTimes :: "(string, seen_stamp) umap"
  m_viewTag :: u8
  m_tls :: bool
  m_localPort :: u16
  m_customDiff :: u64
  m_diff :: u64
  m_issuedDiff :: u64
  m_jobHeight :: u64
  m_expire :: u64
  m_rx :: u64
  m_timestamp :: u64
  m_jobIssuanceSequence :: u64
  m_submissionSequence :: u64
  m_templateGeneration :: u64
  m_tx :: u64
  m_verificationGeneration :: u64
  m_infrastructureFailures :: u32
  m_shareRejections :: u32
  m_fixedByte :: u8
  m_extraNonce :: int
  m_key :: u64

text \<open>\<open>uv_try_write\<close> writes some bytes, asks to try again (or is not supported), or fails.\<close>

datatype try_result = Wrote nat | Try_again | Try_failed

record miner_env =
  me_now :: u64
  me_writable :: bool
  me_try :: "nat \<Rightarrow> try_result"
  me_queued :: bool
  me_tlsSend :: "nat \<Rightarrow> bool"
  me_size :: "json \<Rightarrow> nat"
  me_parse :: "string \<Rightarrow> json option"
  me_dispatch :: "job_result \<Rightarrow> error_code \<Rightarrow> error_code option"
  me_signature :: "job \<Rightarrow> cstr \<times> u8"
  me_hashingBlob :: "job \<Rightarrow> string"
  me_verify :: verify_env

definition m_do :: "miner_action \<Rightarrow> miner \<Rightarrow> miner" where
  "m_do a m = m\<lparr>w_out := w_out m @ [a]\<rparr>"

text \<open>\<open>const char *\<close> to \<open>std::string\<close>, with the null test the code makes.\<close>

definition or_empty :: "cstr \<Rightarrow> string" where
  "or_empty s = (case s of None \<Rightarrow> [] | Some t \<Rightarrow> t)"

definition or_null :: "string \<Rightarrow> cstr" where
  "or_null s = (if s = [] then None else Some s)"

section \<open>Creation and reading of fields\<close>

definition new_miner :: "miner_env \<Rightarrow> world \<Rightarrow> bool \<Rightarrow> u16 \<Rightarrow> bool \<Rightarrow> string \<Rightarrow> u64 \<Rightarrow> u64 \<Rightarrow> miner" where
  "new_miner env w ctx port strictTls rpcId key timestamp =
     \<lparr>w_cache = w_cache w, w_verifier = w_verifier w,
      w_counters = (w_counters w)\<lparr>ct_connections := ct_connections (w_counters w) + 1\<rparr>,
      w_shareSequence = w_shareSequence w, w_nextId = w_nextId w + 1, w_out = w_out w,
      m_strictTls = strictTls, m_rpcId = Some rpcId, m_hasTlsCtx = ctx, m_routeId = -1, m_id = w_nextId w + 1,
      m_loginId = 0, m_reader = new_reader, m_mapperId = -1, m_state = WaitLoginState, m_extAlgo = False,
      m_extNicehash = False, m_extConnect = False, m_agent = None, m_currentJobEntropy = None,
      m_currentJobId = None, m_password = None, m_rigId = None, m_user = None, m_signatureData = None,
      m_telemetryJobs = [], m_seenSubmissions = [], m_seenTimes = [], m_viewTag = 0, m_tls = False,
      m_localPort = port, m_customDiff = 0, m_diff = 0, m_issuedDiff = 0, m_jobHeight = 0,
      m_expire = me_now env + kLoginTimeout, m_rx = 0, m_timestamp = timestamp, m_jobIssuanceSequence = 0,
      m_submissionSequence = 0, m_templateGeneration = 0, m_tx = 0, m_verificationGeneration = 0,
      m_infrastructureFailures = 0, m_shareRejections = 0, m_fixedByte = 0, m_extraNonce = -1, m_key = key\<rparr>"

text \<open>The difficulty of the current job, \<open>Miner::diff\<close>, and the name shown for the miner, \<open>Miner::rigId(true)\<close>.\<close>

definition miner_diff :: "miner \<Rightarrow> u64" where
  "miner_diff m =
     (if m_issuedDiff m \<noteq> 0 then m_issuedDiff m
      else if m_customDiff m \<noteq> 0 then min (m_customDiff m) (m_diff m) else m_diff m)"

definition rigId_safe :: "miner \<Rightarrow> cstr" where
  "rigId_safe m = (if 0 < str_size (m_rigId m) then m_rigId m else m_user m)"

section \<open>Lifecycle and writing\<close>

definition heartbeat :: "miner_env \<Rightarrow> miner \<Rightarrow> miner" where
  "heartbeat env m = m\<lparr>m_expire := me_now env + kSocketTimeout\<rparr>"

definition setState :: "miner_env \<Rightarrow> miner_state \<Rightarrow> miner \<Rightarrow> miner" where
  "setState env s m =
     (if m_state m = s then m
      else
        let m1 = (if s = ReadyState
                  then (heartbeat env m)\<lparr>w_counters := counters_add (w_counters m)\<rparr> else m);
            m2 = (if s = ClosingState \<and> m_state m = ReadyState
                  then m1\<lparr>w_counters := counters_remove (w_counters m1)\<rparr> else m1)
        in m2\<lparr>m_state := s\<rparr>)"

definition shutdown :: "miner_env \<Rightarrow> bool \<Rightarrow> miner \<Rightarrow> miner" where
  "shutdown env had_error m =
     (if m_state m = ClosingState then m
      else m_do (if had_error then M_close else M_shutdown) (setState env ClosingState m))"

definition isWritable :: "miner_env \<Rightarrow> miner \<Rightarrow> bool" where
  "isWritable env m \<longleftrightarrow> m_state m \<noteq> ClosingState \<and> me_writable env"

definition writeRaw :: "miner_env \<Rightarrow> nat \<Rightarrow> miner \<Rightarrow> bool \<times> miner" where
  "writeRaw env n m =
     (if n = 0 \<or> \<not> isWritable env m then (False, m)
      else
        let queue = (if me_queued env then (True, m) else (False, shutdown env True m))
        in case me_try env n of
             Wrote k \<Rightarrow> if k = n then (True, m) else if 0 < k then queue else (False, shutdown env True m)
           | Try_again \<Rightarrow> queue
           | Try_failed \<Rightarrow> (False, shutdown env True m))"

text \<open>\<open>Miner::send(int)\<close>: the write of the \<open>n\<close> bytes in the send buffer.\<close>

definition send_buffer :: "miner_env \<Rightarrow> nat \<Rightarrow> miner \<Rightarrow> bool \<times> miner" where
  "send_buffer env n m =
     (if n = 0 \<or> \<not> isWritable env m then (False, m)
      else if m_tls m then (me_tlsSend env n, m)
      else (case writeRaw env n m of
              (False, m1) \<Rightarrow> (False, shutdown env True m1)
            | (True, m1) \<Rightarrow> (True, m1\<lparr>m_tx := m_tx m1 + of_nat n\<rparr>)))"

definition send_text :: "miner_env \<Rightarrow> string \<Rightarrow> miner \<Rightarrow> miner" where
  "send_text env t m =
     (case send_buffer env (length t) m of (ok, m1) \<Rightarrow> if ok then m_do (M_text t) m1 else m1)"

definition send_doc :: "miner_env \<Rightarrow> json \<Rightarrow> miner \<Rightarrow> bool \<times> miner" where
  "send_doc env doc m =
     (let n = me_size env doc in
      if kSendBufSize - 2 < n then (False, shutdown env True m)
      else (case send_buffer env (n + 1) m of
              (ok, m1) \<Rightarrow> (ok, if ok then m_do (M_doc doc) m1 else m1)))"

text \<open>Decimal numbers as \<open>%lld\<close> prints them.\<close>

fun nat_text :: "nat \<Rightarrow> string" where
  "nat_text n = (if n < 10 then [char_of (48 + n)] else nat_text (n div 10) @ [char_of (48 + n mod 10)])"

declare nat_text.simps [simp del]

definition int_text :: "int \<Rightarrow> string" where
  "int_text i = (if i < 0 then CHR ''-'' # nat_text (nat (- i)) else nat_text (nat i))"

definition error_text :: "int \<Rightarrow> string \<Rightarrow> string" where
  \<open>error_text i message =
     ''{"id":'' @ int_text i @ '',"jsonrpc":"2.0","error":{"code":-1,"message":"'' @ message @ ''"}}'' @ [NL]\<close>

definition success_text :: "int \<Rightarrow> string \<Rightarrow> string" where
  \<open>success_text i status =
     ''{"id":'' @ int_text i @ '',"jsonrpc":"2.0","error":null,"result":{"status":"'' @ status @ ''"}}'' @ [NL]\<close>

definition replyWithError :: "miner_env \<Rightarrow> int \<Rightarrow> string \<Rightarrow> miner \<Rightarrow> miner" where
  "replyWithError env i message m = send_text env (error_text i message) m"

definition success :: "miner_env \<Rightarrow> int \<Rightarrow> string \<Rightarrow> miner \<Rightarrow> miner" where
  "success env i status m = send_text env (success_text i status) m"

section \<open>Strikes\<close>

definition recordShareOutcome :: "miner_env \<Rightarrow> bool \<Rightarrow> miner \<Rightarrow> miner" where
  "recordShareOutcome env accepted m =
     (if accepted then m\<lparr>m_infrastructureFailures := 0, m_shareRejections := 0\<rparr>
      else case w_verifier m of None \<Rightarrow> m
      | Some v \<Rightarrow>
          let limit = v_maxConsecutiveRejections v in
          if limit = 0 then m
          else
            let m1 = m\<lparr>m_shareRejections := m_shareRejections m + 1\<rparr>
            in if limit \<le> m_shareRejections m1 then shutdown env False m1 else m1)"

definition recordInfrastructureOutcome :: "miner_env \<Rightarrow> bool \<Rightarrow> miner \<Rightarrow> miner" where
  "recordInfrastructureOutcome env healthy m =
     (if healthy then m\<lparr>m_infrastructureFailures := 0\<rparr>
      else
        let m1 = m\<lparr>m_infrastructureFailures := m_infrastructureFailures m + 1\<rparr>
        in if kMaxConsecutiveInfrastructureFailures \<le> m_infrastructureFailures m1
           then shutdown env False m1 else m1)"

section \<open>Jobs\<close>

text \<open>A null pointer given to \<open>StringRef\<close> cannot occur: the pool clients only accept jobs with an id.\<close>

definition job_params :: "string \<Rightarrow> cstr \<Rightarrow> string \<Rightarrow> string \<Rightarrow> u64 \<Rightarrow> cstr \<Rightarrow> cstr \<Rightarrow> json" where
  "job_params blob jobId target algo height seedHash signatureKey =
     JObj ([(''blob'', JStr blob), (''job_id'', JStr (or_empty jobId)), (''target'', JStr target),
            (''algo'', JStr algo)] @
       (if height \<noteq> 0 then [(''height'', JInt (uint height))] else []) @
       (case seedHash of None \<Rightarrow> [] | Some s \<Rightarrow> [(''seed_hash'', JStr s)]) @
       (case signatureKey of None \<Rightarrow> []
        | Some k \<Rightarrow> [(''sig_key'', JStr (if length k = 192 then drop 64 k else k))]))"

definition login_result :: "json \<Rightarrow> miner \<Rightarrow> json" where
  "login_result params m =
     JObj [(''id'', case m_rpcId m of None \<Rightarrow> JNull | Some i \<Rightarrow> JStr i), (''job'', params),
       (''extensions'', JArr ((if m_extAlgo m then [JStr ''algo''] else []) @
          (if m_extNicehash m then [JStr ''nicehash''] else []) @
          (if m_extConnect m then [JStr ''connect'', JStr ''tls''] else []) @ [JStr ''keepalive''])),
       (''status'', JStr ''OK'')]"

definition sendJob :: "miner_env \<Rightarrow> string \<Rightarrow> cstr \<Rightarrow> string \<Rightarrow> string \<Rightarrow> u64 \<Rightarrow> cstr \<Rightarrow> cstr \<Rightarrow> miner
    \<Rightarrow> bool \<times> miner" where
  "sendJob env blob jobId target algo height seedHash signatureKey m =
     (let params = job_params blob jobId target algo height seedHash signatureKey in
      if m_state m = WaitReadyState
      then (let m1 = setState env ReadyState m
            in send_doc env (JObj [(''jsonrpc'', JStr ''2.0''), (''id'', JInt (m_loginId m1)), (''error'', JNull),
                 (''result'', login_result params m1)]) m1)
      else send_doc env (JObj [(''jsonrpc'', JStr ''2.0''), (''method'', JStr ''job''), (''params'', params)]) m)"

definition live_job :: "u64 \<Rightarrow> cstr \<Rightarrow> telemetry_job \<Rightarrow> bool" where
  "live_job now i t \<longleftrightarrow> t_id t = i \<and> now < t_issuedAt t + kTelemetryJobTtl"

definition findTelemetryJob :: "u64 \<Rightarrow> cstr \<Rightarrow> miner \<Rightarrow> telemetry_job option" where
  "findTelemetryJob now i m =
     (case m_telemetryJobs m of [] \<Rightarrow> None
      | t # ts \<Rightarrow> if live_job now i t then Some t else find (live_job now i) ts)"

definition rememberJob :: "miner_env \<Rightarrow> job \<Rightarrow> string \<Rightarrow> u64 \<Rightarrow> miner \<Rightarrow> miner" where
  "rememberJob env j hashingBlob issuedDiff m =
     (let now = me_now env;
          seq = m_jobIssuanceSequence m + 1;
          t = \<lparr>t_algorithm = j_algorithm j, t_entropy = j_templateEntropy j, t_hashingBlob = Some hashingBlob,
               t_id = j_id j, t_prevHash = j_templatePrevHash j, t_seedHash = j_rawSeedHash j,
               t_signatureData = m_signatureData m, t_height = j_height j, t_issuedAt = now,
               t_minerDiff = issuedDiff, t_networkDiff = j_diff j, t_issuanceToken = seq,
               t_templateGeneration = j_templateGeneration j, t_templateSourceId = j_templateSourceId j,
               t_nonceOffset = nonceOffset j, t_viewTag = m_viewTag m, t_extraNonce = m_extraNonce m\<rparr>;
          jobs = take kTelemetryJobCount (t # m_telemetryJobs m);
          m1 = m\<lparr>m_jobIssuanceSequence := seq, m_telemetryJobs := jobs\<rparr>
      in if j_templateSourceId j \<noteq> 0 \<and> m_jobHeight m1 \<noteq> 0
         then m1\<lparr>w_cache := setOwnerHeights (m_key m1) (j_templateSourceId j)
                (map t_height (filter (\<lambda>r. t_templateSourceId r = j_templateSourceId j \<and>
                   m_jobHeight m1 \<le> t_height r \<and> now < t_issuedAt r + kTelemetryJobTtl) jobs)) (w_cache m1)\<rparr>
         else m1)"

definition clearTelemetryJobs :: "miner \<Rightarrow> miner" where
  "clearTelemetryJobs m =
     m\<lparr>m_telemetryJobs := [], w_cache := removeOwner (m_key m) (w_cache m), m_issuedDiff := 0,
       m_jobHeight := 0, m_verificationGeneration := m_verificationGeneration m + 1\<rparr>"

definition forwardJob :: "miner_env \<Rightarrow> job \<Rightarrow> cstr \<Rightarrow> miner \<Rightarrow> miner" where
  "forwardJob env j algo m =
     (let m1 = m\<lparr>m_diff := j_diff j, m_issuedDiff := j_diff j, m_currentJobId := j_id j,
                 m_currentJobEntropy := j_templateEntropy j,
                 m_templateGeneration := j_templateGeneration j, m_signatureData := j_rawSigKey j,
                 m_viewTag := 0, m_extraNonce := -1, m_fixedByte := fixedByte j\<rparr>
      in case sendJob env (j_rawBlob j) (j_id j) (j_rawTarget j)
                (case algo of Some a \<Rightarrow> a | None \<Rightarrow> algo_name (j_algorithm j))
                (j_height j) (j_rawSeedHash j) (j_rawSigKey j) m1 of
           (False, m2) \<Rightarrow> m2
         | (True, m2) \<Rightarrow>
             rememberJob env j (j_rawBlob j) (m_issuedDiff m2) (m2\<lparr>m_jobHeight := j_height j\<rparr>))"

text \<open>The target text of a custom difficulty, and the difficulty a miner computes from that text.\<close>

definition custom_target :: "u64 \<Rightarrow> string" where
  "custom_target d =
     (case cvt_bin2hex 9 (drop 4 (le_bytes (0xFFFFFFFFFFFFFFFF div d))) of None \<Rightarrow> [] | Some s \<Rightarrow> s)"

definition custom_issued :: "u64 \<Rightarrow> u64 \<Rightarrow> u64" where
  "custom_issued d jobDiff =
     (let compact = drop_bit 32 (0xFFFFFFFFFFFFFFFF div d) in
      if compact \<noteq> 0 then toDiff (0xFFFFFFFFFFFFFFFF div (0xFFFFFFFF div compact)) else jobDiff)"

text \<open>The fixed byte of a NiceHash miner in the text of the blob.\<close>

definition put_fixed_byte :: "u8 \<Rightarrow> job \<Rightarrow> job" where
  "put_fixed_byte b j = j\<lparr>j_rawBlob := blit (j_rawBlob j) ((nonceOffset j + 3) * 2) (hex_string [b])\<rparr>"

definition setJob :: "miner_env \<Rightarrow> job \<Rightarrow> int \<Rightarrow> miner \<Rightarrow> job \<times> miner" where
  "setJob env job0 extra_nonce m =
     (let j1 = (if m_extNicehash m then put_fixed_byte (m_fixedByte m) job0 else job0);
          customDiff = (m_customDiff m \<noteq> 0 \<and> m_customDiff m < j_diff j1);
          (signatureData, viewTag) =
            (if j_hasMinerSignature j1 then me_signature env j1
             else (if j_rawSigKey j1 \<noteq> None then j_rawSigKey j1 else None, 0));
          m1 = m\<lparr>m_diff := j_diff j1,
                 m_issuedDiff := (if customDiff then custom_issued (m_customDiff m) (j_diff j1) else j_diff j1),
                 m_currentJobId := j_id j1, m_currentJobEntropy := j_templateEntropy j1,
                 m_templateGeneration := j_templateGeneration j1, m_signatureData := signatureData,
                 m_viewTag := viewTag, m_extraNonce := extra_nonce\<rparr>;
          j2 = (if j_hasViewTag j1 then setViewTagInMinerTx viewTag j1 else j1);
          j3 = (if 0 \<le> extra_nonce then setExtraNonceInMinerTx (of_int extra_nonce) j2 else j2);
          blob = (if j_hasMinerSignature j3 \<or> 0 \<le> extra_nonce then me_hashingBlob env j3 else j_rawBlob j3);
          target = (if customDiff then custom_target (m_customDiff m) else j_rawTarget j3)
      in case sendJob env blob (j_id j3) target (algo_name (j_algorithm j3)) (j_height j3) (j_rawSeedHash j3)
                (m_signatureData m1) m1 of
           (False, m2) \<Rightarrow> (j3, m2)
         | (True, m2) \<Rightarrow>
             (j3, rememberJob env j3 blob (m_issuedDiff m2) (m2\<lparr>m_jobHeight := j_height j3\<rparr>)))"

section \<open>Duplicate submissions\<close>

text \<open>Old entries leave the front of the deque; a stamp written later for the same key stays.\<close>

fun evict_seen :: "u64 \<Rightarrow> seen_submission list \<Rightarrow> (string, seen_stamp) umap
    \<Rightarrow> seen_submission list \<times> (string, seen_stamp) umap" where
  "evict_seen now [] stamps = ([], stamps)"
| "evict_seen now (s # ss) stamps =
     (if ss_seenAt s + kSubmissionTtl \<le> now \<or> kMaxRememberedSubmissions \<le> length (s # ss)
      then evict_seen now ss
             (case map_of stamps (ss_key s) of None \<Rightarrow> stamps
              | Some st \<Rightarrow> if st_token st = ss_token s then AList.delete (ss_key s) stamps else stamps)
      else (s # ss, stamps))"

definition remember_local :: "u64 \<Rightarrow> string \<Rightarrow> miner \<Rightarrow> reserve_result \<times> submission \<times> miner" where
  "remember_local now key m =
     (case evict_seen now (m_seenSubmissions m) (m_seenTimes m) of
        (seen, stamps) \<Rightarrow>
          let m1 = m\<lparr>m_seenSubmissions := seen, m_seenTimes := stamps\<rparr> in
          if (case map_of stamps key of None \<Rightarrow> False | Some st \<Rightarrow> now < st_seenAt st + kSubmissionTtl)
          then (Duplicate, no_submission, m1)
          else
            let token = m_submissionSequence m1 + 1 in
            (Accepted, no_submission\<lparr>sb_localKey := key, sb_localToken := token\<rparr>,
             m1\<lparr>m_submissionSequence := token,
                m_seenSubmissions := seen @ [\<lparr>ss_key = key, ss_seenAt = now, ss_token = token\<rparr>],
                m_seenTimes := AList.update key \<lparr>st_seenAt = now, st_token = token\<rparr> stamps\<rparr>))"

definition rememberSubmission :: "u64 \<Rightarrow> telemetry_job \<Rightarrow> cstr \<Rightarrow> cstr \<Rightarrow> cstr \<Rightarrow> miner
    \<Rightarrow> reserve_result \<times> submission \<times> miner" where
  "rememberSubmission now t jobId nonce resultHash m =
     (case (jobId, nonce) of
        (Some i, Some n) \<Rightarrow>
          if t_templateSourceId t \<noteq> 0 \<and> t_height t \<noteq> 0
          then (case makeKey (t_entropy t) resultHash of None \<Rightarrow> (Invalid, no_submission, m)
                | Some key \<Rightarrow>
                    (case reserve (t_templateSourceId t) (t_height t) key (w_cache m) of
                       (res, r, c) \<Rightarrow> (res, no_submission\<lparr>sb_global := r\<rparr>, m\<lparr>w_cache := c\<rparr>)))
          else remember_local now (map to_lower (i @ '':'' @ n)) m
      | _ \<Rightarrow> (Invalid, no_submission, m))"

definition release_globals :: "submission \<Rightarrow> miner \<Rightarrow> miner" where
  "release_globals sb m =
     m\<lparr>w_cache := release (sb_computedGlobal sb) (release (sb_global sb) (w_cache m))\<rparr>"

definition forgetSubmission :: "submission \<Rightarrow> miner \<Rightarrow> miner" where
  "forgetSubmission sb m =
     (let m1 = release_globals sb m in
      if sb_localKey sb = [] \<or> sb_localToken sb = 0 then m1
      else (case map_of (m_seenTimes m1) (sb_localKey sb) of None \<Rightarrow> m1
            | Some st \<Rightarrow>
                if st_token st = sb_localToken sb
                then m1\<lparr>m_seenTimes := AList.delete (sb_localKey sb) (m_seenTimes m1)\<rparr> else m1))"

text \<open>The destructor of a pending share.\<close>

definition destroy_pending :: "pending_share \<Rightarrow> miner \<Rightarrow> miner" where
  "destroy_pending p m = (if ps_retainSubmission p then m else release_globals (ps_submission p) m)"

section \<open>Submit events\<close>

definition fillSubmitMetadata :: "pending_share \<Rightarrow> job_result \<Rightarrow> job_result" where
  "fillSubmitMetadata p q =
     q\<lparr>q_shareId := ps_shareId p, q_height := ps_height p, q_minerDiff := ps_minerDiff p,
       q_networkDiff := ps_networkDiff p, q_templateGeneration := ps_templateGeneration p,
       q_templateSourceId := ps_templateSourceId p, q_templateEntropy := Some (ps_entropy p)\<rparr>"

text \<open>The submit event rebuilt from a pending share, with \<open>hash\<close> as its result.\<close>

definition share_event :: "pending_share \<Rightarrow> string \<Rightarrow> job_result" where
  "share_event p hash =
     fillSubmitMetadata p
       (new_result (ps_requestId p) (Some (ps_jobId p)) (Some (ps_nonce p)) (Some hash) (ps_algorithm p)
          (or_null (ps_signature p)) (or_null (ps_signatureData p)) (or_null (ps_commitment p))
          (ps_viewTag p) (ps_extraNonce p))"

text \<open>
  \<open>SubmitEvent::start\<close> with the error set so far. The dispatcher runs the listeners, whose last word is
  the error of the event; it is also what the error sink holds, unless the dispatcher is busy.
\<close>

definition start_submit :: "miner_env \<Rightarrow> job_result \<Rightarrow> error_code \<Rightarrow> miner \<Rightarrow> bool \<times> error_code \<times> miner" where
  "start_submit env q err m =
     (case me_dispatch env q err of None \<Rightarrow> (False, NoError, m)
      | Some e \<Rightarrow> (e = NoError, e, m_do (M_submit q err) m))"

definition infrastructure_error :: "error_code \<Rightarrow> bool" where
  "infrastructure_error e \<longleftrightarrow> e = BadGateway \<or> e = VerificationFailed"

definition rejectPendingShare :: "miner_env \<Rightarrow> pending_share \<Rightarrow> error_code \<Rightarrow> bool \<Rightarrow> miner \<Rightarrow> miner" where
  "rejectPendingShare env p err countStrike m =
     (let m1 = snd (snd (start_submit env (share_event p (ps_claimedHash p)) err m));
          m2 = replyWithError env (ps_requestId p) (error_toString err) m1
      in if countStrike then recordShareOutcome env False m2 else m2)"

text \<open>The two places that submit a pending share to the daemon: whether the submission is retained.\<close>

definition submit_pending :: "miner_env \<Rightarrow> pending_share \<Rightarrow> string \<Rightarrow> miner \<Rightarrow> bool \<times> miner" where
  "submit_pending env p hash m =
     (case start_submit env (share_event p hash) NoError m of
        (True, _, m1) \<Rightarrow> (True, recordInfrastructureOutcome env True m1)
      | (False, e, m1) \<Rightarrow>
          let m2 = replyWithError env (ps_requestId p) (error_toString e) m1 in
          if infrastructure_error e
          then (False, recordInfrastructureOutcome env False (forgetSubmission (ps_submission p) m2))
          else (True, recordShareOutcome env False m2))"

section \<open>Verification of shares\<close>

definition verify_request_of :: "telemetry_job \<Rightarrow> pending_share \<Rightarrow> u64 \<Rightarrow> verify_request" where
  "verify_request_of t p key =
     \<lparr>vr_owner = key, vr_shareId = ps_shareId p, vr_seedHash = ps_seedHash p, vr_blob = ps_hashingBlob p,
      vr_claimedHash = ps_claimedHash p, vr_jobId = ps_jobId p, vr_nonce = ps_nonce p,
      vr_priority = ps_candidateFallback p\<rparr>"

definition pending_of :: "job_result \<Rightarrow> telemetry_job \<Rightarrow> submission \<Rightarrow> bool \<Rightarrow> miner \<Rightarrow> pending_share" where
  "pending_of q t sb candidateFallback m =
     \<lparr>ps_algorithm = t_algorithm t, ps_mapperId = m_mapperId m, ps_requestId = q_id q,
      ps_extraNonce = q_extra_nonce q, ps_viewTag = q_view_tag q, ps_shareId = q_shareId q,
      ps_height = t_height t, ps_minerDiff = t_minerDiff t, ps_networkDiff = t_networkDiff t,
      ps_issuanceToken = t_issuanceToken t, ps_verificationGeneration = m_verificationGeneration m,
      ps_templateGeneration = t_templateGeneration t, ps_templateSourceId = t_templateSourceId t,
      ps_candidateFallback = candidateFallback, ps_jobId = or_empty (q_jobId q),
      ps_nonce = or_empty (q_nonce q), ps_claimedHash = or_empty (q_result q),
      ps_hashingBlob = blit (or_empty (t_hashingBlob t)) (t_nonceOffset t * 2) (take 8 (or_empty (q_nonce q))),
      ps_prevHash = or_empty (t_prevHash t), ps_seedHash = or_empty (t_seedHash t),
      ps_signature = or_empty (q_sig q), ps_signatureData = or_empty (q_sig_data q),
      ps_commitment = or_empty (q_commitment q), ps_entropy = or_empty (t_entropy t),
      ps_submission = sb, ps_retainSubmission = False\<rparr>"

text \<open>When the verifier does not take the share, the pending share is destroyed and its reservation released.\<close>

definition startVerification :: "miner_env \<Rightarrow> job_result \<Rightarrow> telemetry_job \<Rightarrow> submission \<Rightarrow> bool \<Rightarrow> miner
    \<Rightarrow> bool \<times> miner" where
  "startVerification env q t sb candidateFallback m =
     (case w_verifier m of None \<Rightarrow> (False, m)
      | Some v \<Rightarrow>
          if t_algorithm t \<noteq> RX_0 \<or> str_is_empty (t_hashingBlob t) \<or> str_size (t_seedHash t) \<noteq> 64 \<or>
             str_size (t_hashingBlob t) < t_nonceOffset t * 2 + 8
          then (False, m)
          else
            let p = pending_of q t sb candidateFallback m in
            (case v_verify (me_verify env) (verify_request_of t p (m_key m)) (Some p) v of
               (False, v1) \<Rightarrow> (False, destroy_pending p (m\<lparr>w_verifier := Some v1\<rparr>))
             | (True, v1) \<Rightarrow> (True, recordInfrastructureOutcome env True (m\<lparr>w_verifier := Some v1\<rparr>))))"

definition accepted_result :: "u64 \<Rightarrow> u64 \<Rightarrow> u64 \<Rightarrow> int \<Rightarrow> u64 \<Rightarrow> cstr \<Rightarrow> u64 \<Rightarrow> u64 \<Rightarrow> cstr \<Rightarrow> u64 \<Rightarrow> u64
    \<Rightarrow> submit_result" where
  "accepted_result now diff actualDiff reqId shareId jobId generation height entropy sourceId minerDiff =
     \<lparr>sr_reqId = reqId, sr_seq = 0, sr_backend = 0, sr_shareId = shareId, sr_actualDiff = actualDiff,
      sr_diff = diff, sr_elapsed = 0, sr_height = height, sr_entropy = entropy, sr_jobId = jobId,
      sr_templateGeneration = generation, sr_templateSourceId = sourceId, sr_minerDiff = minerDiff,
      sr_outcome = Unspecified, sr_start = now\<rparr>"

text \<open>The answer came after the connection moved on.\<close>

definition outdated_share :: "u64 \<Rightarrow> pending_share \<Rightarrow> miner \<Rightarrow> bool" where
  "outdated_share now p m \<longleftrightarrow>
     ps_mapperId p \<noteq> m_mapperId m \<or> ps_verificationGeneration p \<noteq> m_verificationGeneration m \<or>
     (case findTelemetryJob now (Some (ps_jobId p)) m of None \<Rightarrow> True
      | Some t \<Rightarrow> t_issuanceToken t \<noteq> ps_issuanceToken p)"

text \<open>The verifier failed: result is whether to retain the submission, and the connection.\<close>

definition verification_failed :: "miner_env \<Rightarrow> pending_share \<Rightarrow> miner \<Rightarrow> bool \<times> miner" where
  "verification_failed env p m =
     (if ps_candidateFallback p
      then
        let (allowed, m1) = (case w_verifier m of None \<Rightarrow> (False, m)
          | Some v \<Rightarrow> (case allowEmergencyCandidate (me_now env) (m_key m) v of
                         (b, v1) \<Rightarrow> (b, m\<lparr>w_verifier := Some v1\<rparr>)))
        in if \<not> allowed
           then (False, rejectPendingShare env p CandidateRateLimit True (forgetSubmission (ps_submission p) m1))
           else submit_pending env p (ps_claimedHash p) m1
      else (False, recordInfrastructureOutcome env False
              (rejectPendingShare env p VerificationFailed False (forgetSubmission (ps_submission p) m))))"

text \<open>After a mismatch the computed hash is reserved too. \<open>Inl\<close>: the share is settled with this outcome.\<close>

definition reserve_computed :: "miner_env \<Rightarrow> pending_share \<Rightarrow> string \<Rightarrow> miner
    \<Rightarrow> bool \<times> miner + pending_share \<times> miner" where
  "reserve_computed env p hash m =
     (let (res, r, c) = (case makeKey (Some (ps_entropy p)) (Some hash) of
            None \<Rightarrow> (Invalid, no_reservation, w_cache m)
          | Some key \<Rightarrow> reserve (ps_templateSourceId p) (ps_height p) key (w_cache m));
          p1 = p\<lparr>ps_submission := (ps_submission p)\<lparr>sb_computedGlobal := r\<rparr>\<rparr>;
          m1 = m\<lparr>w_cache := c\<rparr>
      in if res = Duplicate then Inl (True, rejectPendingShare env p1 DuplicateShare True m1)
         else if res \<noteq> Accepted
         then Inl (False, recordInfrastructureOutcome env False
                (rejectPendingShare env p1 VerificationFailed False (forgetSubmission (ps_submission p1) m1)))
         else Inr (p1, m1))"

text \<open>The decision on a share with a computed hash.\<close>

definition judge_share :: "miner_env \<Rightarrow> pending_share \<Rightarrow> string \<Rightarrow> bool \<Rightarrow> miner \<Rightarrow> bool \<times> miner" where
  "judge_share env p hash exact m =
     (let d = q_actualDiff (share_event p hash) in
      if ps_networkDiff p \<noteq> 0 \<and> d \<noteq> 0 \<and> ps_networkDiff p \<le> d then submit_pending env p hash m
      else if \<not> exact then (True, rejectPendingShare env p InvalidResult True m)
      else if d = 0 \<or> d < ps_minerDiff p then (True, rejectPendingShare env p LowDifficulty True m)
      else if ps_networkDiff p \<le> ps_minerDiff p then (True, rejectPendingShare env p LowDifficulty True m)
      else
        (True, recordShareOutcome env True
          (m_do (M_accept (ps_mapperId p)
             (accepted_result (me_now env) (ps_networkDiff p) d (ps_requestId p) (ps_shareId p)
                (Some (ps_jobId p)) (ps_templateGeneration p) (ps_height p) (Some (ps_entropy p))
                (ps_templateSourceId p) (ps_minerDiff p)))
           (success env (ps_requestId p) ''OK'' m))))"

definition complete_share :: "miner_env \<Rightarrow> pending_share \<Rightarrow> verify_result \<Rightarrow> miner
    \<Rightarrow> bool \<times> pending_share \<times> miner" where
  "complete_share env p res m =
     (if m_state m = ClosingState then (False, p, m)
      else if outdated_share (me_now env) p m then (True, p, rejectPendingShare env p InvalidJobId True m)
      else if \<not> vs_ok res then (case verification_failed env p m of (keep, m1) \<Rightarrow> (keep, p, m1))
      else
        let exact = same_hash (ps_claimedHash p) (vs_hash res) in
        if \<not> exact \<and> reservation_valid (sb_global (ps_submission p)) \<and>
           hasHeight (ps_templateSourceId p) (ps_height p) (w_cache m)
        then (case reserve_computed env p (vs_hash res) m of
                Inl (keep, m1) \<Rightarrow> (keep, p, m1)
              | Inr (p1, m1) \<Rightarrow> (case judge_share env p1 (vs_hash res) exact m1 of (keep, m2) \<Rightarrow> (keep, p1, m2)))
        else (case judge_share env p (vs_hash res) exact m of (keep, m1) \<Rightarrow> (keep, p, m1)))"

text \<open>The completion callback, after which the pending share is destroyed.\<close>

definition completeVerification :: "miner_env \<Rightarrow> pending_share \<Rightarrow> verify_result \<Rightarrow> miner \<Rightarrow> miner" where
  "completeVerification env p res m =
     (case complete_share env p res m of
        (keep, p1, m1) \<Rightarrow> destroy_pending (p1\<lparr>ps_retainSubmission := ps_retainSubmission p \<or> keep\<rparr>) m1)"

section \<open>Requests\<close>

text \<open>The lambdas \<open>loginString\<close> and \<open>strictString\<close>: a text without NUL characters.\<close>

definition loginString :: "json \<Rightarrow> string \<Rightarrow> nat \<Rightarrow> bool \<Rightarrow> cstr" where
  "loginString params name maxSize required =
     (case find_member params name of
        None \<Rightarrow> if required then None else Some []
      | Some (JStr s) \<Rightarrow> if maxSize < length s \<or> CHR 0x00 \<in> set s then None else Some s
      | Some _ \<Rightarrow> None)"

definition strictString :: "json \<Rightarrow> string \<Rightarrow> cstr" where
  "strictString params name =
     (case find_member params name of Some (JStr s) \<Rightarrow> if CHR 0x00 \<in> set s then None else Some s | _ \<Rightarrow> None)"

definition login_algorithms :: "json \<Rightarrow> algo list" where
  "login_algorithms params =
     (case find_member params ''algo'' of
        Some (JArr xs) \<Rightarrow>
          filter algo_isValid
            (concat (map (\<lambda>x. case x of JStr s \<Rightarrow> if CHR 0x00 \<in> set s then [] else [algo_parse (Some s)]
                                     | _ \<Rightarrow> []) xs))
      | _ \<Rightarrow> [])"

definition parse_login :: "miner_env \<Rightarrow> int \<Rightarrow> json \<Rightarrow> miner \<Rightarrow> bool \<times> miner" where
  "parse_login env i params m =
     (case (loginString params ''login'' 256 True, loginString params ''pass'' 1024 True,
            loginString params ''agent'' 512 False, loginString params ''rigid'' 256 False) of
        (Some login, Some password, Some agent, Some rigId) \<Rightarrow>
          let m1 = setState env WaitReadyState m;
              m2 = (if w_verifier m1 \<noteq> None then m1\<lparr>m_expire := me_now env + 60000\<rparr> else m1)
          in (True, m_do (M_login i (login_algorithms params) params)
                (m2\<lparr>m_loginId := i, m_user := Some login, m_password := Some password,
                    m_agent := Some agent, m_rigId := Some rigId\<rparr>))
      | _ \<Rightarrow> (False, m))"

definition invalidAlgorithmField :: "json \<Rightarrow> bool" where
  "invalidAlgorithmField params \<longleftrightarrow>
     (case find_member params ''algo'' of
        None \<Rightarrow> False
      | Some (JStr s) \<Rightarrow>
          CHR 0x00 \<in> set s \<or> s \<noteq> [] \<and> \<not> algo_isValid (algo_parse (strictString params ''algo''))
      | Some _ \<Rightarrow> True)"

text \<open>The share of a submit request, with the metadata of the job it refers to.\<close>

definition submit_request :: "int \<Rightarrow> json \<Rightarrow> telemetry_job option \<Rightarrow> u64 \<Rightarrow> miner \<Rightarrow> job_result" where
  "submit_request i params job shareId m =
     (let q = (new_result i (strictString params ''job_id'') (strictString params ''nonce'')
                 (strictString params ''result'') (algo_parse (strictString params ''algo''))
                 (strictString params ''sig'')
                 (case job of Some t \<Rightarrow> t_signatureData t | None \<Rightarrow> m_signatureData m)
                 (strictString params ''commitment'')
                 (case job of Some t \<Rightarrow> t_viewTag t | None \<Rightarrow> m_viewTag m)
                 (case job of Some t \<Rightarrow> t_extraNonce t | None \<Rightarrow> m_extraNonce m))\<lparr>q_shareId := shareId\<rparr>
      in case job of None \<Rightarrow> q
         | Some t \<Rightarrow>
             q\<lparr>q_templateEntropy := t_entropy t, q_height := t_height t, q_minerDiff := t_minerDiff t,
               q_networkDiff := t_networkDiff t, q_templateGeneration := t_templateGeneration t,
               q_templateSourceId := t_templateSourceId t\<rparr>)"

definition validNonceEncoding :: "cstr \<Rightarrow> bool" where
  "validNonceEncoding n = (case n of None \<Rightarrow> False
     | Some s \<Rightarrow> length s = 8 \<and> fst (fromHex_into (replicate 4 0) s 8))"

definition validResultEncoding :: "cstr \<Rightarrow> bool" where
  "validResultEncoding r = (case r of None \<Rightarrow> False
     | Some s \<Rightarrow> length s = 64 \<and> fst (fromHex_into (replicate 32 0) s 64))"

text \<open>The checks on a share, in their order; the last one reserves its identity.\<close>

definition check_share :: "u64 \<Rightarrow> json \<Rightarrow> job_result \<Rightarrow> telemetry_job option \<Rightarrow> miner
    \<Rightarrow> error_code \<times> submission \<times> miner" where
  "check_share now params q job m =
     (case (strictString params ''job_id'', job) of
        (Some _, Some t) \<Rightarrow>
          if \<not> validNonceEncoding (q_nonce q) then (InvalidNonce, no_submission, m)
          else if \<not> validResultEncoding (q_result q) then (InvalidResult, no_submission, m)
          else if invalidAlgorithmField params \<or> algo_isValid (q_algorithm q) \<and> q_algorithm q \<noteq> t_algorithm t
          then (IncorrectAlgorithm, no_submission, m)
          else if isStale (t_height t) (m_jobHeight m) then (StaleShare, no_submission, m)
          else if w_verifier m = None \<and> q_actualDiff q < t_minerDiff t then (LowDifficulty, no_submission, m)
          else if m_extNicehash m \<and> \<not> isCompatible (m_fixedByte m) q then (InvalidNonce, no_submission, m)
          else (case rememberSubmission now t (q_jobId q) (q_nonce q) (q_result q) m of
                  (Duplicate, sb, m1) \<Rightarrow> (DuplicateShare, sb, m1)
                | (Accepted, sb, m1) \<Rightarrow> (NoError, sb, m1)
                | (_, sb, m1) \<Rightarrow> (VerificationFailed, sb, m1))
      | _ \<Rightarrow> (InvalidJobId, no_submission, m))"

definition claimed_candidate :: "job_result \<Rightarrow> telemetry_job option \<Rightarrow> bool" where
  "claimed_candidate q job \<longleftrightarrow>
     (case job of None \<Rightarrow> False | Some t \<Rightarrow> t_networkDiff t \<noteq> 0 \<and> t_networkDiff t \<le> q_actualDiff q)"

text \<open>
  Routing an unobjectionable share to the verifier when there is one: \<open>None\<close> when the verifier took it,
  else the error to go on with. Shares that claim to be blocks go on directly while the limits allow.
\<close>

definition verifier_gate :: "miner_env \<Rightarrow> job_result \<Rightarrow> telemetry_job option \<Rightarrow> error_code \<Rightarrow> submission \<Rightarrow> miner
    \<Rightarrow> error_code option \<times> miner" where
  "verifier_gate env q job err sb m =
     (case (err, w_verifier m, job) of
        (NoError, Some v, Some t) \<Rightarrow>
          let claimed = claimed_candidate q job;
              (needs, m1) = (if claimed
                 then (case allowCandidate (me_now env) (m_key m) v of
                         (allowed, v1) \<Rightarrow> (\<not> allowed, m\<lparr>w_verifier := Some v1\<rparr>))
                 else (False, m))
          in if claimed \<and> \<not> needs then (Some NoError, m1)
             else (case startVerification env q t sb needs m1 of
                     (True, m2) \<Rightarrow> (None, m2)
                   | (False, m2) \<Rightarrow>
                       if \<not> needs then (Some VerificationFailed, forgetSubmission sb m2)
                       else (case w_verifier m2 of None \<Rightarrow> (Some NoError, m2)
                             | Some v2 \<Rightarrow>
                                 (case allowEmergencyCandidate (me_now env) (m_key m2) v2 of
                                    (False, v3) \<Rightarrow>
                                      (Some CandidateRateLimit, forgetSubmission sb (m2\<lparr>w_verifier := Some v3\<rparr>))
                                  | (True, v3) \<Rightarrow> (Some NoError, m2\<lparr>w_verifier := Some v3\<rparr>))))
      | _ \<Rightarrow> (Some err, m))"

text \<open>The last part: local acceptance of a share below the network difficulty, or the submit event.\<close>

definition finish_submit :: "miner_env \<Rightarrow> int \<Rightarrow> job_result \<Rightarrow> error_code \<Rightarrow> submission \<Rightarrow> miner \<Rightarrow> bool \<times> miner" where
  "finish_submit env i q err sb m =
     (if err = NoError \<and> w_verifier m = None \<and> q_minerDiff q < q_networkDiff q \<and>
         q_actualDiff q < q_networkDiff q
      then (True, m_do (M_accept (m_mapperId m)
              (accepted_result (me_now env) (q_networkDiff q) (q_actualDiff q) (q_id q) (q_shareId q)
                 (q_jobId q) (q_templateGeneration q) (q_height q) (q_templateEntropy q)
                 (q_templateSourceId q) (q_minerDiff q)))
              (success env i ''OK'' m))
      else (case start_submit env q err m of
              (True, e, m1) \<Rightarrow> (e \<noteq> InvalidNonce, recordInfrastructureOutcome env True m1)
            | (False, e, m1) \<Rightarrow>
                let m2 = (if infrastructure_error e then forgetSubmission sb m1 else m1);
                    m3 = replyWithError env i (error_toString e) m2
                in (e \<noteq> InvalidNonce,
                    if infrastructure_error e then recordInfrastructureOutcome env False m3
                    else recordShareOutcome env False m3)))"

definition submit_share :: "miner_env \<Rightarrow> int \<Rightarrow> json \<Rightarrow> miner \<Rightarrow> bool \<times> miner" where
  "submit_share env i params m =
     (let job = findTelemetryJob (me_now env) (strictString params ''job_id'') m;
          q = submit_request i params job (w_shareSequence m + 1) m
      in case check_share (me_now env) params q job (m\<lparr>w_shareSequence := w_shareSequence m + 1\<rparr>) of
           (err, sb, m1) \<Rightarrow>
             (case verifier_gate env q job err sb m1 of
                (None, m2) \<Rightarrow> (True, m2)
              | (Some err', m2) \<Rightarrow> finish_submit env i q err' sb m2))"

definition parse_submit :: "miner_env \<Rightarrow> int \<Rightarrow> json \<Rightarrow> miner \<Rightarrow> bool \<times> miner" where
  "parse_submit env i params m =
     (let rpcId = strictString params ''id'' in
      if rpcId = None \<or> m_rpcId m \<noteq> rpcId
      then (True, replyWithError env i (error_toString Unauthenticated) (heartbeat env m))
      else submit_share env i params (heartbeat env m))"

definition parseRequest :: "miner_env \<Rightarrow> int \<Rightarrow> string \<Rightarrow> json \<Rightarrow> miner \<Rightarrow> bool \<times> miner" where
  "parseRequest env i meth params m =
     (case params of
        JObj _ \<Rightarrow>
          if m_state m = WaitLoginState
          then (if meth = ''login'' then parse_login env i params m else (False, m))
          else if m_state m = WaitReadyState then (False, m)
          else if meth = ''submit'' then parse_submit env i params m
          else if meth = ''keepalived'' then (True, success env i ''KEEPALIVED'' (heartbeat env m))
          else (True, replyWithError env i (error_toString InvalidMethod) m)
      | _ \<Rightarrow> (False, m))"

section \<open>Reading\<close>

text \<open>A request of the right shape: its id, method and parameters.\<close>

definition request_fields :: "json \<Rightarrow> (int \<times> string \<times> json) option" where
  "request_fields doc =
     (case (find_member doc ''id'', find_member doc ''method'', find_member doc ''params'') of
        (Some (JInt i), Some (JStr s), Some (JObj ps)) \<Rightarrow>
          if - (2 ^ 63) \<le> i \<and> i < 2 ^ 63 \<and> CHR 0x00 \<notin> set s then Some (i, s, JObj ps) else None
      | _ \<Rightarrow> None)"

definition m_parse :: "miner_env \<Rightarrow> string \<Rightarrow> miner \<Rightarrow> miner" where
  "m_parse env line m =
     (if m_state m = ClosingState then m
      else if length line < 32 \<or> line ! 0 \<noteq> CHR ''{'' then shutdown env True m
      else (case me_parse env (c_string line) of
              Some (JObj ms) \<Rightarrow>
                (case request_fields (JObj ms) of
                   None \<Rightarrow> shutdown env True m
                 | Some (i, meth, params) \<Rightarrow>
                     (case parseRequest env i meth params m of
                        (True, m1) \<Rightarrow> m1 | (False, m1) \<Rightarrow> shutdown env True m1))
            | _ \<Rightarrow> shutdown env True m))"

datatype read_result = Read_eof | Read_error | Read_bytes string

text \<open>\<open>startTLS\<close>: a first byte that does not open a JSON object, or the strict setting, starts TLS.\<close>

definition startTLS :: "string \<Rightarrow> miner \<Rightarrow> miner" where
  "startTLS data m =
     (if m_hasTlsCtx m \<and> (m_strictTls m \<or> data ! 0 \<noteq> CHR ''{'') then m\<lparr>m_tls := True\<rparr> else m)"

text \<open>
  \<open>tls_read\<close> is what OpenSSL does with encrypted bytes: it may hand decrypted lines to the connection.
\<close>

definition m_read :: "(string \<Rightarrow> miner \<Rightarrow> miner) \<Rightarrow> miner_env \<Rightarrow> read_result \<Rightarrow> miner \<Rightarrow> miner" where
  "m_read tls_read env r m =
     (case r of
        Read_eof \<Rightarrow> shutdown env False m
      | Read_error \<Rightarrow> shutdown env True m
      | Read_bytes data \<Rightarrow>
          let m1 = (if data \<noteq> [] \<and> m_rx m = 0 then startTLS data m else m);
              m2 = m1\<lparr>m_rx := m_rx m1 + of_nat (length data)\<rparr>
          in if m_tls m2 then tls_read data m2
             else (case lr_parse data (m_reader m2) of
                     (ok, ls, reader) \<Rightarrow>
                       let m3 = fold (m_parse env) ls (m2\<lparr>m_reader := reader\<rparr>)
                       in if ok then m3 else shutdown env True m3))"

definition onTimeout :: "miner_env \<Rightarrow> miner \<Rightarrow> miner" where
  "onTimeout env m = shutdown env True m"

text \<open>The destructor: what the connection held in the cache and the verifier is given back.\<close>

definition destroy_miner :: "miner \<Rightarrow> miner" where
  "destroy_miner m =
     (let m1 = m\<lparr>w_cache := removeOwner (m_key m) (w_cache m)\<rparr>;
          m2 = (case w_verifier m1 of None \<Rightarrow> m1
                | Some v \<Rightarrow>
                    let gone = filter (\<lambda>(i, p). vr_owner (pv_request p) = m_key m) (v_pending v)
                    in fold (\<lambda>(i, p). destroy_pending (pv_callback p)) gone
                         (m1\<lparr>w_verifier := Some (v_cancelOwner (m_key m) v)\<rparr>))
      in m2\<lparr>w_counters := (w_counters m2)\<lparr>ct_connections := ct_connections (w_counters m2) - 1\<rparr>\<rparr>)"

end
