(* ===== verification/Miner_Props.thy ===== *)
theory Miner_Props
  imports Miner
begin

text \<open>
  The lifecycle of a miner connection. Every operation moves it forward: the state only advances, the
  process-wide counter follows the ready connections, and the socket is closed once, when the state
  becomes closing. The relation \<open>moves\<close> says so of one operation; its rules are collected in
  \<open>moves_rules\<close> and compose along the code.
\<close>

section \<open>Forward moves\<close>

fun rank :: "miner_state \<Rightarrow> nat" where
  "rank WaitLoginState = 0"
| "rank WaitReadyState = 1"
| "rank ReadyState = 2"
| "rank ClosingState = 3"

fun closes :: "miner_action \<Rightarrow> bool" where
  "closes M_close = True"
| "closes M_shutdown = True"
| "closes _ = False"

definition ready_count :: "miner \<Rightarrow> u64" where
  "ready_count m = (if m_state m = ReadyState then 1 else 0)"

definition close_count :: "miner \<Rightarrow> nat" where
  "close_count m = (if m_state m = ClosingState then 1 else 0)"

definition moves :: "miner \<Rightarrow> miner \<Rightarrow> bool" where
  "moves m m' \<longleftrightarrow>
     rank (m_state m) \<le> rank (m_state m') \<and>
     ct_miners (w_counters m') - ready_count m' = ct_miners (w_counters m) - ready_count m \<and>
     ct_connections (w_counters m') = ct_connections (w_counters m) \<and>
     (\<exists>out. w_out m' = w_out m @ out) \<and>
     close_count m' + length (filter closes (w_out m)) = close_count m + length (filter closes (w_out m'))"

named_theorems moves_rules

lemma moves_refl [moves_rules]: "moves m m"
  by (simp add: moves_def)

lemma moves_trans: "moves m m' \<Longrightarrow> moves m' m'' \<Longrightarrow> moves m m''"
  unfolding moves_def by (elim conjE exE) auto

text \<open>An update of the fields the relation does not look at.\<close>

lemma moves_same:
  "m_state m' = m_state m \<Longrightarrow> w_counters m' = w_counters m \<Longrightarrow> w_out m' = w_out m \<Longrightarrow> moves m m'"
  by (simp add: moves_def ready_count_def close_count_def)

lemma moves_before: "moves m1 m' \<Longrightarrow> m_state m1 = m_state m \<Longrightarrow> w_counters m1 = w_counters m \<Longrightarrow>
   w_out m1 = w_out m \<Longrightarrow> moves m m'"
  by (simp add: moves_def ready_count_def close_count_def)

lemma moves_after: "moves m m1 \<Longrightarrow> m_state m' = m_state m1 \<Longrightarrow> w_counters m' = w_counters m1 \<Longrightarrow>
   w_out m' = w_out m1 \<Longrightarrow> moves m m'"
  by (simp add: moves_def ready_count_def close_count_def)

lemma moves_act: "\<not> closes a \<Longrightarrow> moves m (m_do a m)"
  by (simp add: moves_def ready_count_def close_count_def m_do_def)

lemma moves_fold: "(\<And>x m. moves m (f x m)) \<Longrightarrow> moves m (fold f xs m)"
  by (induction xs arbitrary: m) (auto simp: moves_refl intro: moves_trans)

lemma counters_add_remove [simp]:
  "ct_miners (counters_add c) = ct_miners c + 1" "ct_miners (counters_remove c) = ct_miners c - 1"
  "ct_connections (counters_add c) = ct_connections c" "ct_connections (counters_remove c) = ct_connections c"
  by (simp_all add: counters_add_def counters_remove_def Let_def)

lemma moves_setState_ready: "m_state m = WaitReadyState \<Longrightarrow> moves m (setState env ReadyState m)"
  by (simp add: moves_def setState_def Let_def heartbeat_def ready_count_def close_count_def)

lemma moves_setState_wait: "m_state m = WaitLoginState \<Longrightarrow> moves m (setState env WaitReadyState m)"
  by (simp add: moves_def setState_def Let_def ready_count_def close_count_def)

lemma moves_shutdown [moves_rules]: "moves m (shutdown env e m)"
  by (cases "m_state m")
    (simp_all add: moves_def shutdown_def setState_def Let_def m_do_def ready_count_def close_count_def)

lemma state_shutdown [simp]: "m_state (shutdown env e m) = ClosingState"
  by (simp add: shutdown_def setState_def m_do_def Let_def)

section \<open>The operations\<close>

lemma moves_writeRaw [moves_rules]: "moves m (snd (writeRaw env n m))"
  by (simp add: writeRaw_def Let_def moves_rules split: try_result.split)

lemma moves_send_buffer [moves_rules]: "moves m (snd (send_buffer env n m))"
proof -
  obtain ok m1 where w: "writeRaw env n m = (ok, m1)" by fastforce
  have "moves m m1" using moves_writeRaw [of m env n] w by simp
  moreover have "moves m1 (shutdown env True m1)" by (rule moves_shutdown)
  moreover have "moves m1 (m1\<lparr>m_tx := t\<rparr>)" for t by (simp add: moves_same)
  ultimately show ?thesis using w by (cases ok) (auto simp: send_buffer_def moves_rules intro: moves_trans)
qed

lemma moves_send_text [moves_rules]: "moves m (send_text env t m)"
proof -
  obtain ok m1 where w: "send_buffer env (length t) m = (ok, m1)" by fastforce
  have "moves m m1" using moves_send_buffer [of m env "length t"] w by simp
  moreover have "moves m1 (m_do (M_text t) m1)" by (rule moves_act) simp
  ultimately show ?thesis using w by (cases ok) (auto simp: send_text_def intro: moves_trans)
qed

lemma moves_send_doc [moves_rules]: "moves m (snd (send_doc env d m))"
proof -
  obtain ok m1 where w: "send_buffer env (me_size env d + 1) m = (ok, m1)" by fastforce
  have "moves m m1" using moves_send_buffer [of m env "me_size env d + 1"] w by simp
  moreover have "moves m1 (m_do (M_doc d) m1)" by (rule moves_act) simp
  ultimately show ?thesis using w by (cases ok) (auto simp: send_doc_def Let_def moves_rules intro: moves_trans)
qed

lemma moves_reply [moves_rules]: "moves m (replyWithError env i t m)" "moves m (success env i t m)"
  by (simp_all add: replyWithError_def success_def moves_rules)

lemma moves_share_outcome [moves_rules]: "moves m (recordShareOutcome env b m)"
  by (auto simp: recordShareOutcome_def Let_def moves_rules split: option.split
      intro: moves_same moves_before [OF moves_shutdown])

lemma moves_infrastructure [moves_rules]: "moves m (recordInfrastructureOutcome env b m)"
  by (auto simp: recordInfrastructureOutcome_def Let_def intro: moves_same moves_before [OF moves_shutdown])

lemma moves_sendJob [moves_rules]: "moves m (snd (sendJob env b i t a h s k m))"
  by (auto simp: sendJob_def Let_def moves_rules intro: moves_trans [OF moves_setState_ready moves_send_doc])

lemma moves_rememberJob [moves_rules]: "moves m (rememberJob env j b d m)"
  by (auto simp: rememberJob_def Let_def intro: moves_same)

lemma moves_clearTelemetryJobs [moves_rules]: "moves m (clearTelemetryJobs m)"
  by (simp add: clearTelemetryJobs_def moves_same)

text \<open>Sending a job and remembering it when that worked.\<close>

lemma moves_job_sent:
  assumes "m_state m1 = m_state m" "w_counters m1 = w_counters m" "w_out m1 = w_out m"
    and "sendJob env b i t a h s k m1 = (ok, m2)"
  shows "moves m m2" and "moves m (rememberJob env j b' d (m2\<lparr>m_jobHeight := h'\<rparr>))"
proof -
  have "moves m1 m2" using moves_sendJob [of m1 env b i t a h s k] assms(4) by simp
  then show *: "moves m m2" using assms(1-3) by (rule moves_before)
  have "moves m2 (m2\<lparr>m_jobHeight := h'\<rparr>)" by (simp add: moves_same)
  then show "moves m (rememberJob env j b' d (m2\<lparr>m_jobHeight := h'\<rparr>))"
    by (rule moves_trans [OF * moves_trans [OF _ moves_rememberJob]])
qed

lemma moves_forward_case:
  assumes "m_state m1 = m_state m" "w_counters m1 = w_counters m" "w_out m1 = w_out m"
  shows "moves m (case sendJob env b i t a h s k m1 of (False, m2) \<Rightarrow> m2
    | (True, m2) \<Rightarrow> rememberJob env j b' (m_issuedDiff m2) (m2\<lparr>m_jobHeight := h'\<rparr>))"
proof -
  obtain ok m2 where "sendJob env b i t a h s k m1 = (ok, m2)" by fastforce
  with moves_job_sent [OF assms this] show ?thesis by (cases ok) simp_all
qed

lemma moves_set_case:
  assumes "m_state m1 = m_state m" "w_counters m1 = w_counters m" "w_out m1 = w_out m"
  shows "moves m (snd (case sendJob env b i t a h s k m1 of (False, m2) \<Rightarrow> (j, m2)
    | (True, m2) \<Rightarrow> (j, rememberJob env j b' (m_issuedDiff m2) (m2\<lparr>m_jobHeight := h'\<rparr>))))"
proof -
  obtain ok m2 where "sendJob env b i t a h s k m1 = (ok, m2)" by fastforce
  with moves_job_sent [OF assms this] show ?thesis by (cases ok) simp_all
qed

lemma moves_forwardJob [moves_rules]: "moves m (forwardJob env j a m)"
  unfolding forwardJob_def Let_def by (rule moves_forward_case) simp_all

lemma moves_setJob [moves_rules]: "moves m (snd (setJob env j x m))"
proof -
  define j1 where "j1 = (if m_extNicehash m then put_fixed_byte (m_fixedByte m) j else j)"
  obtain sd vt where st: "(if j_hasMinerSignature j1 then me_signature env j1
      else (if j_rawSigKey j1 \<noteq> None then j_rawSigKey j1 else None, 0)) = (sd, vt)" by fastforce
  show ?thesis
    unfolding setJob_def Let_def j1_def [symmetric] st prod.case by (rule moves_set_case) simp_all
qed

section \<open>Shares\<close>

lemma moves_release [moves_rules]: "moves m (release_globals sb m)"
  by (simp add: release_globals_def moves_same)

lemma moves_forget [moves_rules]: "moves m (forgetSubmission sb m)"
  by (auto simp: forgetSubmission_def Let_def moves_rules split: option.split
      intro: moves_after [OF moves_release])

lemma moves_destroy_pending [moves_rules]: "moves m (destroy_pending p m)"
  by (simp add: destroy_pending_def moves_rules)

lemma moves_remember_local: "moves m (snd (snd (remember_local now k m)))"
  by (auto simp: remember_local_def Let_def intro: moves_same split: prod.split)

lemma moves_rememberSubmission [moves_rules]: "moves m (snd (snd (rememberSubmission now t i n r m)))"
  by (auto simp: rememberSubmission_def moves_remember_local moves_refl moves_same split: option.split prod.split)

lemma moves_start_submit [moves_rules]: "moves m (snd (snd (start_submit env q e m)))"
  by (simp add: start_submit_def moves_rules moves_act split: option.split)

text \<open>The rules in the form that extends a move by one more operation.\<close>

lemmas moves_steps =
  moves_shutdown [THEN [2] moves_trans] moves_reply [THEN [2] moves_trans]
  moves_share_outcome [THEN [2] moves_trans] moves_infrastructure [THEN [2] moves_trans]
  moves_forget [THEN [2] moves_trans] moves_release [THEN [2] moves_trans]
  moves_destroy_pending [THEN [2] moves_trans]

lemma moves_reject [moves_rules]: "moves m (rejectPendingShare env p e c m)"
proof -
  have "moves m (snd (snd (start_submit env (share_event p (ps_claimedHash p)) e m)))" by (rule moves_start_submit)
  then show ?thesis unfolding rejectPendingShare_def Let_def by (auto intro: moves_steps)
qed

lemma moves_submit_pending [moves_rules]: "moves m (snd (submit_pending env p h m))"
proof -
  obtain ok e m1 where st: "start_submit env (share_event p h) NoError m = (ok, e, m1)" by (metis prod_cases3)
  then have "moves m m1" using moves_start_submit [of m env "share_event p h" NoError] by simp
  with st show ?thesis by (cases ok) (auto simp: submit_pending_def Let_def intro: moves_steps)
qed

lemma moves_startVerification [moves_rules]: "moves m (snd (startVerification env q t sb c m))"
proof -
  have v: "moves m (m\<lparr>w_verifier := v\<rparr>)" for v by (simp add: moves_same)
  show ?thesis
    by (auto simp: startVerification_def Let_def moves_refl intro!: moves_steps v split: option.split prod.split bool.split)
qed

lemma moves_emergency:
  "moves m (snd (case w_verifier m of None \<Rightarrow> (False, m)
     | Some v \<Rightarrow> (case allowEmergencyCandidate now k v of (b, v1) \<Rightarrow> (b, m\<lparr>w_verifier := Some v1\<rparr>))))"
  by (auto simp: moves_refl moves_same split: option.split prod.split)

lemma moves_verification_failed [moves_rules]: "moves m (snd (verification_failed env p m))"
proof -
  obtain a m1 where e: "(case w_verifier m of None \<Rightarrow> (False, m)
     | Some v \<Rightarrow> (case allowEmergencyCandidate (me_now env) (m_key m) v of
                    (b, v1) \<Rightarrow> (b, m\<lparr>w_verifier := Some v1\<rparr>))) = (a, m1)" by fastforce
  then have "moves m m1" using moves_emergency [of m "me_now env" "m_key m"] by simp
  moreover have "moves m (forgetSubmission (ps_submission p) m)" by (rule moves_forget)
  ultimately show ?thesis
    unfolding verification_failed_def Let_def e prod.case
    by (auto intro: moves_steps moves_trans [OF _ moves_reject] moves_trans [OF _ moves_submit_pending])
qed

definition moved_sum :: "miner \<Rightarrow> bool \<times> miner + pending_share \<times> miner \<Rightarrow> bool" where
  "moved_sum m r \<longleftrightarrow> (case r of Inl (_, m1) \<Rightarrow> moves m m1 | Inr (_, m1) \<Rightarrow> moves m m1)"

lemma moves_reserve_computed: "moved_sum m (reserve_computed env p h m)"
proof -
  obtain res r c where k: "(case makeKey (Some (ps_entropy p)) (Some h) of None \<Rightarrow> (Invalid, no_reservation, w_cache m)
     | Some key \<Rightarrow> reserve (ps_templateSourceId p) (ps_height p) key (w_cache m)) = (res, r, c)" by (metis prod_cases3)
  have c: "moves m (m\<lparr>w_cache := c\<rparr>)" by (simp add: moves_same)
  show ?thesis
    unfolding reserve_computed_def Let_def k prod.case
    by (auto simp: moved_sum_def c intro!: moves_steps moves_trans [OF _ moves_reject])
qed

lemma moves_judge_share [moves_rules]: "moves m (snd (judge_share env p h x m))"
  by (auto simp: judge_share_def Let_def moves_rules
      intro!: moves_steps moves_trans [OF _ moves_act] moves_refl)

lemma moves_complete_share: "moves m (snd (snd (complete_share env p res m)))"
proof -
  have j: "moves m0 m \<Longrightarrow> judge_share env p' h x m = (k, m2) \<Longrightarrow> moves m0 m2" for m0 m p' h x k m2
    using moves_trans [OF _ moves_judge_share [of m env p' h x]] by simp
  have v: "verification_failed env p m = (k, m2) \<Longrightarrow> moves m m2" for k m2
    using moves_verification_failed [of m env p] by simp
  show ?thesis
    using moves_reserve_computed [of m env p "vs_hash res"]
    by (auto simp: complete_share_def Let_def moves_rules moved_sum_def intro: j v moves_refl
        split: sum.split prod.split)
qed

lemma moves_completeVerification [moves_rules]: "moves m (completeVerification env p res m)"
  using moves_complete_share [of m env p res]
  by (auto simp: completeVerification_def intro: moves_steps split: prod.split)

section \<open>Requests\<close>

lemma moves_parse_login:
  assumes "m_state m = WaitLoginState"
  shows "moves m (snd (parse_login env i ps m))"
proof -
  define m1 where "m1 = setState env WaitReadyState m"
  have m1: "moves m m1" using moves_setState_wait [OF assms] by (simp add: m1_def)
  have logged: "moves m (m_do (M_login i a ps) m2)"
    if "m_state m2 = m_state m1" "w_counters m2 = w_counters m1" "w_out m2 = w_out m1" for m2 a
    by (rule moves_trans [OF moves_after [OF m1 that] moves_act]) simp
  show ?thesis
    unfolding parse_login_def Let_def m1_def [symmetric]
    by (auto simp: moves_refl split: option.split intro!: logged)
qed

lemma moves_check_share: "moves m (snd (snd (check_share now ps q job m)))"
proof -
  have r: "rememberSubmission now t i n h m = (x, sb, m1) \<Longrightarrow> moves m m1" for t i n h x sb m1
    using moves_rememberSubmission [of m now t i n h] by simp
  show ?thesis
    unfolding check_share_def
    by (auto simp: moves_refl split: option.split prod.split reserve_result.split intro: r)
qed

lemma moves_verifier_gate: "moves m (snd (verifier_gate env q job err sb m))"
proof -
  have s: "moves m0 m1 \<Longrightarrow> startVerification env q t sb c m1 = (b, m2) \<Longrightarrow> moves m0 m2" for m0 m1 t c b m2
    using moves_trans [OF _ moves_startVerification [of m1 env q t sb c]] by simp
  have v: "moves m0 m1 \<Longrightarrow> moves m0 (m1\<lparr>w_verifier := x\<rparr>)" for m0 m1 x
    by (erule moves_after) simp_all
  show ?thesis
    unfolding verifier_gate_def Let_def
    by (auto simp: moves_refl split: error_code.split option.split prod.split bool.split
        intro!: moves_steps v intro: s [OF moves_refl] s [OF v [OF moves_refl]])
qed

lemma moves_finish_submit: "moves m (snd (finish_submit env i q err sb m))"
proof -
  obtain ok e m1 where st: "start_submit env q err m = (ok, e, m1)" by (metis prod_cases3)
  then have "moves m m1" using moves_start_submit [of m env q err] by simp
  with st show ?thesis
    by (cases ok) (auto simp: finish_submit_def Let_def
        intro!: moves_steps moves_trans [OF moves_reply(2) moves_act])
qed

lemma moves_parse_submit: "moves m (snd (parse_submit env i ps m))"
proof -
  define h where "h = heartbeat env m"
  have h: "moves m h" "moves m (h\<lparr>w_shareSequence := n\<rparr>)" for n
    by (simp_all add: moves_same heartbeat_def h_def)
  define job where "job = findTelemetryJob (me_now env) (strictString ps ''job_id'') h"
  define q where "q = submit_request i ps job (w_shareSequence h + 1) h"
  obtain err sb m1 where c: "check_share (me_now env) ps q job (h\<lparr>w_shareSequence := w_shareSequence h + 1\<rparr>) = (err, sb, m1)"
    by (metis prod_cases3)
  obtain r m2 where v: "verifier_gate env q job err sb m1 = (r, m2)" by fastforce
  have m1: "moves m m1" using moves_trans [OF h(2) moves_check_share] c by (metis snd_conv)
  have m2: "moves m m2" using moves_trans [OF m1 moves_verifier_gate, of env q job err sb] v by simp
  have f: "moves m (snd (finish_submit env i q e sb m2))" for e by (rule moves_trans [OF m2 moves_finish_submit])
  show ?thesis
    unfolding parse_submit_def submit_share_def Let_def h_def [symmetric] job_def [symmetric] q_def [symmetric] c v prod.case
    using m2 f h(1) by (auto split: option.split intro: moves_steps)
qed

lemma moves_parseRequest: "moves m (snd (parseRequest env i meth ps m))"
proof -
  have "moves m (heartbeat env m)" by (simp add: moves_same heartbeat_def)
  then show ?thesis
    by (auto simp: parseRequest_def moves_refl moves_parse_login moves_parse_submit split: json.split
        intro: moves_steps moves_reply)
qed

lemma moves_m_parse [moves_rules]: "moves m (m_parse env line m)"
proof -
  have r: "parseRequest env i meth ps m = (b, m1) \<Longrightarrow> moves m m1" for i meth ps b m1
    using moves_parseRequest [of m env i meth ps] by simp
  show ?thesis
    by (auto simp: m_parse_def moves_rules split: option.split json.split prod.split bool.split
        intro: r moves_steps)
qed

lemma moves_m_read:
  assumes "\<And>data m. moves m (tls_read data m)"
  shows "moves m (m_read tls_read env r m)"
proof (cases r)
  case (Read_bytes data)
  define m1 where "m1 = (if data \<noteq> [] \<and> m_rx m = 0 then startTLS data m else m)"
  define m2 where "m2 = m1\<lparr>m_rx := m_rx m1 + of_nat (length data)\<rparr>"
  have m2: "moves m m2" by (rule moves_same) (simp_all add: m2_def m1_def startTLS_def)
  obtain ok ls reader where lr: "lr_parse data (m_reader m2) = (ok, ls, reader)" by (metis prod_cases3)
  have "moves m (m2\<lparr>m_reader := reader\<rparr>)" by (rule moves_after [OF m2]) simp_all
  then have "moves m (fold (m_parse env) ls (m2\<lparr>m_reader := reader\<rparr>))"
    by (rule moves_trans [OF _ moves_fold]) (rule moves_m_parse)
  then show ?thesis
    using moves_trans [OF m2 assms, of data] lr
    by (simp add: m_read_def Read_bytes Let_def moves_steps flip: m1_def m2_def)
qed (simp_all add: m_read_def moves_rules)

end
