(* ===== verification/Miner_Claims.thy ===== *)
theory Miner_Claims
  imports Miner_Props Job_Props
begin

text \<open>
  What a miner connection promises: its lifecycle over every sequence of operations, the difficulty
  behind the target it sends, what an accepted share has passed, the strikes that close it and the
  detection of repeated submissions.
\<close>

section \<open>Runs of a connection\<close>







definition sample_env :: miner_env where
  "sample_env =
     \<lparr>me_now = 0, me_writable = True, me_try = Wrote, me_queued = True, me_tlsSend = (\<lambda>_. True),
      me_size = (\<lambda>_. 1), me_parse = (\<lambda>_. None), me_dispatch = (\<lambda>_ e. Some e), me_signature = (\<lambda>_. (None, 0)),
      me_hashingBlob = (\<lambda>_. []), me_verify = \<lparr>ve_now = 0, ve_write = (\<lambda>_. Written), ve_size = (\<lambda>_. 1)\<rparr>\<rparr>"

definition sample_world :: world where
  "sample_world =
     \<lparr>w_cache = init_cache, w_verifier = None, w_counters = init_counters, w_shareSequence = 0,
      w_nextId = 0, w_out = []\<rparr>"


section \<open>Custom difficulties\<close>

lemma drop_le_bytes: "drop 4 (le_bytes t) = take 4 (le_bytes (drop_bit 32 t))"
  by (simp add: le_bytes_def drop_map take_map upt_rec)

lemma le_word_take:
  assumes "t < 2 ^ 32"
  shows "le_word (take 4 (le_bytes t)) = t"
proof (rule bit_eqI)
  fix n :: nat
  have small: "bit t k \<Longrightarrow> k < 32" for k
  proof (rule ccontr)
    assume "bit t k" "\<not> k < 32"
    moreover have "unat t < 2 ^ 32" using assms by (simp add: word_less_nat_alt)
    then have "take_bit 32 (unat t) = unat t" by (simp add: take_bit_nat_eq_self)
    moreover have "bit (unat t) k" using calculation(1) bit_imp_le_length [OF calculation(1)] by (simp add: bit_unsigned_iff)
    ultimately have "bit (take_bit 32 (unat t)) k" by simp
    then show False using \<open>\<not> k < 32\<close> by (simp add: bit_take_bit_iff)
  qed
  have le: "n < 64 \<and> bit (le_bytes t ! (n div 8)) (n mod 8) \<longleftrightarrow> bit t n"
    using bit_le_word [of "le_bytes t" n] by simp
  show "bit (le_word (take 4 (le_bytes t))) n = bit t n"
    using le small [of n] by (auto simp: bit_le_word)
qed

lemma hex_le_bytes:
  assumes "t < 2 ^ 32"
  shows "cvt_bin2hex 9 (take 4 (le_bytes t)) = Some (hex_string (take 4 (le_bytes t)))"
    and "fromHex (Some (hex_string (take 4 (le_bytes t)))) 8 = take 4 (le_bytes t)"
proof -
  show "cvt_bin2hex 9 (take 4 (le_bytes t)) = Some (hex_string (take 4 (le_bytes t)))"
    by (simp add: cvt_bin2hex_def bin2hex_loop_eq)
  have "fromHex_raw 4 (Some (hex_string (take 4 (le_bytes t)))) 8 = Some (take 4 (le_bytes t))"
    by (simp add: fromHex_raw_spec unhex_hex_string)
  then show "fromHex (Some (hex_string (take 4 (le_bytes t)))) 8 = take 4 (le_bytes t)"
    by (simp add: fromHex_def)
qed

text \<open>What a miner makes of the target text of a custom difficulty.\<close>

lemma custom_target_difficulty:
  assumes "d \<noteq> 0" and "d < 2 ^ 32" and "j_algorithm j \<noteq> RX_YADA"
  shows "\<exists>t. setTarget (Some (custom_target d)) j =
    Some (True, j\<lparr>j_target := t, j_diff := custom_issued d n, j_rawTarget := custom_target d\<rparr>)"
    and "custom_issued d n \<noteq> 0"
proof -
  define q :: u64 where "q = 0xFFFFFFFFFFFFFFFF div d"
  define c where "c = drop_bit 32 q"
  have d: "0 < unat d" "unat d < 2 ^ 32" using assms by (simp_all add: unat_gt_0 word_less_nat_alt)
  have "unat q = (2 ^ 64 - 1) div unat d" by (simp add: q_def unat_div)
  moreover have "2 ^ 32 * unat d \<le> (2 ^ 64 - 1 :: nat)"
  proof -
    have "2 ^ 32 * unat d \<le> 2 ^ 32 * (2 ^ 32 - 1 :: nat)" using d(2) by (intro mult_le_mono2) linarith
    also have "\<dots> \<le> 2 ^ 64 - 1" by simp
    finally show ?thesis .
  qed
  ultimately have q: "2 ^ 32 \<le> unat q" using d(1) by (simp add: less_eq_div_iff_mult_less_eq)
  have uc: "unat c = unat q div 2 ^ 32" by (simp only: c_def unat_drop_bit_eq) (simp only: drop_bit_eq_div)
  have "unat q < 2 ^ 64" using unsigned_less [of q] by simp
  then have c: "0 < unat c" "unat c < 2 ^ 32" using q by (simp_all add: uc div_greater_zero_iff less_mult_imp_div_less)
  then have c': "c \<noteq> 0" "c < 2 ^ 32" by (auto simp: word_less_nat_alt)
  have ct: "custom_target d = hex_string (take 4 (le_bytes c))"
    using hex_le_bytes(1) [OF c'(2)] by (simp add: custom_target_def drop_le_bytes flip: q_def c_def)
  have "unat (0xFFFFFFFF div c) = (2 ^ 32 - 1) div unat c" by (simp add: unat_div)
  moreover have "0 < (2 ^ 32 - 1) div unat c" using c by (simp add: div_greater_zero_iff)
  ultimately have nz: "0xFFFFFFFF div c \<noteq> 0" by (metis unat_gt_0)
  define t where "t = 0xFFFFFFFFFFFFFFFF div (0xFFFFFFFF div c)"
  have tnz: "t \<noteq> 0" unfolding t_def by (rule word_div_le_max [OF nz])
  have "parse_target (custom_target d) (j_algorithm j) = Some t"
    using assms(3) c' le_word_take [OF c'(2)] hex_le_bytes(2) [OF c'(2)]
    by (simp add: parse_target_def Let_def ct t_def)
  moreover have "custom_issued d n = toDiff t"
    using c' by (simp add: custom_issued_def Let_def t_def flip: q_def c_def)
  ultimately show "\<exists>t. setTarget (Some (custom_target d)) j =
      Some (True, j\<lparr>j_target := t, j_diff := custom_issued d n, j_rawTarget := custom_target d\<rparr>)"
    using tnz by (intro exI [of _ t]) (simp add: setTarget_def ct)
  show "custom_issued d n \<noteq> 0"
    using tnz \<open>custom_issued d n = toDiff t\<close> by (simp add: toDiff_def word_div_le_max)
qed

text \<open>The target text in a document that carries a job.\<close>

definition sent_target :: "json \<Rightarrow> string option" where
  "sent_target doc =
     (let params = (case find_member doc ''params'' of Some p \<Rightarrow> p
        | None \<Rightarrow> (case find_member doc ''result'' of None \<Rightarrow> JNull
                  | Some r \<Rightarrow> (case find_member r ''job'' of None \<Rightarrow> JNull | Some p \<Rightarrow> p)))
      in case find_member params ''target'' of Some (JStr t) \<Rightarrow> Some t | _ \<Rightarrow> None)"

lemma job_params_target: "find_member (job_params b i t a h s k) ''target'' = Some (JStr t)"
  by (simp add: job_params_def)

lemma shutdown_out: "\<exists>out. w_out (shutdown env e m) = w_out m @ out \<and> list_all closes out"
  by (auto simp: shutdown_def m_do_def setState_def Let_def heartbeat_def)

lemma shutdown_shutdown [simp]: "shutdown env e (shutdown env e' m) = shutdown env e' m"
  by (subst shutdown_def) simp

lemma writeRaw_result:
  "writeRaw env n m = (ok, m1) \<Longrightarrow> if ok then m1 = m else m1 = m \<or> m1 = shutdown env True m"
  by (auto simp: writeRaw_def Let_def split: if_splits try_result.splits)

lemma send_buffer_result:
  "send_buffer env n m = (ok, m1) \<Longrightarrow>
   if ok then m1 = m \<or> m1 = m\<lparr>m_tx := m_tx m + of_nat n\<rparr> else m1 = m \<or> m1 = shutdown env True m"
  by (cases "writeRaw env n m")
    (auto simp: send_buffer_def split: if_splits bool.splits dest!: writeRaw_result)

lemma send_doc_result:
  assumes "send_doc env d m = (ok, m1)"
  shows "if ok then \<exists>tx. m1 = m_do (M_doc d) (m\<lparr>m_tx := tx\<rparr>) else m1 = m \<or> m1 = shutdown env True m"
proof (cases "kSendBufSize - 2 < me_size env d")
  case False
  obtain b m2 where s: "send_buffer env (me_size env d + 1) m = (b, m2)" by fastforce
  have same: "\<exists>tx. m_do (M_doc d) m = m_do (M_doc d) (m\<lparr>m_tx := tx\<rparr>)" by (rule exI [of _ "m_tx m"]) simp
  with send_buffer_result [OF s] assms s False show ?thesis
    by (auto simp: send_doc_def Let_def split: if_splits)
qed (use assms in \<open>simp add: send_doc_def Let_def\<close>)

text \<open>The fields a send leaves alone, and the document of a successful one.\<close>

lemma sendJob_result:
  assumes "sendJob env b i t a h s k m = (ok, m1)"
  shows "m_issuedDiff m1 = m_issuedDiff m"
    and "if ok then \<exists>d. w_out m1 = w_out m @ [M_doc d] \<and> sent_target d = Some t
         else \<exists>out. w_out m1 = w_out m @ out \<and> list_all closes out"
proof -
  have keep: "m_issuedDiff (shutdown env e m0) = m_issuedDiff m0" "m_issuedDiff (setState env st m0) = m_issuedDiff m0"
    "w_out (setState env st m0) = w_out m0" for e st m0
    by (simp_all add: shutdown_def setState_def m_do_def Let_def heartbeat_def)
  define params where "params = job_params b i t a h s k"
  define m0 where "m0 = (if m_state m = WaitReadyState then setState env ReadyState m else m)"
  define d where "d = (if m_state m = WaitReadyState
     then JObj [(''jsonrpc'', JStr ''2.0''), (''id'', JInt (m_loginId m0)), (''error'', JNull),
                 (''result'', login_result params m0)]
     else JObj [(''jsonrpc'', JStr ''2.0''), (''method'', JStr ''job''), (''params'', params)])"
  have s: "send_doc env d m0 = (ok, m1)"
    using assms by (simp add: sendJob_def Let_def d_def m0_def params_def split: if_splits)
  have t: "sent_target d = Some t"
    using job_params_target [of b i t a h s k]
    by (simp add: d_def sent_target_def Let_def login_result_def flip: params_def)
  have m0: "w_out m0 = w_out m" "m_issuedDiff m0 = m_issuedDiff m" by (simp_all add: m0_def keep)
  from send_doc_result [OF s] show "m_issuedDiff m1 = m_issuedDiff m"
    using m0 by (auto simp: m_do_def keep split: if_splits)
  from send_doc_result [OF s] show "if ok then \<exists>d. w_out m1 = w_out m @ [M_doc d] \<and> sent_target d = Some t
         else \<exists>out. w_out m1 = w_out m @ out \<and> list_all closes out"
    using m0 t shutdown_out [of env True m0] by (auto simp: m_do_def split: if_splits)
qed

lemma setJob_custom:
  assumes "m_customDiff m \<noteq> 0" and "m_customDiff m < j_diff j"
  shows "\<exists>b a h s k m0 j3. setJob env j x m =
      (case sendJob env b (j_id j3) (custom_target (m_customDiff m)) a h s k m0 of
         (False, m2) \<Rightarrow> (j3, m2)
       | (True, m2) \<Rightarrow> (j3, rememberJob env j3 b (m_issuedDiff m2) (m2\<lparr>m_jobHeight := h\<rparr>))) \<and>
    w_out m0 = w_out m \<and> m_issuedDiff m0 = custom_issued (m_customDiff m) (j_diff j) \<and> j_id j3 = j_id j \<and>
    m_state m0 = m_state m \<and> m_tls m0 = m_tls m"
proof -
  define j0 where "j0 = (if m_extNicehash m then put_fixed_byte (m_fixedByte m) j else j)"
  obtain sd vt where st: "(if j_hasMinerSignature j0 then me_signature env j0
      else (if j_rawSigKey j0 \<noteq> None then j_rawSigKey j0 else None, 0)) = (sd, vt)" by fastforce
  have j0: "j_diff j0 = j_diff j" "j_id j0 = j_id j" by (simp_all add: j0_def put_fixed_byte_def)
  have cd: "(m_customDiff m \<noteq> 0 \<and> m_customDiff m < j_diff j0) = True" using assms j0 by simp
  show ?thesis
    unfolding setJob_def Let_def j0_def [symmetric] st prod.case cd if_True
    by (intro exI, rule conjI, rule refl) (simp add: j0 setViewTagInMinerTx_def setExtraNonceInMinerTx_def)
qed

lemma rememberJob_fields:
  "w_out (rememberJob env j b d m) = w_out m" "m_issuedDiff (rememberJob env j b d m) = m_issuedDiff m"
  "t_minerDiff (hd (m_telemetryJobs (rememberJob env j b d m))) = d"
  "t_id (hd (m_telemetryJobs (rememberJob env j b d m))) = j_id j"
  by (simp_all add: rememberJob_def Let_def kTelemetryJobCount_def)

text \<open>C35: when a job is sent with a custom difficulty, the target text in the document is one every miner can
  decode, and the difficulty it decodes to is the one the connection records for the job and checks
  shares of it against.\<close>

theorem custom_difficulty_agrees:
  assumes "m_customDiff m \<noteq> 0" and "m_customDiff m < j_diff j" and "m_customDiff m < 2 ^ 31"
    and "setJob env j x m = (j1, m1)" and "w_out m1 = w_out m @ [M_doc d]" and "j_algorithm j' \<noteq> RX_YADA"
  shows "\<exists>s j2. sent_target d = Some s \<and> setTarget (Some s) j' = Some (True, j2) \<and> j_diff j2 = miner_diff m1 \<and>
    t_minerDiff (hd (m_telemetryJobs m1)) = miner_diff m1 \<and> t_id (hd (m_telemetryJobs m1)) = j_id j"
proof -
  define n where "n = custom_issued (m_customDiff m) (j_diff j)"
  have small: "m_customDiff m < 2 ^ 32" using assms(3) by (simp add: word_less_nat_alt)
  obtain b a h s k m0 j3 where set: "setJob env j x m =
      (case sendJob env b (j_id j3) (custom_target (m_customDiff m)) a h s k m0 of
         (False, m2) \<Rightarrow> (j3, m2)
       | (True, m2) \<Rightarrow> (j3, rememberJob env j3 b (m_issuedDiff m2) (m2\<lparr>m_jobHeight := h\<rparr>)))"
    and m0: "w_out m0 = w_out m" "m_issuedDiff m0 = n" and j3: "j_id j3 = j_id j"
    using setJob_custom [OF assms(1,2), of env x] unfolding n_def by blast
  obtain ok m2 where send: "sendJob env b (j_id j3) (custom_target (m_customDiff m)) a h s k m0 = (ok, m2)" by fastforce
  have issued: "m_issuedDiff m2 = n" using sendJob_result(1) [OF send] m0(2) by simp
  have ok: ok
  proof (rule ccontr)
    assume "\<not> ok"
    then have "m1 = m2" using set send assms(4) by simp
    moreover obtain out where "w_out m2 = w_out m0 @ out" "list_all closes out"
      using sendJob_result(2) [OF send] \<open>\<not> ok\<close> by auto
    ultimately show False using assms(5) m0(1) by simp
  qed
  then have m1: "m1 = rememberJob env j3 b n (m2\<lparr>m_jobHeight := h\<rparr>)" using set send assms(4) issued by simp
  have target: "sent_target d = Some (custom_target (m_customDiff m))"
    using sendJob_result(2) [OF send] ok assms(5) m0(1) by (auto simp: m1 rememberJob_fields)
  obtain t where t: "setTarget (Some (custom_target (m_customDiff m))) j' =
      Some (True, j'\<lparr>j_target := t, j_diff := n, j_rawTarget := custom_target (m_customDiff m)\<rparr>)"
    using custom_target_difficulty(1) [OF assms(1) small assms(6)] unfolding n_def by blast
  have "n \<noteq> 0" unfolding n_def by (rule custom_target_difficulty(2) [OF assms(1) small assms(6)])
  then have "miner_diff m1 = n" by (simp add: m1 miner_diff_def rememberJob_fields issued)
  with target t show ?thesis by (simp add: m1 rememberJob_fields j3)
qed

section \<open>Accepted shares\<close>

fun is_accept :: "miner_action \<Rightarrow> bool" where
  "is_accept (M_accept _ _) = True"
| "is_accept _ = False"

definition accepts :: "miner \<Rightarrow> miner_action list" where
  "accepts m = filter is_accept (w_out m)"

named_theorems accepts_rules

lemma accepts_act: "accepts (m_do a m) = accepts m @ (if is_accept a then [a] else [])"
  by (simp add: accepts_def m_do_def)

lemma accepts_same: "w_out m' = w_out m \<Longrightarrow> accepts m' = accepts m"
  by (simp add: accepts_def)

lemma accepts_shutdown [accepts_rules]: "accepts (shutdown env e m) = accepts m"
  by (simp add: accepts_def shutdown_def m_do_def setState_def Let_def heartbeat_def)

lemma accepts_send_text [accepts_rules]: "accepts (send_text env t m) = accepts m"
proof -
  obtain ok m1 where s: "send_buffer env (length t) m = (ok, m1)" by fastforce
  have "accepts m1 = accepts m"
    using send_buffer_result [OF s] accepts_shutdown [of env True m] by (auto simp: accepts_def split: if_splits)
  then show ?thesis by (simp add: send_text_def s accepts_act)
qed

lemma accepts_reply [accepts_rules]:
  "accepts (replyWithError env i t m) = accepts m" "accepts (success env i t m) = accepts m"
  by (simp_all add: replyWithError_def success_def accepts_rules)

lemma accepts_outcomes [accepts_rules]:
  "accepts (recordShareOutcome env b m) = accepts m" "accepts (recordInfrastructureOutcome env b m) = accepts m"
  by (auto simp: recordShareOutcome_def recordInfrastructureOutcome_def Let_def accepts_rules split: option.split
      intro: accepts_same)

lemma accepts_forget [accepts_rules]:
  "accepts (release_globals sb m) = accepts m" "accepts (forgetSubmission sb m) = accepts m"
  "accepts (destroy_pending p m) = accepts m"
  by (auto simp: forgetSubmission_def destroy_pending_def release_globals_def Let_def split: option.split
      intro!: accepts_same)

lemma accepts_start_submit: "start_submit env q e m = (ok, e', m1) \<Longrightarrow> accepts m1 = accepts m"
  by (auto simp: start_submit_def accepts_act split: option.splits)

lemma accepts_reject [accepts_rules]: "accepts (rejectPendingShare env p e c m) = accepts m"
proof -
  obtain ok e' m1 where "start_submit env (share_event p (ps_claimedHash p)) e m = (ok, e', m1)" by (metis prod_cases3)
  with accepts_start_submit [OF this] show ?thesis by (simp add: rejectPendingShare_def Let_def accepts_rules)
qed

lemma accepts_submit_pending [accepts_rules]: "accepts (snd (submit_pending env p h m)) = accepts m"
proof -
  obtain ok e m1 where s: "start_submit env (share_event p h) NoError m = (ok, e, m1)" by (metis prod_cases3)
  with accepts_start_submit [OF s] show ?thesis
    by (cases ok) (simp_all add: submit_pending_def Let_def accepts_rules)
qed

lemma accepts_startVerification: "startVerification env q t sb c m = (b, m1) \<Longrightarrow> accepts m1 = accepts m"
proof -
  have v: "accepts (m\<lparr>w_verifier := x\<rparr>) = accepts m" for x by (rule accepts_same) simp
  show "startVerification env q t sb c m = (b, m1) \<Longrightarrow> accepts m1 = accepts m"
    by (auto simp: startVerification_def Let_def accepts_rules v split: option.splits if_splits prod.splits bool.splits)
qed

lemma accepts_rememberSubmission: "rememberSubmission now t i n h m = (x, sb, m1) \<Longrightarrow> accepts m1 = accepts m"
  by (auto simp: rememberSubmission_def remember_local_def Let_def split: option.splits prod.splits if_splits
      intro!: accepts_same)

lemma accepts_verification_failed [accepts_rules]: "accepts (snd (verification_failed env p m)) = accepts m"
proof -
  have v: "accepts (m\<lparr>w_verifier := x\<rparr>) = accepts m" for x by (rule accepts_same) simp
  show ?thesis
    by (auto simp: verification_failed_def Let_def accepts_rules v split: option.split prod.split)
qed

lemma accepts_reserve_computed:
  "reserve_computed env p h m = Inl (b, m1) \<Longrightarrow> accepts m1 = accepts m"
  "reserve_computed env p h m = Inr (p1, m2) \<Longrightarrow> accepts m2 = accepts m"
proof -
  have v: "accepts (m\<lparr>w_cache := x\<rparr>) = accepts m" for x by (rule accepts_same) simp
  show "reserve_computed env p h m = Inl (b, m1) \<Longrightarrow> accepts m1 = accepts m"
    "reserve_computed env p h m = Inr (p1, m2) \<Longrightarrow> accepts m2 = accepts m"
    by (auto simp: reserve_computed_def Let_def accepts_rules v split: option.splits prod.splits if_splits)
qed

lemma share_event_diff: "q_actualDiff (share_event p h) = actual_diff (Some h)"
  by (simp add: share_event_def fillSubmitMetadata_def new_result_def)

text \<open>A share below the network difficulty and at the difficulty of its job.\<close>

definition local_share :: "pending_share \<Rightarrow> u64 \<Rightarrow> bool" where
  "local_share p d \<longleftrightarrow> ps_minerDiff p \<le> d \<and> d < ps_networkDiff p"

lemma accepts_judge:
  "accepts (snd (judge_share env p h x m)) = accepts m \<longleftrightarrow>
    \<not> (x \<and> actual_diff (Some h) \<noteq> 0 \<and> local_share p (actual_diff (Some h)))"
  by (auto simp: judge_share_def Let_def accepts_rules accepts_act share_event_diff local_share_def
      simp del: not_less intro: word_gt_0)

text \<open>C1: with a verifier, a share is accepted exactly when its verdict arrives in time, the verifier computed the
  claimed hash, and the difficulty of that hash reaches the difficulty the job was sent with but not the
  network's; the verdict is in time when the connection is open, on the same upstream, and the job it
  was sent is still live.\<close>

theorem verified_acceptance:
  "(accepts (completeVerification env p res m) \<noteq> accepts m) \<longleftrightarrow>
    (m_state m \<noteq> ClosingState \<and>
     ps_mapperId p = m_mapperId m \<and> ps_verificationGeneration p = m_verificationGeneration m \<and>
     (\<exists>t. findTelemetryJob (me_now env) (Some (ps_jobId p)) m = Some t \<and> t_issuanceToken t = ps_issuanceToken p) \<and>
     vs_ok res \<and> same_hash (ps_claimedHash p) (vs_hash res) \<and>
     (let d = actual_diff (Some (vs_hash res)) in d \<noteq> 0 \<and> ps_minerDiff p \<le> d \<and> d < ps_networkDiff p))"
proof -
  have d: "accepts (completeVerification env p res m) = accepts (snd (snd (complete_share env p res m)))"
    by (simp add: completeVerification_def accepts_rules split: prod.split)
  have out: "outdated_share (me_now env) p m \<longleftrightarrow>
      \<not> (ps_mapperId p = m_mapperId m \<and> ps_verificationGeneration p = m_verificationGeneration m \<and>
     (\<exists>t. findTelemetryJob (me_now env) (Some (ps_jobId p)) m = Some t \<and> t_issuanceToken t = ps_issuanceToken p))"
    by (auto simp: outdated_share_def split: option.split)
  have failed: "verification_failed env p m = (k, m1) \<Longrightarrow> accepts m1 = accepts m" for k m1
    using accepts_verification_failed [of env p m] by simp
  have judged: "judge_share env p' h x m' = (k, m1) \<Longrightarrow> accepts m1 = accepts m' \<longleftrightarrow>
      \<not> (x \<and> actual_diff (Some h) \<noteq> 0 \<and> local_share p' (actual_diff (Some h)))" for p' h x m' k m1
    using accepts_judge [of env p' h x m'] by simp
  show ?thesis
  proof (cases "m_state m = ClosingState \<or> outdated_share (me_now env) p m \<or> \<not> vs_ok res")
    case True
    then show ?thesis
      unfolding d using out
      by (auto simp: complete_share_def accepts_rules dest: failed split: prod.split)
  next
    case open': False
    show ?thesis
    proof (cases "same_hash (ps_claimedHash p) (vs_hash res)")
      case True
      then show ?thesis
        unfolding d using out open'
        by (auto simp: complete_share_def Let_def local_share_def judged split: prod.split)
    next
      case False
      have mismatch: "judge_share env p' h False m' = (k, m1) \<Longrightarrow> accepts m1 = accepts m'" for p' h m' k m1
        by (simp add: judged)
      from False have "accepts (snd (snd (complete_share env p res m))) = accepts m"
        using open' accepts_reserve_computed [of env p "vs_hash res" m]
        by (auto simp: complete_share_def Let_def dest: mismatch split: prod.split sum.split)
      with False show ?thesis unfolding d by simp
    qed
  qed
qed

lemma check_share_result:
  assumes "check_share now params q job m = (err, sb, m1)"
  shows "accepts m1 = accepts m" and "w_verifier m1 = w_verifier m" and "m_mapperId m1 = m_mapperId m"
    and "err = NoError \<longleftrightarrow> (\<exists>t. strictString params ''job_id'' \<noteq> None \<and> job = Some t \<and>
      validNonceEncoding (q_nonce q) \<and> validResultEncoding (q_result q) \<and>
      \<not> (invalidAlgorithmField params \<or> algo_isValid (q_algorithm q) \<and> q_algorithm q \<noteq> t_algorithm t) \<and>
      \<not> isStale (t_height t) (m_jobHeight m) \<and> \<not> (w_verifier m = None \<and> q_actualDiff q < t_minerDiff t) \<and>
      \<not> (m_extNicehash m \<and> \<not> isCompatible (m_fixedByte m) q) \<and>
      fst (rememberSubmission now t (q_jobId q) (q_nonce q) (q_result q) m) = Accepted)"
proof -
  have r: "rememberSubmission now t i n h m = (x, sb', m2) \<Longrightarrow> w_verifier m2 = w_verifier m \<and> m_mapperId m2 = m_mapperId m"
    for t i n h x sb' m2
    by (auto simp: rememberSubmission_def remember_local_def Let_def split: option.splits prod.splits if_splits)
  obtain x sb' m2 where rs: "rememberSubmission now t (q_jobId q) (q_nonce q) (q_result q) m = (x, sb', m2)"
    if "job = Some t" for t by (cases job) (auto, metis prod_cases3)
  show "accepts m1 = accepts m" "w_verifier m1 = w_verifier m" "m_mapperId m1 = m_mapperId m"
    using assms rs r accepts_rememberSubmission
    by (auto simp: check_share_def split: option.splits if_splits reserve_result.splits)
  show "err = NoError \<longleftrightarrow> (\<exists>t. strictString params ''job_id'' \<noteq> None \<and> job = Some t \<and>
      validNonceEncoding (q_nonce q) \<and> validResultEncoding (q_result q) \<and>
      \<not> (invalidAlgorithmField params \<or> algo_isValid (q_algorithm q) \<and> q_algorithm q \<noteq> t_algorithm t) \<and>
      \<not> isStale (t_height t) (m_jobHeight m) \<and> \<not> (w_verifier m = None \<and> q_actualDiff q < t_minerDiff t) \<and>
      \<not> (m_extNicehash m \<and> \<not> isCompatible (m_fixedByte m) q) \<and>
      fst (rememberSubmission now t (q_jobId q) (q_nonce q) (q_result q) m) = Accepted)"
    using assms rs by (auto simp: check_share_def split: option.splits if_splits reserve_result.splits)
qed

lemma verifier_gate_result:
  assumes "verifier_gate env q job err sb m = (r, m1)"
  shows "accepts m1 = accepts m" and "(w_verifier m1 = None) = (w_verifier m = None)" and "m_mapperId m1 = m_mapperId m"
    and "w_verifier m = None \<Longrightarrow> r = Some err \<and> m1 = m"
proof -
  have f: "w_verifier (forgetSubmission sb m0) = w_verifier m0" "m_mapperId (forgetSubmission sb m0) = m_mapperId m0"
      "w_verifier (destroy_pending p m0) = w_verifier m0" "m_mapperId (destroy_pending p m0) = m_mapperId m0"
      "w_verifier (recordInfrastructureOutcome env True m0) = w_verifier m0"
      "m_mapperId (recordInfrastructureOutcome env True m0) = m_mapperId m0" for m0 p
    by (auto simp: forgetSubmission_def destroy_pending_def release_globals_def recordInfrastructureOutcome_def
        Let_def split: option.split)
  have s: "startVerification env q t sb c m0 = (b, m2) \<Longrightarrow>
      accepts m2 = accepts m0 \<and> (w_verifier m2 = None) = (w_verifier m0 = None) \<and> m_mapperId m2 = m_mapperId m0" for t c m0 b m2
    using accepts_startVerification [of env q t sb c m0 b m2]
    by (auto simp: startVerification_def Let_def f split: option.splits if_splits prod.splits bool.splits)
  have v: "accepts (m0\<lparr>w_verifier := x\<rparr>) = accepts m0" for m0 x by (rule accepts_same) simp
  show "w_verifier m = None \<Longrightarrow> r = Some err \<and> m1 = m"
    using assms by (simp add: verifier_gate_def split: error_code.splits)
  show "accepts m1 = accepts m" "(w_verifier m1 = None) = (w_verifier m = None)" "m_mapperId m1 = m_mapperId m"
    using assms
    by (auto simp: verifier_gate_def Let_def v f accepts_rules dest!: s
        split: error_code.splits option.splits prod.splits if_splits bool.splits)
qed

lemma accepts_finish:
  "accepts (snd (finish_submit env i q err sb m)) = accepts m \<longleftrightarrow>
    \<not> (err = NoError \<and> w_verifier m = None \<and> q_minerDiff q < q_networkDiff q \<and> q_actualDiff q < q_networkDiff q)"
proof -
  obtain ok e m1 where s: "start_submit env q err m = (ok, e, m1)" by (metis prod_cases3)
  have "accepts m1 = accepts m" by (rule accepts_start_submit [OF s])
  then show ?thesis
    by (cases ok) (auto simp: finish_submit_def s Let_def accepts_rules accepts_act)
qed

lemma submit_request_fields:
  "q_nonce (submit_request i params job n m) = strictString params ''nonce''"
  "q_result (submit_request i params job n m) = strictString params ''result''"
  "q_jobId (submit_request i params job n m) = strictString params ''job_id''"
  "q_algorithm (submit_request i params job n m) = algo_parse (strictString params ''algo'')"
  "q_actualDiff (submit_request i params job n m) = actual_diff (strictString params ''result'')"
  "q_minerDiff (submit_request i params (Some t) n m) = t_minerDiff t"
  "q_networkDiff (submit_request i params (Some t) n m) = t_networkDiff t"
  by (simp_all add: submit_request_def new_result_def Let_def split: option.split)

lemma remember_other_fields:
  "fst (rememberSubmission now t i n h ((heartbeat env m)\<lparr>w_shareSequence := k\<rparr>)) =
   fst (rememberSubmission now t i n h m)"
  by (auto simp: rememberSubmission_def remember_local_def heartbeat_def Let_def split: option.split prod.split)

lemma submit_unauthenticated:
  "strictString params ''id'' = None \<or> m_rpcId m \<noteq> strictString params ''id'' \<Longrightarrow>
   accepts (snd (parse_submit env i params m)) = accepts m"
proof -
  assume a: "strictString params ''id'' = None \<or> m_rpcId m \<noteq> strictString params ''id''"
  have "parse_submit env i params m = (True, replyWithError env i (error_toString Unauthenticated) (heartbeat env m))"
    unfolding parse_submit_def Let_def by (rule if_P) (rule a)
  moreover have "accepts (heartbeat env m) = accepts m" by (rule accepts_same) (simp add: heartbeat_def)
  ultimately show ?thesis by (simp only: snd_conv accepts_reply)
qed

lemma heartbeat_request: "submit_request i params job n (heartbeat env m) = submit_request i params job n m"
  by (cases job) (simp_all add: submit_request_def heartbeat_def)

lemma heartbeat_fields: "findTelemetryJob now j (heartbeat env m) = findTelemetryJob now j m"
    "w_shareSequence (heartbeat env m) = w_shareSequence m"
  by (simp_all add: findTelemetryJob_def heartbeat_def)
lemma parse_submit_step:
  assumes "\<not> (strictString params ''id'' = None \<or> m_rpcId m \<noteq> strictString params ''id'')"
    and "job = findTelemetryJob (me_now env) (strictString params ''job_id'') m"
    and "q = submit_request i params job (w_shareSequence m + 1) m"
    and "check_share (me_now env) params q job ((heartbeat env m)\<lparr>w_shareSequence := w_shareSequence m + 1\<rparr>) = (err, sb, m1)"
    and "verifier_gate env q job err sb m1 = (r, m2)"
  shows "parse_submit env i params m = (case r of None \<Rightarrow> (True, m2) | Some e \<Rightarrow> finish_submit env i q e sb m2)"
proof -
  have "parse_submit env i params m = submit_share env i params (heartbeat env m)"
    unfolding parse_submit_def Let_def by (rule if_not_P) (rule assms(1))
  also have "\<dots> = (case r of None \<Rightarrow> (True, m2) | Some e \<Rightarrow> finish_submit env i q e sb m2)"
    unfolding submit_share_def Let_def heartbeat_request heartbeat_fields assms(2) [symmetric] assms(3) [symmetric]
      assms(4,5) prod.case
    by (cases r) simp_all
  finally show ?thesis .
qed

text \<open>C7: without a verifier, a submit request is accepted on the spot exactly when it names the session and a
  live job, its nonce and result are hexadecimal of the right length, its algorithm is the job's, the job
  is not stale, the share reaches the difficulty the job was sent with but not the network's, a NiceHash
  nonce carries the fixed byte of the connection, and the share was not seen before.\<close>

theorem local_acceptance:
  "(accepts (snd (parse_submit env i params m)) \<noteq> accepts m) \<longleftrightarrow>
    (w_verifier m = None \<and> m_rpcId m \<noteq> None \<and> strictString params ''id'' = m_rpcId m \<and>
     (\<exists>t. findTelemetryJob (me_now env) (strictString params ''job_id'') m = Some t \<and>
        (let jobId = strictString params ''job_id''; nonce = strictString params ''nonce'';
             result = strictString params ''result''; algorithm = algo_parse (strictString params ''algo'')
         in jobId \<noteq> None \<and> validNonceEncoding nonce \<and> validResultEncoding result \<and>
            \<not> invalidAlgorithmField params \<and> \<not> (algo_isValid algorithm \<and> algorithm \<noteq> t_algorithm t) \<and>
            \<not> isStale (t_height t) (m_jobHeight m) \<and>
            t_minerDiff t \<le> actual_diff result \<and> actual_diff result < t_networkDiff t \<and>
            \<not> (m_extNicehash m \<and>
               \<not> isCompatible (m_fixedByte m) (submit_request i params (Some t) (w_shareSequence m + 1) m)) \<and>
            fst (rememberSubmission (me_now env) t jobId nonce result m) = Accepted)))"
  (is "?L \<longleftrightarrow> ?R")
proof (cases "strictString params ''id'' = None \<or> m_rpcId m \<noteq> strictString params ''id''")
  case True
  then have "\<not> (m_rpcId m \<noteq> None \<and> strictString params ''id'' = m_rpcId m)" by auto
  moreover have "\<not> ?L" using submit_unauthenticated [OF True, of env i] by simp
  ultimately show ?thesis by blast
next
  case named: False
  define h where "h = (heartbeat env m)\<lparr>w_shareSequence := w_shareSequence m + 1\<rparr>"
  define job where "job = findTelemetryJob (me_now env) (strictString params ''job_id'') m"
  define q where "q = submit_request i params job (w_shareSequence m + 1) m"
  have h: "w_verifier h = w_verifier m" "m_jobHeight h = m_jobHeight m" "m_extNicehash h = m_extNicehash m"
    "m_fixedByte h = m_fixedByte m" "accepts h = accepts m"
    by (simp_all add: h_def heartbeat_def accepts_def)
  obtain err sb m1 where c: "check_share (me_now env) params q job h = (err, sb, m1)" by (metis prod_cases3)
  obtain r m2 where g: "verifier_gate env q job err sb m1 = (r, m2)" by fastforce
  note C = check_share_result [OF c] and G = verifier_gate_result [OF g]
  note step = parse_submit_step [OF named job_def q_def c [unfolded h_def] g]
  show ?thesis
  proof (cases "w_verifier m = None")
    case False
    then have "accepts (snd (parse_submit env i params m)) = accepts m"
      using C(1,2) G(1,2) h accepts_finish [of env i q _ sb m2] by (cases r) (simp_all add: step)
    with False show ?thesis by blast
  next
    case True
    then have r: "r = Some err" "m2 = m1" using C(2) G(4) h(1) by simp_all
    have "w_verifier m1 = None" using C(2) True h(1) by simp
    then have L: "?L \<longleftrightarrow> err = NoError \<and> q_minerDiff q < q_networkDiff q \<and> q_actualDiff q < q_networkDiff q"
      unfolding step r using accepts_finish [of env i q err sb m1] C(1) h(5) by auto
    show ?thesis
    proof (cases job)
      case None
      have "err \<noteq> NoError" using C(4) None by (simp only: option.distinct simp_thms ex_simps)
      moreover have "findTelemetryJob (me_now env) (strictString params ''job_id'') m = None" using None by (simp only: job_def)
      ultimately show ?thesis unfolding L by simp
    next
      case (Some t)
      have q: "q = submit_request i params (Some t) (w_shareSequence m + 1) m" by (simp only: q_def Some)
      let ?F = "\<lambda>t. strictString params ''job_id'' \<noteq> None \<and>
          validNonceEncoding (strictString params ''nonce'') \<and> validResultEncoding (strictString params ''result'') \<and>
          \<not> (invalidAlgorithmField params \<or> algo_isValid (algo_parse (strictString params ''algo'')) \<and>
             algo_parse (strictString params ''algo'') \<noteq> t_algorithm t) \<and>
          \<not> isStale (t_height t) (m_jobHeight m) \<and>
          \<not> (w_verifier m = None \<and> actual_diff (strictString params ''result'') < t_minerDiff t) \<and>
          \<not> (m_extNicehash m \<and> \<not> isCompatible (m_fixedByte m) (submit_request i params (Some t) (w_shareSequence m + 1) m)) \<and>
          fst (rememberSubmission (me_now env) t (strictString params ''job_id'') (strictString params ''nonce'')
            (strictString params ''result'') m) = Accepted"
      have "err = NoError \<longleftrightarrow> (\<exists>t'. job = Some t' \<and> ?F t')"
        unfolding C(4) h(1-4) unfolding q submit_request_fields unfolding h_def remember_other_fields
        by (rule ex_cong1) (auto simp: Some)
      then have E: "err = NoError \<longleftrightarrow> ?F t" by (simp only: Some option.inject ex_simps simp_thms)
      have D: "q_minerDiff q = t_minerDiff t" "q_networkDiff q = t_networkDiff t"
        "q_actualDiff q = actual_diff (strictString params ''result'')"
        by (simp_all add: q submit_request_fields)
      have F: "findTelemetryJob (me_now env) (strictString params ''job_id'') m = Some t" using Some by (simp only: job_def)
      have nm: "m_rpcId m \<noteq> None" "strictString params ''id'' = m_rpcId m" using named by auto
      have R: "?R \<longleftrightarrow> ?F t \<and> actual_diff (strictString params ''result'') < t_networkDiff t"
        using nm True unfolding F Let_def not_less by (simp only: option.inject simp_thms ex_simps not_less) argo
      show ?thesis unfolding L E D R using True by auto
    qed
  qed
qed

lemma sendJob_sample:
  "m_state m = WaitLoginState \<Longrightarrow> \<not> m_tls m \<Longrightarrow> \<exists>d m1. sendJob sample_env b i t a h s k m = (True, m1) \<and> w_out m1 = w_out m @ [M_doc d]"
  by (simp add: sendJob_def Let_def send_doc_def kSendBufSize_def send_buffer_def writeRaw_def isWritable_def
      sample_env_def m_do_def)

theorem custom_difficulty_agrees_witness:
  "\<exists>d s j2. w_out (snd (setJob sample_env (setDiff 5000 empty_job) (-1)
        ((new_miner sample_env sample_world False 3333 False ''00'' 1 0)\<lparr>m_customDiff := 1000\<rparr>))) = [M_doc d] \<and>
     sent_target d = Some s \<and> setTarget (Some s) empty_job = Some (True, j2)"
proof -
  define m where "m = (new_miner sample_env sample_world False 3333 False ''00'' 1 0)\<lparr>m_customDiff := 1000\<rparr>"
  define j where "j = setDiff 5000 empty_job"
  have m: "m_customDiff m = 1000" "w_out m = []" "m_state m = WaitLoginState" "m_tls m = False"
    by (simp_all add: m_def new_miner_def sample_world_def)
  have j: "j_diff j = 5000" by (simp add: j_def setDiff_def Let_def)
  have custom: "m_customDiff m \<noteq> 0" "m_customDiff m < j_diff j" by (simp_all add: m j)
  obtain b a h s k m0 j3 where set: "setJob sample_env j (-1) m =
      (case sendJob sample_env b (j_id j3) (custom_target 1000) a h s k m0 of
         (False, m2) \<Rightarrow> (j3, m2)
       | (True, m2) \<Rightarrow> (j3, rememberJob sample_env j3 b (m_issuedDiff m2) (m2\<lparr>m_jobHeight := h\<rparr>)))"
    and m0: "w_out m0 = []" "m_state m0 = WaitLoginState" "\<not> m_tls m0"
    using setJob_custom [OF custom, of sample_env "-1"] unfolding m by blast
  obtain d m2 where "sendJob sample_env b (j_id j3) (custom_target 1000) a h s k m0 = (True, m2)" "w_out m2 = [M_doc d]"
    using sendJob_sample [OF m0(2,3), of b "j_id j3" "custom_target 1000" a h s k] m0(1) by auto
  then have "w_out (snd (setJob sample_env j (-1) m)) = [M_doc d]" using set by (simp add: rememberJob_fields)
  moreover obtain s j2 where "sent_target d = Some s" "setTarget (Some s) empty_job = Some (True, j2)"
    using custom_difficulty_agrees [of m j sample_env "-1" "fst (setJob sample_env j (-1) m)" "snd (setJob sample_env j (-1) m)" d empty_job]
      calculation m j by (auto simp: empty_job_def algo_ids)
  ultimately show ?thesis unfolding m_def [symmetric] j_def [symmetric] by blast
qed

section \<open>Strikes\<close>

lemma strikes_run:
  assumes "w_verifier m = Some v" and "v_maxConsecutiveRejections v = limit" and "limit \<noteq> 0"
    and "m_shareRejections m < limit" and "m_state m \<noteq> ClosingState"
  shows "let m' = (recordShareOutcome env False ^^ n) m in
    w_verifier m' = Some v \<and>
    (if unat (m_shareRejections m) + n < unat limit
     then unat (m_shareRejections m') = unat (m_shareRejections m) + n \<and> m_state m' = m_state m
     else m_state m' = ClosingState)"
proof (induction n)
  case 0
  show ?case using assms by (simp add: word_less_nat_alt)
next
  case (Suc n)
  define m' where "m' = (recordShareOutcome env False ^^ n) m"
  have IH: "w_verifier m' = Some v"
    "if unat (m_shareRejections m) + n < unat limit
     then unat (m_shareRejections m') = unat (m_shareRejections m) + n \<and> m_state m' = m_state m
     else m_state m' = ClosingState"
    using Suc.IH by (simp_all add: Let_def flip: m'_def)
  have step: "recordShareOutcome env False m' =
      (if limit \<le> m_shareRejections m' + 1 then shutdown env False (m'\<lparr>m_shareRejections := m_shareRejections m' + 1\<rparr>)
       else m'\<lparr>m_shareRejections := m_shareRejections m' + 1\<rparr>)"
    using IH(1) assms by (simp add: recordShareOutcome_def Let_def)
  have v: "w_verifier (shutdown env e x) = w_verifier x" for e x
    by (simp add: shutdown_def setState_def m_do_def Let_def heartbeat_def)
  have "unat limit < 2 ^ LENGTH(32)" by (rule unsigned_less)
  then have add: "unat (m_shareRejections m' + 1) = unat (m_shareRejections m') + 1" if "unat (m_shareRejections m') < unat limit"
    using that by (simp add: unat_word_ariths)
  show ?case
  proof (cases "unat (m_shareRejections m) + n < unat limit")
    case True
    then have a: "unat (m_shareRejections m' + 1) = unat (m_shareRejections m) + n + 1"
      using IH(2) add by simp
    show ?thesis
      using True IH a by (auto simp: Let_def step v word_le_nat_alt simp flip: m'_def)
  next
    case False
    then show ?thesis using IH by (simp add: Let_def step v flip: m'_def)
  qed
qed

lemma failures_run:
  assumes "m_infrastructureFailures m < 16" and "m_state m \<noteq> ClosingState"
  shows "let m' = (recordInfrastructureOutcome env False ^^ n) m in
    (if unat (m_infrastructureFailures m) + n < 16
     then unat (m_infrastructureFailures m') = unat (m_infrastructureFailures m) + n \<and> m_state m' = m_state m
     else m_state m' = ClosingState)"
proof (induction n)
  case 0
  show ?case using assms by (simp add: word_less_nat_alt)
next
  case (Suc n)
  define m' where "m' = (recordInfrastructureOutcome env False ^^ n) m"
  have IH: "if unat (m_infrastructureFailures m) + n < 16
     then unat (m_infrastructureFailures m') = unat (m_infrastructureFailures m) + n \<and> m_state m' = m_state m
     else m_state m' = ClosingState"
    using Suc.IH by (simp add: Let_def flip: m'_def)
  have step: "recordInfrastructureOutcome env False m' =
      (if 16 \<le> m_infrastructureFailures m' + 1
       then shutdown env False (m'\<lparr>m_infrastructureFailures := m_infrastructureFailures m' + 1\<rparr>)
       else m'\<lparr>m_infrastructureFailures := m_infrastructureFailures m' + 1\<rparr>)"
    by (simp add: recordInfrastructureOutcome_def Let_def kMaxConsecutiveInfrastructureFailures_def)
  show ?case
  proof (cases "unat (m_infrastructureFailures m) + n < 16")
    case True
    then have "unat (m_infrastructureFailures m' + 1) = unat (m_infrastructureFailures m) + n + 1"
      using IH by (simp add: unat_word_ariths)
    then show ?thesis using True IH by (auto simp: Let_def step word_le_nat_alt simp flip: m'_def)
  next
    case False
    then show ?thesis using IH by (simp add: Let_def step flip: m'_def)
  qed
qed

text \<open>C36: a connection survives fewer rejected shares in a row than the configured limit and is closed by the one that
  reaches it; likewise for sixteen failures in a row of the verifier or daemon, and a good outcome starts
  the count anew.\<close>

theorem strikes_close:
  assumes "w_verifier m = Some v" and "v_maxConsecutiveRejections v \<noteq> 0"
    and "m_shareRejections m < v_maxConsecutiveRejections v" and "m_infrastructureFailures m < 16"
    and "m_state m \<noteq> ClosingState"
  shows "(m_state ((recordShareOutcome env False ^^ n) m) = ClosingState \<longleftrightarrow>
      unat (v_maxConsecutiveRejections v) \<le> unat (m_shareRejections m) + n) \<and>
    (m_state ((recordInfrastructureOutcome env False ^^ n) m) = ClosingState \<longleftrightarrow>
      16 \<le> unat (m_infrastructureFailures m) + n) \<and>
    m_shareRejections (recordShareOutcome env True m) = 0 \<and>
    m_infrastructureFailures (recordInfrastructureOutcome env True m) = 0"
  using strikes_run [OF assms(1) refl assms(2,3,5), of n env] failures_run [OF assms(4,5), of n env] assms(5)
  by (auto simp: Let_def recordShareOutcome_def recordInfrastructureOutcome_def split: if_splits)

theorem strikes_close_witness:
  "m_state ((recordShareOutcome sample_env False ^^ 2)
     ((new_miner sample_env sample_world False 3333 False ''00'' 1 0)
        \<lparr>w_verifier := Some (new_verifier [] 0 0 0 0 0 0 2)\<rparr>)) = ClosingState"
  using strikes_close [where n = 2 and env = sample_env and v = "new_verifier [] 0 0 0 0 0 0 2"
      and m = "(new_miner sample_env sample_world False 3333 False ''00'' 1 0)
        \<lparr>w_verifier := Some (new_verifier [] 0 0 0 0 0 0 2)\<rparr>"]
  by (simp add: new_miner_def new_verifier_def)

section \<open>The direct submit after a refused verification\<close>

text \<open>
  When the verifier refuses an over-limit block candidate, the pending share is destroyed and gives its
  reservation back, although the share is then submitted directly under the emergency limit: the cache
  no longer knows its identity.
\<close>

lemma refused_candidate_unreserved:
  "w_verifier m = Some v \<Longrightarrow> t_algorithm t = RX_0 \<Longrightarrow> \<not> str_is_empty (t_hashingBlob t) \<Longrightarrow>
   str_size (t_seedHash t) = 64 \<Longrightarrow> t_nonceOffset t * 2 + 8 \<le> str_size (t_hashingBlob t) \<Longrightarrow>
   startVerification env q t sb True m = (False, m1) \<Longrightarrow>
   w_cache m1 = release (sb_computedGlobal sb) (release (sb_global sb) (w_cache m))"
  by (auto simp: startVerification_def Let_def destroy_pending_def pending_of_def release_globals_def
      split: prod.splits bool.splits)

end
