(* ===== verification/Miner_Dedup.thy ===== *)
theory Miner_Dedup
  imports Miner_Claims Sliding_Window
begin

text \<open>
  The connection-local detection of repeated shares, which serves the jobs of pools without daemon
  templates: a deque of submissions in the order of their times and a table from keys to the last stamp.
  The abstract specification is the log of accepted submissions: a submission is a duplicate exactly when
  the log holds its key at a time less than two minutes ago. The code implements it as long as its deque
  does not overflow.
\<close>

section \<open>The deque as a sliding window\<close>

definition seen_slide :: "u64 \<Rightarrow> u64 list \<Rightarrow> u64 list" where
  "seen_slide now ts = dropWhile (\<lambda>t. t + kSubmissionTtl \<le> now) ts"

interpretation ttl: sliding_window kSubmissionTtl seen_slide
  by unfold_locales (simp_all add: seen_slide_def)

definition stamp_of :: "seen_submission \<Rightarrow> string \<times> seen_stamp" where
  "stamp_of s = (ss_key s, \<lparr>st_seenAt = ss_seenAt s, st_token = ss_token s\<rparr>)"

text \<open>The table and the deque agree.\<close>

definition table_ok :: "seen_submission list \<Rightarrow> (string, seen_stamp) umap \<Rightarrow> bool" where
  "table_ok ss tab \<longleftrightarrow> um_ok tab \<and> distinct (map ss_key ss) \<and> map_of tab = map_of (map stamp_of ss)"

lemma map_of_stamps_fresh: "k \<notin> ss_key ` set ss \<Longrightarrow> map_of (map stamp_of ss) k = None"
  by (simp add: map_of_eq_None_iff stamp_of_def image_image)

lemma table_ok_tail:
  assumes "table_ok (s # ss) tab"
  shows "table_ok ss (case map_of tab (ss_key s) of None \<Rightarrow> tab
    | Some st \<Rightarrow> if st_token st = ss_token s then AList.delete (ss_key s) tab else tab)"
proof -
  have "map_of tab (ss_key s) = Some \<lparr>st_seenAt = ss_seenAt s, st_token = ss_token s\<rparr>"
    using assms by (simp add: table_ok_def stamp_of_def)
  moreover have "map_of (AList.delete (ss_key s) tab) = map_of (map stamp_of ss)"
  proof
    fix k
    show "map_of (AList.delete (ss_key s) tab) k = map_of (map stamp_of ss) k"
      using assms map_of_stamps_fresh [of k ss] by (auto simp: table_ok_def delete_conv stamp_of_def)
  qed
  ultimately show ?thesis using assms by (simp add: table_ok_def um_ok_delete)
qed

lemma evict_seen_spec:
  "table_ok ss tab \<Longrightarrow> length ss < kMaxRememberedSubmissions \<Longrightarrow> evict_seen now ss tab = (ss', tab') \<Longrightarrow>
   ss' = dropWhile (\<lambda>s. ss_seenAt s + kSubmissionTtl \<le> now) ss \<and> table_ok ss' tab'"
proof (induction now ss tab arbitrary: ss' tab' rule: evict_seen.induct)
  case (2 now s ss tab)
  show ?case
  proof (cases "ss_seenAt s + kSubmissionTtl \<le> now")
    case True
    then show ?thesis using 2 table_ok_tail [OF 2(2)] by auto
  next
    case False
    then show ?thesis using 2 by auto
  qed
qed simp

lemma map_seenAt_dropWhile:
  "map ss_seenAt (dropWhile (\<lambda>s. ss_seenAt s + kSubmissionTtl \<le> now) ss) = seen_slide now (map ss_seenAt ss)"
  by (simp add: seen_slide_def dropWhile_map comp_def)

section \<open>The log\<close>

type_synonym share_log = "(u64 \<times> string) list"

text \<open>The specification: which of the submissions are accepted after those in the log.\<close>

fun reference_log :: "share_log \<Rightarrow> share_log \<Rightarrow> share_log" where
  "reference_log A [] = []"
| "reference_log A ((t, k) # cs) =
     (if list_ex (\<lambda>(t', k'). k' = k \<and> unat t < unat t' + 120000) A then reference_log A cs
      else (t, k) # reference_log (A @ [(t, k)]) cs)"

fun local_log :: "share_log \<Rightarrow> miner \<Rightarrow> share_log" where
  "local_log [] m = []"
| "local_log ((t, k) # cs) m =
     (case remember_local t k m of
        (r, sb, m1) \<Rightarrow> (if r = Accepted then [(t, k)] else []) @ local_log cs m1)"

definition entry :: "seen_submission \<Rightarrow> u64 \<times> string" where
  "entry s = (ss_seenAt s, ss_key s)"

text \<open>The refinement relation between the log and a connection at time \<open>t0\<close>.\<close>

definition logged :: "share_log \<Rightarrow> u64 \<Rightarrow> miner \<Rightarrow> bool" where
  "logged A t0 m \<longleftrightarrow> table_ok (m_seenSubmissions m) (m_seenTimes m) \<and>
     sorted (map ss_seenAt (m_seenSubmissions m)) \<and> (\<forall>s \<in> set (m_seenSubmissions m). ss_seenAt s \<le> t0) \<and>
     (\<exists>old. A = old @ map entry (m_seenSubmissions m) \<and> (\<forall>(t, k) \<in> set old. unat t + 120000 \<le> unat t0))"

lemma logged_step:
  assumes L: "logged A t0 m" and t: "t0 \<le> now" and r: "ttl.in_range now" and n: "length A < kMaxRememberedSubmissions"
    and step: "remember_local now k m = (res, sb, m1)"
  shows "(res = Accepted \<longleftrightarrow> \<not> list_ex (\<lambda>(t', k'). k' = k \<and> unat now < unat t' + 120000) A) \<and>
    logged (A @ (if res = Accepted then [(now, k)] else [])) now m1"
proof -
  let ?old = "\<lambda>s. ss_seenAt s + kSubmissionTtl \<le> now"
  define ss where "ss = m_seenSubmissions m"
  obtain ss1 tab where e: "evict_seen now ss (m_seenTimes m) = (ss1, tab)" by fastforce
  obtain old where A: "A = old @ map entry ss" and old: "\<forall>(t, k) \<in> set old. unat t + 120000 \<le> unat t0"
    using L by (auto simp: logged_def ss_def)
  have ok: "table_ok ss (m_seenTimes m)" and so: "sorted (map ss_seenAt ss)" and le: "\<forall>s \<in> set ss. ss_seenAt s \<le> now"
    using L t by (auto simp: logged_def ss_def)
  have "length ss < kMaxRememberedSubmissions" using n by (simp add: A)
  then have ss1: "ss1 = dropWhile ?old ss" and ok1: "table_ok ss1 tab" using evict_seen_spec [OF ok _ e] by blast+
  have expired: "?old s \<longleftrightarrow> unat (ss_seenAt s) + 120000 \<le> unat now" if "s \<in> set ss" for s
  proof -
    have "unat (ss_seenAt s + kSubmissionTtl) = unat (ss_seenAt s) + 120000"
      using ttl.unat_plus_W [OF r, of "ss_seenAt s"] le that by (simp add: kSubmissionTtl_def)
    then show ?thesis by (simp add: word_le_nat_alt)
  qed
  have ws: "ss = takeWhile ?old ss @ ss1" by (simp add: ss1)
  have times: "map ss_seenAt ss1 = filter (\<lambda>t. \<not> t + kSubmissionTtl \<le> now) (map ss_seenAt ss)"
    unfolding ss1 map_seenAt_dropWhile using so le r by (intro ttl.slide_recent) auto
  have live: "unat now < unat (ss_seenAt s) + 120000" if "s \<in> set ss1" for s
  proof -
    have "ss_seenAt s \<in> set (map ss_seenAt ss1)" using that by simp
    then have "\<not> ?old s" unfolding times by simp
    moreover have "s \<in> set ss" using that by (subst ws) simp
    ultimately show ?thesis using expired by simp
  qed
  define old1 where "old1 = old @ map entry (takeWhile ?old ss)"
  have A1: "A = old1 @ map entry ss1" using ws by (simp add: A old1_def flip: map_append)
  have gone: "\<forall>(t, k) \<in> set old1. unat t + 120000 \<le> unat now"
  proof -
    have "unat t0 \<le> unat now" using t by (simp add: word_le_nat_alt)
    then have "\<forall>(t, k) \<in> set old. unat t + 120000 \<le> unat now" using old by fastforce
    moreover have "unat (ss_seenAt s) + 120000 \<le> unat now" if "s \<in> set (takeWhile ?old ss)" for s
      using expired [of s] set_takeWhileD [OF that] by simp
    ultimately show ?thesis by (auto simp: old1_def entry_def)
  qed
  have dup: "list_ex (\<lambda>(t', k'). k' = k \<and> unat now < unat t' + 120000) A \<longleftrightarrow> k \<in> ss_key ` set ss1"
    using gone live by (fastforce simp: A1 list_ex_iff entry_def)
  have tab: "(case map_of tab k of None \<Rightarrow> False | Some st \<Rightarrow> now < st_seenAt st + kSubmissionTtl) \<longleftrightarrow> k \<in> ss_key ` set ss1"
  proof (cases "k \<in> ss_key ` set ss1")
    case True
    then obtain s where s: "s \<in> set ss1" "k = ss_key s" by auto
    have "distinct (map fst (map stamp_of ss1))" using ok1 by (simp add: table_ok_def stamp_of_def comp_def)
    then have "map_of tab k = Some \<lparr>st_seenAt = ss_seenAt s, st_token = ss_token s\<rparr>"
      using ok1 s by (simp add: table_ok_def) (auto intro!: map_of_is_SomeI simp: stamp_of_def image_iff)
    moreover have "s \<in> set ss" using s(1) by (subst ws) simp
    moreover have "\<not> ?old s" using live [OF s(1)] expired [OF calculation(2)] by simp
    ultimately show ?thesis using True by (simp add: not_le)
  next
    case False
    then have "map_of tab k = None" using ok1 map_of_stamps_fresh [of k ss1] by (simp add: table_ok_def)
    with False show ?thesis by simp
  qed
  have so1: "sorted (map ss_seenAt ss1)" unfolding times using so sorted_wrt_filter by blast
  have le1: "\<forall>s \<in> set ss1. ss_seenAt s \<le> now" using le ws by (metis Un_iff set_append)
  show ?thesis
  proof (cases "k \<in> ss_key ` set ss1")
    case True
    then have "res = Duplicate" "m1 = m\<lparr>m_seenSubmissions := ss1, m_seenTimes := tab\<rparr>"
      using step tab by (simp_all add: remember_local_def Let_def e flip: ss_def)
    then show ?thesis using True dup ok1 so1 le1 A1 gone by (auto simp: logged_def)
  next
    case False
    define s where "s = \<lparr>ss_key = k, ss_seenAt = now, ss_token = m_submissionSequence m + 1\<rparr>"
    have res: "res = Accepted" and m1: "m_seenSubmissions m1 = ss1 @ [s]"
      "m_seenTimes m1 = AList.update k \<lparr>st_seenAt = now, st_token = m_submissionSequence m + 1\<rparr> tab"
      using step tab False by (auto simp: remember_local_def Let_def e s_def simp flip: ss_def)
    have "table_ok (ss1 @ [s]) (m_seenTimes m1)"
      using ok1 False map_of_stamps_fresh [of k ss1]
      by (auto simp: table_ok_def m1 um_ok_update s_def stamp_of_def update_conv' map_add_def fun_eq_iff split: option.split)
    moreover have "sorted (map ss_seenAt (ss1 @ [s]))" using so1 le1 by (simp add: sorted_append s_def)
    ultimately show ?thesis
      using res False dup le1 A1 gone by (auto simp: logged_def m1 s_def entry_def)
  qed
qed

lemma local_log_refines:
  "logged A t0 m \<Longrightarrow> sorted (t0 # map fst cs) \<Longrightarrow> \<forall>t \<in> fst ` set cs. ttl.in_range t \<Longrightarrow>
   length A + length cs \<le> kMaxRememberedSubmissions \<Longrightarrow> local_log cs m = reference_log A cs"
proof (induction cs arbitrary: A t0 m)
  case (Cons c cs)
  obtain now k where c: "c = (now, k)" by (cases c)
  obtain res sb m1 where s: "remember_local now k m = (res, sb, m1)" by (metis prod_cases3)
  have p: "t0 \<le> now" "ttl.in_range now" "length A < kMaxRememberedSubmissions" using Cons.prems by (simp_all add: c)
  note st = logged_step [OF Cons.prems(1) p s]
  have so: "sorted (now # map fst cs)" using Cons.prems(2) by (simp add: c)
  have ra: "\<forall>t \<in> fst ` set cs. ttl.in_range t" using Cons.prems(3) by simp
  have "local_log cs m1 = reference_log (A @ (if res = Accepted then [(now, k)] else [])) cs"
    using Cons.prems(4) by (intro Cons.IH [OF st [THEN conjunct2] so ra]) simp
  then show ?case using st by (simp add: c s)
qed simp

text \<open>C17: the duplicate detection of a connection implements its specification: submissions at non-decreasing times
  are accepted exactly as the log says, a submission being refused exactly when one with its key was
  accepted less than two minutes before.\<close>

theorem local_dedup_refines:
  assumes "sorted (map fst cs)" and "\<forall>t \<in> fst ` set cs. unat t + 120000 < 2 ^ 64" and "length cs \<le> 65536"
  shows "local_log cs (new_miner env w ctx port strict rpcId key stamp) = reference_log [] cs"
proof (rule local_log_refines)
  show "logged [] 0 (new_miner env w ctx port strict rpcId key stamp)"
    by (simp add: logged_def new_miner_def table_ok_def um_ok_def)
  show "\<forall>t \<in> fst ` set cs. ttl.in_range t"
    using assms(2) by (simp add: ttl.in_range_def) (simp add: kSubmissionTtl_def)
qed (use assms in \<open>simp_all add: kMaxRememberedSubmissions_def\<close>)

theorem local_dedup_refines_witness:
  "local_log [(1, ''a:1''), (2, ''a:2''), (3, ''a:1''), (120001, ''a:1'')]
     (new_miner sample_env sample_world False 3333 False ''00'' 1 0) = [(1, ''a:1''), (2, ''a:2''), (120001, ''a:1'')]"
  by (subst local_dedup_refines) simp_all

end
