(* ===== verification/Strategy.thy ===== *)
theory Strategy
  imports Job_Result
begin

text \<open>
  The strategies that choose the pool a mapper works with: a single pool
  (\<open>base/net/stratum/strategies/SinglePoolStrategy.cpp\<close>), a list of pools with failover
  (\<open>FailoverStrategy.cpp\<close>) and the donation pool (\<open>net/strategies/DonateStrategy.cpp\<close>). A strategy
  drives its clients and tells its listener, the mapper, what happened. The clients of a failover
  strategy have their position in \<open>m_pools\<close> as identifier, the client of a single pool is 0 and that of
  the donation pool is -1. Both the calls on the clients and the calls of the listener go, in their
  order, to an output list. What a client answers (the number of a submission, its current job) is an
  argument. The listener does not call back into the strategy from the notices modelled here.
\<close>

section \<open>Calls and notices\<close>

datatype 'p strategy_call =
    S_create 'p int int bool
  | S_connect nat
  | S_disconnect nat
  | S_setAlgo nat algo
  | S_setProxy nat cstr
  | S_tick nat u64
  | S_submit nat job_result
  | S_active int
  | S_pause
  | S_job int job
  | S_login int
  | S_result int submit_result cstr
  | S_verifyAlgorithm int algo

section \<open>A single pool\<close>

record 'p single_pool =
  sp_active :: bool
  sp_out :: "'p strategy_call list"

definition sp_call :: "'p strategy_call \<Rightarrow> 'p single_pool \<Rightarrow> 'p single_pool" where
  "sp_call a s = s\<lparr>sp_out := sp_out s @ [a]\<rparr>"

definition new_single_pool :: "'p \<Rightarrow> int \<Rightarrow> int \<Rightarrow> bool \<Rightarrow> 'p single_pool" where
  "new_single_pool pool retryPause retries quiet =
     \<lparr>sp_active = False, sp_out = [S_create pool retries (retryPause * 1000) quiet]\<rparr>"

definition sp_submit :: "int \<Rightarrow> job_result \<Rightarrow> 'p single_pool \<Rightarrow> int \<times> 'p single_pool" where
  "sp_submit seq q s = (seq, sp_call (S_submit 0 q) s)"

definition sp_connect :: "'p single_pool \<Rightarrow> 'p single_pool" where
  "sp_connect s = sp_call (S_connect 0) s"

definition sp_resume :: "job \<Rightarrow> 'p single_pool \<Rightarrow> 'p single_pool" where
  "sp_resume j s = (if \<not> sp_active s then s else sp_call (S_job 0 j) s)"

definition sp_setAlgo :: "algo \<Rightarrow> 'p single_pool \<Rightarrow> 'p single_pool" where
  "sp_setAlgo a s = sp_call (S_setAlgo 0 a) s"

definition sp_setProxy :: "cstr \<Rightarrow> 'p single_pool \<Rightarrow> 'p single_pool" where
  "sp_setProxy p s = sp_call (S_setProxy 0 p) s"

definition sp_stop :: "'p single_pool \<Rightarrow> 'p single_pool" where
  "sp_stop s = sp_call (S_disconnect 0) s"

definition sp_tick :: "u64 \<Rightarrow> 'p single_pool \<Rightarrow> 'p single_pool" where
  "sp_tick now s = sp_call (S_tick 0 now) s"

definition sp_onClose :: "int \<Rightarrow> 'p single_pool \<Rightarrow> 'p single_pool" where
  "sp_onClose failures s = (if \<not> sp_active s then s else sp_call S_pause (s\<lparr>sp_active := False\<rparr>))"

definition sp_onJobReceived :: "job \<Rightarrow> 'p single_pool \<Rightarrow> 'p single_pool" where
  "sp_onJobReceived j s = sp_call (S_job 0 j) s"

definition sp_onLogin :: "'p single_pool \<Rightarrow> 'p single_pool" where
  "sp_onLogin s = sp_call (S_login 0) s"

definition sp_onLoginSuccess :: "'p single_pool \<Rightarrow> 'p single_pool" where
  "sp_onLoginSuccess s = sp_call (S_active 0) (s\<lparr>sp_active := True\<rparr>)"

definition sp_onResultAccepted :: "submit_result \<Rightarrow> cstr \<Rightarrow> 'p single_pool \<Rightarrow> 'p single_pool" where
  "sp_onResultAccepted r err s = sp_call (S_result 0 r err) s"

definition sp_onVerifyAlgorithm :: "algo \<Rightarrow> 'p single_pool \<Rightarrow> 'p single_pool" where
  "sp_onVerifyAlgorithm a s = sp_call (S_verifyAlgorithm 0 a) s"

section \<open>A list of pools\<close>

record 'p failover =
  fo_quiet :: bool
  fo_retries :: int
  fo_retryPause :: int
  fo_active :: int
  fo_index :: nat
  fo_pools :: "'p list"
  fo_out :: "'p strategy_call list"

definition fo_call :: "'p strategy_call \<Rightarrow> 'p failover \<Rightarrow> 'p failover" where
  "fo_call a s = s\<lparr>fo_out := fo_out s @ [a]\<rparr>"

definition fo_add :: "'p \<Rightarrow> 'p failover \<Rightarrow> 'p failover" where
  "fo_add pool s =
     fo_call (S_create pool (fo_retries s) (fo_retryPause s * 1000) (fo_quiet s))
       (s\<lparr>fo_pools := fo_pools s @ [pool]\<rparr>)"

definition empty_failover :: "int \<Rightarrow> int \<Rightarrow> bool \<Rightarrow> 'p failover" where
  "empty_failover retryPause retries quiet =
     \<lparr>fo_quiet = quiet, fo_retries = retries, fo_retryPause = retryPause, fo_active = -1, fo_index = 0,
      fo_pools = [], fo_out = []\<rparr>"

definition new_failover :: "'p list \<Rightarrow> int \<Rightarrow> int \<Rightarrow> bool \<Rightarrow> 'p failover" where
  "new_failover pools retryPause retries quiet =
     fold fo_add pools (empty_failover retryPause retries quiet)"

definition fo_isActive :: "'p failover \<Rightarrow> bool" where
  "fo_isActive s \<longleftrightarrow> 0 \<le> fo_active s"

text \<open>The position of \<open>IStrategy::client\<close>: the active pool, else the one being tried.\<close>

definition fo_client :: "'p failover \<Rightarrow> nat" where
  "fo_client s = (if fo_isActive s then nat (fo_active s) else fo_index s)"

definition fo_submit :: "int \<Rightarrow> job_result \<Rightarrow> 'p failover \<Rightarrow> int \<times> 'p failover" where
  "fo_submit seq q s =
     (if \<not> fo_isActive s then (-1, s) else (seq, fo_call (S_submit (nat (fo_active s)) q) s))"

definition fo_connect :: "'p failover \<Rightarrow> 'p failover" where
  "fo_connect s = fo_call (S_connect (fo_index s)) s"

definition fo_resume :: "job \<Rightarrow> 'p failover \<Rightarrow> 'p failover" where
  "fo_resume j s = (if \<not> fo_isActive s then s else fo_call (S_job (fo_active s) j) s)"

definition fo_setAlgo :: "algo \<Rightarrow> 'p failover \<Rightarrow> 'p failover" where
  "fo_setAlgo a s = fold (\<lambda>i. fo_call (S_setAlgo i a)) [0..<length (fo_pools s)] s"

definition fo_setProxy :: "cstr \<Rightarrow> 'p failover \<Rightarrow> 'p failover" where
  "fo_setProxy p s = fold (\<lambda>i. fo_call (S_setProxy i p)) [0..<length (fo_pools s)] s"

definition fo_stop :: "'p failover \<Rightarrow> 'p failover" where
  "fo_stop s =
     (let s1 = fold (\<lambda>i. fo_call (S_disconnect i)) [0..<length (fo_pools s)] s
      in fo_call S_pause (s1\<lparr>fo_index := 0, fo_active := -1\<rparr>))"

definition fo_tick :: "u64 \<Rightarrow> 'p failover \<Rightarrow> 'p failover" where
  "fo_tick now s = fold (\<lambda>i. fo_call (S_tick i now)) [0..<length (fo_pools s)] s"

text \<open>\<open>m_index\<close> is the position of a pool (lemma \<open>failover_ok_op\<close>), so the difference of sizes does not wrap.\<close>

definition fo_onClose :: "nat \<Rightarrow> int \<Rightarrow> 'p failover \<Rightarrow> 'p failover" where
  "fo_onClose client failures s =
     (if failures = -1 then s
      else
        let s1 = (if fo_active s = int client then fo_call S_pause (s\<lparr>fo_active := -1\<rparr>) else s)
        in if fo_index s1 = 0 \<and> failures < fo_retries s1 then s1
           else if fo_index s1 = client \<and> 1 < length (fo_pools s1) - fo_index s1
           then fo_call (S_connect (fo_index s1 + 1)) (s1\<lparr>fo_index := fo_index s1 + 1\<rparr>)
           else s1)"

definition fo_onLogin :: "nat \<Rightarrow> 'p failover \<Rightarrow> 'p failover" where
  "fo_onLogin client s = fo_call (S_login (int client)) s"

definition fo_onJobReceived :: "nat \<Rightarrow> job \<Rightarrow> 'p failover \<Rightarrow> 'p failover" where
  "fo_onJobReceived client j s =
     (if fo_active s = int client then fo_call (S_job (int client) j) s else s)"

definition fo_onLoginSuccess :: "nat \<Rightarrow> 'p failover \<Rightarrow> 'p failover" where
  "fo_onLoginSuccess client s =
     (let active = (if client = 0 \<or> \<not> fo_isActive s then int client else fo_active s);
          s1 = fold (\<lambda>i s. if active \<noteq> int i then fo_call (S_disconnect i) s else s)
                 [1..<length (fo_pools s)] s
      in if 0 \<le> active \<and> active \<noteq> fo_active s1
         then fo_call (S_active (int client)) (s1\<lparr>fo_index := nat active, fo_active := active\<rparr>)
         else s1)"

definition fo_onResultAccepted :: "nat \<Rightarrow> submit_result \<Rightarrow> cstr \<Rightarrow> 'p failover \<Rightarrow> 'p failover" where
  "fo_onResultAccepted client r err s = fo_call (S_result (int client) r err) s"

definition fo_onVerifyAlgorithm :: "nat \<Rightarrow> algo \<Rightarrow> 'p failover \<Rightarrow> 'p failover" where
  "fo_onVerifyAlgorithm client a s = fo_call (S_verifyAlgorithm (int client) a) s"

section \<open>The donation pool\<close>

text \<open>
  The times at which donation starts are computed with floating point numbers from a random number:
  \<open>first\<close> in the constructor, \<open>retarget\<close> in \<open>reschedule\<close> from the ticks, the ticks spent and the level.
\<close>

record donate_pending =
  dp_job :: job
  dp_host :: cstr
  dp_port :: int

record donate =
  ds_active :: bool
  ds_pending :: donate_pending
  ds_donateTicks :: u64
  ds_target :: u64
  ds_ticks :: u64
  ds_out :: "unit strategy_call list"

definition ds_call :: "unit strategy_call \<Rightarrow> donate \<Rightarrow> donate" where
  "ds_call a s = s\<lparr>ds_out := ds_out s @ [a]\<rparr>"

definition new_donate :: "u64 \<Rightarrow> donate" where
  "new_donate first =
     \<lparr>ds_active = False, ds_pending = \<lparr>dp_job = empty_job, dp_host = None, dp_port = 0\<rparr>, ds_donateTicks = 0,
      ds_target = first, ds_ticks = 0, ds_out = [S_create () 5 5000 True]\<rparr>"

definition ds_hasPendingJob :: "donate \<Rightarrow> bool" where
  "ds_hasPendingJob s = job_isValid (dp_job (ds_pending s))"

definition ds_stop :: "donate \<Rightarrow> donate" where
  "ds_stop s = ds_call (S_disconnect 0) (s\<lparr>ds_donateTicks := 0\<rparr>)"

definition ds_reschedule :: "(u64 \<Rightarrow> u64 \<Rightarrow> u64 \<Rightarrow> u64) \<Rightarrow> u64 \<Rightarrow> donate \<Rightarrow> bool \<times> donate" where
  "ds_reschedule retarget donateLevel s =
     (let level = donateLevel * 60 in
      if ds_donateTicks s < level then (False, s)
      else (True, ds_stop (s\<lparr>ds_target := retarget (ds_ticks s) (ds_donateTicks s) level, ds_active := False\<rparr>)))"

definition ds_save :: "cstr \<Rightarrow> int \<Rightarrow> job \<Rightarrow> donate \<Rightarrow> donate" where
  "ds_save host port j s = s\<lparr>ds_pending := \<lparr>dp_job = j, dp_host = host, dp_port = port\<rparr>\<rparr>"

definition ds_setAlgo :: "algo \<Rightarrow> donate \<Rightarrow> donate" where
  "ds_setAlgo a s = ds_call (S_setAlgo 0 a) s"

definition ds_submit :: "int \<Rightarrow> job_result \<Rightarrow> donate \<Rightarrow> int \<times> donate" where
  "ds_submit seq q s = (seq, ds_call (S_submit 0 q) s)"

definition ds_connect :: "donate \<Rightarrow> donate" where
  "ds_connect s = s"

definition ds_tick :: "u64 \<Rightarrow> donate \<Rightarrow> donate" where
  "ds_tick now s =
     (let s1 = ds_call (S_tick 0 now) s;
          s2 = s1\<lparr>ds_ticks := ds_ticks s1 + 1\<rparr>;
          s3 = (if ds_ticks s2 = ds_target s2
                then ds_call (S_connect 0)
                       (s2\<lparr>ds_pending := (ds_pending s2)\<lparr>dp_job := job_reset (dp_job (ds_pending s2))\<rparr>\<rparr>)
                else s2)
      in if ds_active s3 then s3\<lparr>ds_donateTicks := ds_donateTicks s3 + 1\<rparr> else s3)"

definition ds_onClose :: "int \<Rightarrow> donate \<Rightarrow> donate" where
  "ds_onClose failures s = (if \<not> ds_active s then s else ds_call S_pause (s\<lparr>ds_active := False\<rparr>))"

definition ds_onJobReceived :: "job \<Rightarrow> donate \<Rightarrow> donate" where
  "ds_onJobReceived j s =
     (let s1 = (if \<not> ds_active s then ds_call (S_active (-1)) (s\<lparr>ds_active := True\<rparr>) else s)
      in ds_call (S_job (-1) j) s1)"

definition ds_onResultAccepted :: "submit_result \<Rightarrow> cstr \<Rightarrow> donate \<Rightarrow> donate" where
  "ds_onResultAccepted r err s = ds_call (S_result (-1) r err) s"

definition ds_setProxy :: "cstr \<Rightarrow> donate \<Rightarrow> donate" where
  "ds_setProxy p s = ds_call (S_setProxy 0 p) s"

end
