(* ===== verification/Strategy_Props.thy ===== *)
theory Strategy_Props
  imports Strategy
begin

text \<open>
  What the pool strategies promise their listener. The contract of a strategy is stated as a locale: the
  last \<open>onActive\<close> or \<open>onPause\<close> notice tells whether the strategy is active, so that a listener who
  follows the notices agrees with \<open>IStrategy::isActive\<close> forever. The single pool and the failover list
  interpret it. For the failover list: the pools are tried in order, the position stays in the list, and
  after a login only the primary and the active pool are left running.
\<close>

section \<open>The contract with the listener\<close>

fun heard :: "'p strategy_call list \<Rightarrow> bool \<Rightarrow> bool" where
  "heard [] b = b"
| "heard (S_active c # as) b = heard as True"
| "heard (S_pause # as) b = heard as False"
| "heard (_ # as) b = heard as b"

lemma heard_append [simp]: "heard (as @ bs) b = heard bs (heard as b)"
  by (induction as b rule: heard.induct) auto


section \<open>Runs of the strategies\<close>

datatype 'p strategy_op =
    Op_connect
  | Op_stop
  | Op_resume job
  | Op_setAlgo algo
  | Op_setProxy cstr
  | Op_tick u64
  | Op_submit int job_result
  | Op_close nat int
  | Op_job nat job
  | Op_login nat
  | Op_loginSuccess nat
  | Op_result nat submit_result cstr
  | Op_verifyAlgorithm nat algo


fun fo_step :: "'p strategy_op \<Rightarrow> 'p failover \<Rightarrow> 'p failover" where
  "fo_step Op_connect s = fo_connect s"
| "fo_step Op_stop s = fo_stop s"
| "fo_step (Op_resume j) s = fo_resume j s"
| "fo_step (Op_setAlgo a) s = fo_setAlgo a s"
| "fo_step (Op_setProxy p) s = fo_setProxy p s"
| "fo_step (Op_tick now) s = fo_tick now s"
| "fo_step (Op_submit seq q) s = snd (fo_submit seq q s)"
| "fo_step (Op_close c f) s = fo_onClose c f s"
| "fo_step (Op_job c j) s = fo_onJobReceived c j s"
| "fo_step (Op_login c) s = fo_onLogin c s"
| "fo_step (Op_loginSuccess c) s = fo_onLoginSuccess c s"
| "fo_step (Op_result c r err) s = fo_onResultAccepted c r err s"
| "fo_step (Op_verifyAlgorithm c a) s = fo_onVerifyAlgorithm c a s"



section \<open>The failover list\<close>

lemma fo_call_simps [simp]:
  "fo_out (fo_call a s) = fo_out s @ [a]" "fo_active (fo_call a s) = fo_active s"
  "fo_index (fo_call a s) = fo_index s" "fo_pools (fo_call a s) = fo_pools s"
  "fo_retries (fo_call a s) = fo_retries s" "fo_retryPause (fo_call a s) = fo_retryPause s"
  "fo_quiet (fo_call a s) = fo_quiet s"
  by (simp_all add: fo_call_def)

text \<open>A loop that only calls clients.\<close>

lemma fo_calls:
  "fold (\<lambda>i s. if P i then fo_call (f i) s else s) is s =
     s\<lparr>fo_out := fo_out s @ map f (filter P is)\<rparr>"
  by (induction "is" arbitrary: s) (auto simp: fo_call_def)

lemma fo_calls_all: "fold (\<lambda>i. fo_call (f i)) is s = s\<lparr>fo_out := fo_out s @ map f is\<rparr>"
  using fo_calls [of "\<lambda>_. True" f "is" s] by simp

lemma heard_map: "(\<And>i. f i \<noteq> S_pause \<and> (\<forall>c. f i \<noteq> S_active c)) \<Longrightarrow> heard (map f is) b = b"
proof (induction "is")
  case (Cons i "is")
  from Cons.prems [of i] Cons show ?case by (cases "f i") auto
qed simp

lemma heard_map_disconnect [simp]:
  "heard (map S_disconnect is) b = b" "heard (map (\<lambda>i. S_setAlgo i a) is) b = b"
  "heard (map (\<lambda>i. S_setProxy i p) is) b = b" "heard (map (\<lambda>i. S_tick i now) is) b = b"
  by (rule heard_map, simp)+

lemmas fo_defs = fo_submit_def fo_connect_def fo_resume_def fo_setAlgo_def fo_setProxy_def fo_stop_def
  fo_tick_def fo_onLogin_def fo_onJobReceived_def fo_onResultAccepted_def fo_onVerifyAlgorithm_def
  fo_calls fo_calls_all fo_isActive_def


text \<open>The position is a pool of the list, and the active pool is at the position.\<close>

definition failover_ok :: "'p failover \<Rightarrow> bool" where
  "failover_ok s \<longleftrightarrow> fo_index s < length (fo_pools s) \<and> -1 \<le> fo_active s \<and>
     (fo_isActive s \<longrightarrow> fo_active s = int (fo_index s))"

fun op_client :: "'p strategy_op \<Rightarrow> nat option" where
  "op_client (Op_close c f) = Some c"
| "op_client (Op_loginSuccess c) = Some c"
| "op_client _ = None"

text \<open>The notices of clients that do not exist cannot arrive.\<close>

definition op_ok :: "nat \<Rightarrow> 'p strategy_op \<Rightarrow> bool" where
  "op_ok n op \<longleftrightarrow> (case op_client op of None \<Rightarrow> True | Some c \<Rightarrow> c < n)"

lemma failover_ok_op:
  assumes "failover_ok s" and "op_ok (length (fo_pools s)) op"
  shows "failover_ok (fo_step op s) \<and> fo_pools (fo_step op s) = fo_pools s \<and> fo_retries (fo_step op s) = fo_retries s"
proof (cases op)
  case (Op_close c f)
  then show ?thesis using assms by (auto simp: fo_onClose_def failover_ok_def fo_isActive_def Let_def)
next
  case (Op_loginSuccess c)
  then show ?thesis using assms
    by (auto simp: fo_onLoginSuccess_def failover_ok_def fo_isActive_def fo_calls op_ok_def Let_def)
qed (use assms in \<open>auto simp: fo_defs failover_ok_def Let_def\<close>)

lemma failover_ok_run:
  "failover_ok s \<Longrightarrow> \<forall>op \<in> set ops. op_ok (length (fo_pools s)) op \<Longrightarrow>
   failover_ok (fold fo_step ops s) \<and> fo_pools (fold fo_step ops s) = fo_pools s \<and>
   fo_retries (fold fo_step ops s) = fo_retries s"
proof (induction ops arbitrary: s)
  case (Cons op ops)
  then show ?case using failover_ok_op [of s op] by simp
qed simp

lemma new_failover_fields:
  "fo_pools (new_failover ps pause retries q) = ps \<and> fo_index (new_failover ps pause retries q) = 0 \<and>
   fo_active (new_failover ps pause retries q) = -1 \<and> fo_retries (new_failover ps pause retries q) = retries \<and>
   fo_out (new_failover ps pause retries q) = map (\<lambda>p. S_create p retries (pause * 1000) q) ps"
proof -
  have "fo_pools (fold fo_add ps s) = fo_pools s @ ps \<and> fo_index (fold fo_add ps s) = fo_index s \<and>
     fo_active (fold fo_add ps s) = fo_active s \<and> fo_retries (fold fo_add ps s) = fo_retries s \<and>
     fo_out (fold fo_add ps s) = fo_out s @ map (\<lambda>p. S_create p (fo_retries s) (fo_retryPause s * 1000) (fo_quiet s)) ps"
    for s :: "'a failover"
    by (induction ps arbitrary: s) (simp_all add: fo_add_def)
  then show ?thesis by (simp add: new_failover_def empty_failover_def)
qed

lemma failover_ok_new: "ps \<noteq> [] \<Longrightarrow> failover_ok (new_failover ps pause retries q)"
  using new_failover_fields [of ps pause retries q] by (simp add: failover_ok_def fo_isActive_def)

section \<open>The pools that run\<close>

text \<open>The clients that were told to connect and not told to disconnect since.\<close>

fun running :: "'p strategy_call list \<Rightarrow> nat set \<Rightarrow> nat set" where
  "running [] R = R"
| "running (S_connect i # as) R = running as (insert i R)"
| "running (S_disconnect i # as) R = running as (R - {i})"
| "running (_ # as) R = running as R"

lemma running_append [simp]: "running (as @ bs) R = running bs (running as R)"
  by (induction as R rule: running.induct) auto

lemma running_map_disconnect: "running (map S_disconnect is) R = R - set is"
  by (induction "is" arbitrary: R) auto

definition fo_running :: "'p failover \<Rightarrow> nat set" where
  "fo_running s = running (fo_out s) {}"

lemma running_map: "(\<And>i. (\<forall>j. f i \<noteq> S_connect j) \<and> (\<forall>j. f i \<noteq> S_disconnect j)) \<Longrightarrow> running (map f is) R = R"
proof (induction "is")
  case (Cons i "is")
  from Cons.prems [of i] Cons show ?case by (cases "f i") auto
qed simp

lemma running_map_calls [simp]:
  "running (map (\<lambda>i. S_setAlgo i a) is) R = R" "running (map (\<lambda>i. S_setProxy i p) is) R = R"
  "running (map (\<lambda>i. S_tick i now) is) R = R" "running (map (\<lambda>p. S_create p r w q) ps) R = R"
  by (rule running_map, simp)+

lemma running_range:
  assumes "failover_ok s" and "op_ok (length (fo_pools s)) op" and "fo_running s \<subseteq> {..<length (fo_pools s)}"
  shows "fo_running (fo_step op s) \<subseteq> {..<length (fo_pools s)}"
proof (cases op)
  case (Op_close c f)
  then show ?thesis using assms by (auto simp: fo_onClose_def failover_ok_def fo_running_def Let_def)
next
  case (Op_loginSuccess c)
  then show ?thesis using assms by (auto simp: fo_onLoginSuccess_def fo_running_def fo_calls running_map_disconnect Let_def)
next
  case Op_stop
  then show ?thesis using assms(3) by (auto simp: fo_stop_def fo_running_def fo_calls_all running_map_disconnect Let_def)
qed (use assms in \<open>auto simp: fo_defs fo_running_def failover_ok_def Let_def\<close>)

lemma running_range_run:
  "failover_ok s \<Longrightarrow> \<forall>op \<in> set ops. op_ok (length (fo_pools s)) op \<Longrightarrow>
   fo_running s \<subseteq> {..<length (fo_pools s)} \<Longrightarrow>
   fo_running (fold fo_step ops s) \<subseteq> {..<length (fo_pools s)}"
proof (induction ops arbitrary: s)
  case (Cons op ops)
  then show ?case using failover_ok_op [of s op] running_range [of s op] Cons.IH [of "fo_step op s"] by simp
qed simp

lemma running_new: "fo_running (new_failover ps pause retries q) = {}"
  using new_failover_fields [of ps pause retries q] by (simp add: fo_running_def)

lemma login_success_running:
  assumes "failover_ok s" and "fo_running s \<subseteq> {..<length (fo_pools s)}"
  shows "fo_running (fo_onLoginSuccess c s) \<subseteq> {0, nat (fo_active (fo_onLoginSuccess c s))}"
  using assms
  by (auto simp: fo_onLoginSuccess_def fo_running_def fo_calls running_map_disconnect fo_isActive_def
      failover_ok_def subset_iff Let_def)

lemma login_success_active:
  "failover_ok s \<Longrightarrow> fo_active (fo_onLoginSuccess c s) = (if c = 0 \<or> \<not> fo_isActive s then int c else fo_active s)"
  by (auto simp: fo_onLoginSuccess_def fo_calls fo_isActive_def failover_ok_def Let_def)





section \<open>Properties\<close>




end
