(* ===== verification/Mapper.thy ===== *)
theory Mapper
  imports Strategy Proxy_Base
begin

text \<open>
  What the splitters share: their view of the connected miners, the storage of the current job and of the
  miners that work on it, and the mapper that stands between a group of miners and a pool strategy
  (\<open>proxy/splitters/nicehash/NonceMapper.cpp\<close>; the text of
  \<open>proxy/splitters/extra_nonce/ExtraNonceMapper.cpp\<close> is the same but for the functions that theory
  \<open>Extra_Nonce\<close> models). A storage is any extension of the record \<open>storage\<close>.

  A miner is known by its identifier, which is unique (\<open>Miner::m_id\<close> counts up); the fields that
  splitters read and write are in \<open>pw_clients\<close>. Calls on strategies, replies to miners, jobs sent to them
  and accept events go to the list \<open>pw_out\<close>, in their order; a strategy is known by a handle. What a
  strategy calls back is a step of its own. The sequence number a strategy returns for a submission is an
  argument. Log lines are left out.
\<close>

section \<open>Miners as the splitters see them\<close>

record downstream =
  d_routeId :: int
  d_mapperId :: int
  d_fixedByte :: u8
  d_extAlgo :: bool
  d_extNicehash :: bool
  d_extConnect :: bool

definition new_downstream :: downstream where
  "new_downstream =
     \<lparr>d_routeId = -1, d_mapperId = -1, d_fixedByte = 0, d_extAlgo = False, d_extNicehash = False,
      d_extConnect = False\<rparr>"

datatype pool_action =
    P_newStrategy nat
  | P_deleteStrategy nat
  | P_connect nat
  | P_stop nat
  | P_tick nat u64
  | P_submit nat job_result
  | P_job int job int
  | P_clearJobs int
  | P_error int int string
  | P_success int int string
  | P_outcome int bool
  | P_accept nat "int option" submit_result bool cstr

record pool_world =
  pw_clients :: "(int, downstream) umap"
  pw_counters :: counters
  pw_strategies :: nat
  pw_out :: "pool_action list"

definition pw_do :: "pool_action \<Rightarrow> pool_world \<Rightarrow> pool_world" where
  "pw_do a w = w\<lparr>pw_out := pw_out w @ [a]\<rparr>"

definition on_client :: "int \<Rightarrow> (downstream \<Rightarrow> downstream) \<Rightarrow> pool_world \<Rightarrow> pool_world" where
  "on_client i f w = w\<lparr>pw_clients := map (\<lambda>(k, d). (k, if k = i then f d else d)) (pw_clients w)\<rparr>"

definition client_of :: "int \<Rightarrow> pool_world \<Rightarrow> downstream" where
  "client_of i w = (case map_of (pw_clients w) i of None \<Rightarrow> new_downstream | Some d \<Rightarrow> d)"

definition new_strategy :: "pool_world \<Rightarrow> nat \<times> pool_world" where
  "new_strategy w =
     (pw_strategies w, pw_do (P_newStrategy (pw_strategies w)) (w\<lparr>pw_strategies := pw_strategies w + 1\<rparr>))"

record mapper_config =
  mc_algoExt :: bool
  mc_donateLevel :: u64
  mc_firstDonation :: u64
  mc_retarget :: "u64 \<Rightarrow> u64 \<Rightarrow> u64 \<Rightarrow> u64"

section \<open>Storages\<close>

text \<open>\<open>m_miners\<close> maps the identifier of a miner to the miner, which is its identifier again.\<close>

record storage =
  st_active :: bool
  st_job :: job
  st_prevJob :: job
  st_miners :: "(int, int) omap"

definition isValidJobId :: "cstr \<Rightarrow> ('a storage_scheme \<Rightarrow> pool_world \<Rightarrow> bool \<times> pool_world)" where
  "isValidJobId i s w =
     (if j_id (st_job s) = i then (True, w)
      else if job_isValid (st_prevJob s) \<and> j_id (st_prevJob s) = i
      then (True, w\<lparr>pw_counters := (pw_counters w)\<lparr>ct_expired := ct_expired (pw_counters w) + 1\<rparr>\<rparr>)
      else (False, w))"

definition storage_miner :: "int \<Rightarrow> 'a storage_scheme \<Rightarrow> int option" where
  "storage_miner i s = map_of (st_miners s) i"

definition setActive :: "bool \<Rightarrow> 'a storage_scheme \<Rightarrow> 'a storage_scheme" where
  "setActive b s = s\<lparr>st_active := b\<rparr>"

section \<open>Mappers\<close>

record submit_ctx =
  sc_id :: int
  sc_minerId :: int
  sc_miner :: "int option"

record 's mapper =
  mp_id :: nat
  mp_suspended :: int
  mp_strategy :: nat
  mp_pending :: "nat option"
  mp_donate :: "donate option"
  mp_storage :: 's
  mp_results :: "(int, submit_ctx) omap"

definition new_mapper :: "mapper_config \<Rightarrow> nat \<Rightarrow> 's \<Rightarrow> pool_world \<Rightarrow> 's mapper \<times> pool_world" where
  "new_mapper cfg i s w =
     (case new_strategy w of
        (h, w1) \<Rightarrow>
          (\<lparr>mp_id = i, mp_suspended = 0, mp_strategy = h, mp_pending = None,
            mp_donate = (if 0 < mc_donateLevel cfg then Some (new_donate (mc_firstDonation cfg)) else None),
            mp_storage = s, mp_results = []\<rparr>, w1))"

definition isSuspended :: "'s mapper \<Rightarrow> bool" where
  "isSuspended m \<longleftrightarrow> 0 < mp_suspended m"

definition mapper_isActive :: "('a storage_scheme) mapper \<Rightarrow> bool" where
  "mapper_isActive m \<longleftrightarrow> st_active (mp_storage m) \<and> \<not> isSuspended m"

definition mapper_connect :: "'s mapper \<Rightarrow> pool_world \<Rightarrow> 's mapper \<times> pool_world" where
  "mapper_connect m w =
     (m\<lparr>mp_suspended := 0, mp_donate := map_option ds_connect (mp_donate m)\<rparr>, pw_do (P_connect (mp_strategy m)) w)"

definition mapper_reload :: "'s mapper \<Rightarrow> pool_world \<Rightarrow> 's mapper \<times> pool_world" where
  "mapper_reload m w =
     (let w1 = (case mp_pending m of None \<Rightarrow> w | Some p \<Rightarrow> pw_do (P_deleteStrategy p) w)
      in case new_strategy w1 of (h, w2) \<Rightarrow> (m\<lparr>mp_pending := Some h\<rparr>, pw_do (P_connect h) w2))"

definition mapper_start :: "'s mapper \<Rightarrow> pool_world \<Rightarrow> 's mapper \<times> pool_world" where
  "mapper_start m w = mapper_connect m w"

text \<open>\<open>seq\<close> is the number the strategy returns.\<close>

definition mapper_submit :: "int \<Rightarrow> int \<Rightarrow> job_result \<Rightarrow> ('a storage_scheme) mapper \<Rightarrow> pool_world
    \<Rightarrow> error_code \<times> ('a storage_scheme) mapper \<times> pool_world" where
  "mapper_submit seq miner q m w =
     (if \<not> st_active (mp_storage m) then (BadGateway, m, w)
      else
        (case isValidJobId (q_jobId q) (mp_storage m) w of
           (False, w1) \<Rightarrow> (InvalidJobId, m, w1)
         | (True, w1) \<Rightarrow>
             if algo_isValid (q_algorithm q) \<and> q_algorithm q \<noteq> j_algorithm (st_job (mp_storage m))
             then (IncorrectAlgorithm, m, w1)
             else
               let req = q\<lparr>q_diff := j_diff (st_job (mp_storage m))\<rparr>;
                   (m1, w2) = (case mp_donate m of
                      Some d \<Rightarrow>
                        if ds_active d then (m\<lparr>mp_donate := Some (snd (ds_submit seq req d))\<rparr>, w1)
                        else (m, pw_do (P_submit (mp_strategy m) req) w1)
                    | None \<Rightarrow> (m, pw_do (P_submit (mp_strategy m) req) w1))
               in (NoError,
                   m1\<lparr>mp_results := om_put seq \<lparr>sc_id = q_id req, sc_minerId = miner, sc_miner = None\<rparr>
                         (mp_results m1)\<rparr>, w2)))"

definition submitCtx :: "int \<Rightarrow> ('a storage_scheme) mapper \<Rightarrow> submit_ctx \<times> ('a storage_scheme) mapper" where
  "submitCtx seq m =
     (case map_of (mp_results m) seq of
        None \<Rightarrow> (\<lparr>sc_id = 0, sc_minerId = 0, sc_miner = None\<rparr>, m)
      | Some ctx \<Rightarrow>
          (ctx\<lparr>sc_miner := storage_miner (sc_minerId ctx) (mp_storage m)\<rparr>,
           m\<lparr>mp_results := AList.delete seq (mp_results m)\<rparr>))"

definition mapper_onResultAccepted :: "int \<Rightarrow> submit_result \<Rightarrow> cstr \<Rightarrow> ('a storage_scheme) mapper \<Rightarrow> pool_world
    \<Rightarrow> ('a storage_scheme) mapper \<times> pool_world" where
  "mapper_onResultAccepted client r err m w =
     (case submitCtx (sr_seq r) m of
        (ctx, m1) \<Rightarrow>
          let w1 = pw_do (P_accept (mp_id m) (sc_miner ctx) r (client = -1) err) w in
          (case sc_miner ctx of
             None \<Rightarrow> (m1, w1)
           | Some i \<Rightarrow>
               (case err of
                  Some e \<Rightarrow> (m1, pw_do (P_error i (sc_id ctx) e) w1)
                | None \<Rightarrow> (m1, pw_do (P_success i (sc_id ctx) ''OK'') w1))))"

definition mapper_onActive :: "nat \<Rightarrow> int \<Rightarrow> ('a storage_scheme) mapper \<Rightarrow> pool_world
    \<Rightarrow> ('a storage_scheme) mapper \<times> pool_world" where
  "mapper_onActive strategy client m w =
     (let m1 = m\<lparr>mp_storage := setActive True (mp_storage m)\<rparr> in
      if client = -1 then (m1, w)
      else if mp_pending m1 = Some strategy
      then (m1\<lparr>mp_strategy := strategy, mp_pending := None\<rparr>, pw_do (P_deleteStrategy (mp_strategy m1)) w)
      else (m1, w))"

definition mapper_onPause :: "('a storage_scheme) mapper \<Rightarrow> ('a storage_scheme) mapper" where
  "mapper_onPause m = m\<lparr>mp_storage := setActive False (mp_storage m)\<rparr>"

text \<open>
  A job from the pool is kept aside while the donation pool is served. \<open>set_job\<close> is \<open>setJob\<close> of the
  storage; \<open>host\<close> and \<open>port\<close> belong to the client's pool.
\<close>

definition mapper_onJob :: "mapper_config \<Rightarrow> (job \<Rightarrow> 's \<Rightarrow> pool_world \<Rightarrow> 's \<times> pool_world) \<Rightarrow> int \<Rightarrow> cstr \<Rightarrow> int \<Rightarrow> job
    \<Rightarrow> 's mapper \<Rightarrow> pool_world \<Rightarrow> 's mapper \<times> pool_world" where
  "mapper_onJob cfg set_job client host port j m w =
     (let (saved, donate) = (case mp_donate m of
            None \<Rightarrow> (False, None)
          | Some d \<Rightarrow>
              let (resched, d1) = (if ds_active d \<and> client \<noteq> -1
                    then ds_reschedule (mc_retarget cfg) (mc_donateLevel cfg) d else (True, d))
              in if ds_active d \<and> client \<noteq> -1 \<and> \<not> resched then (True, Some (ds_save host port j d1))
                 else (False, Some (ds_setAlgo (j_algorithm j) d1)));
          m1 = m\<lparr>mp_donate := donate\<rparr>
      in if saved then (m1, w)
         else (case set_job j (mp_storage m1) w of (s, w1) \<Rightarrow> (m1\<lparr>mp_storage := s\<rparr>, w1)))"

definition mapper_tick :: "mapper_config \<Rightarrow> (job \<Rightarrow> 's \<Rightarrow> pool_world \<Rightarrow> 's \<times> pool_world) \<Rightarrow> u64
    \<Rightarrow> 's mapper \<Rightarrow> pool_world \<Rightarrow> 's mapper \<times> pool_world" where
  "mapper_tick cfg set_job now m w =
     (let w1 = pw_do (P_tick (mp_strategy m) now) w in
      case mp_donate m of
        None \<Rightarrow> (m, w1)
      | Some d \<Rightarrow>
          let d1 = ds_tick now d;
              (resched, d2) = (if ds_active d1 \<and> ds_hasPendingJob d1
                 then ds_reschedule (mc_retarget cfg) (mc_donateLevel cfg) d1 else (False, d1));
              m1 = m\<lparr>mp_donate := Some d2\<rparr>
          in if resched
             then (case set_job (dp_job (ds_pending d2)) (mp_storage m1) w1 of (s, w2) \<Rightarrow> (m1\<lparr>mp_storage := s\<rparr>, w2))
             else (m1, w1))"

definition mapper_suspend :: "('a storage_scheme \<Rightarrow> 'a storage_scheme) \<Rightarrow> ('a storage_scheme) mapper \<Rightarrow> pool_world
    \<Rightarrow> ('a storage_scheme) mapper \<times> pool_world" where
  "mapper_suspend reset m w =
     (m\<lparr>mp_suspended := 1, mp_storage := reset (setActive False (mp_storage m)),
        mp_donate := map_option ds_stop (mp_donate m)\<rparr>,
      pw_do (P_stop (mp_strategy m)) w)"

section \<open>Facts on the view of the miners\<close>

lemma pw_do_simps [simp]:
  "pw_clients (pw_do a w) = pw_clients w" "pw_counters (pw_do a w) = pw_counters w"
  "pw_strategies (pw_do a w) = pw_strategies w" "pw_out (pw_do a w) = pw_out w @ [a]"
  by (simp_all add: pw_do_def)

lemma map_of_on_client [simp]:
  "map_of (pw_clients (on_client i f w)) k = (if k = i then map_option f (map_of (pw_clients w) k) else map_of (pw_clients w) k)"
proof -
  have "map_of (map (\<lambda>(k, d). (k, if k = i then f d else d)) cs) k =
      (if k = i then map_option f (map_of cs k) else map_of cs k)" for cs :: "(int, downstream) omap"
    by (induction cs) auto
  then show ?thesis by (simp add: on_client_def)
qed

lemma on_client_simps [simp]:
  "pw_counters (on_client i f w) = pw_counters w" "pw_strategies (on_client i f w) = pw_strategies w"
  "pw_out (on_client i f w) = pw_out w" "map fst (pw_clients (on_client i f w)) = map fst (pw_clients w)"
  by (auto simp: on_client_def)

lemma new_strategy_clients: "new_strategy w = (h, w1) \<Longrightarrow> pw_clients w1 = pw_clients w"
  by (auto simp: new_strategy_def)

abbreviation clients :: "pool_world \<Rightarrow> int \<rightharpoonup> downstream" where
  "clients w \<equiv> map_of (pw_clients w)"

definition served_by :: "nat \<Rightarrow> downstream \<Rightarrow> bool" where
  "served_by i d \<longleftrightarrow> d_routeId d = -1 \<and> d_mapperId d = int i"

text \<open>A miner that logged in and has no mapper yet.\<close>

definition unserved :: "downstream \<Rightarrow> bool" where
  "unserved d \<longleftrightarrow> d_routeId d = -1 \<and> d_mapperId d = -1"

lemma unserved_not_served [simp]: "unserved d \<Longrightarrow> \<not> served_by i d"
  by (simp add: unserved_def served_by_def)

lemma served_by_unique: "served_by i d \<Longrightarrow> served_by k d \<Longrightarrow> i = k"
  by (simp add: served_by_def)

end
