(* ===== verification/Nonce_Splitter.thy ===== *)
theory Nonce_Splitter
  imports Mapper
begin

text \<open>
  The NiceHash splitter (\<open>proxy/splitters/nicehash\<close>): up to 256 miners share one upstream, each with its
  own fixed byte of the nonce. \<open>NonceStorage.cpp\<close> hands out the bytes, a \<open>NonceMapper\<close> is a mapper over
  such a storage and \<open>NonceSplitter.cpp\<close> opens further mappers when all are full and puts empty ones to
  sleep. \<open>rnd\<close> is the random position a new storage starts at, by the number of its mapper.
\<close>

section \<open>The storage of fixed bytes\<close>

record nonce_storage = storage +
  ns_used :: "int list"
  ns_index :: nat

definition new_nonce_storage :: "nat \<Rightarrow> nonce_storage" where
  "new_nonce_storage i =
     \<lparr>st_active = False, st_job = empty_job, st_prevJob = empty_job, st_miners = [],
      ns_used = replicate 256 0, ns_index = i mod 256\<rparr>"

definition nextIndex :: "nat \<Rightarrow> nonce_storage \<Rightarrow> int" where
  "nextIndex start s =
     (case find (\<lambda>i. ns_used s ! i = 0) [ns_index s..<length (ns_used s)] of
        Some i \<Rightarrow> int i
      | None \<Rightarrow>
          (case find (\<lambda>i. ns_used s ! i = 0) [start..<ns_index s] of Some i \<Rightarrow> int i | None \<Rightarrow> -1))"

definition ns_add :: "int \<Rightarrow> nonce_storage \<Rightarrow> pool_world \<Rightarrow> bool \<times> nonce_storage \<times> pool_world" where
  "ns_add miner s w =
     (let index = nextIndex 0 s in
      if index = -1 then (False, s, w)
      else
        let w1 = on_client miner (\<lambda>d. d\<lparr>d_fixedByte := of_int index\<rparr>) w;
            s1 = s\<lparr>ns_index := nat index, ns_used := (ns_used s)[nat index := miner],
                   st_miners := om_put miner miner (st_miners s)\<rparr>;
            w2 = (if st_active s1 then pw_do (P_job miner (st_job s1) (-1)) w1 else w1)
        in (True, s1, w2))"

definition ns_isUsed :: "nonce_storage \<Rightarrow> bool" where
  "ns_isUsed s \<longleftrightarrow> (\<exists>i \<in> {..<256}. 0 < ns_used s ! i)"

definition ns_remove :: "int \<Rightarrow> nonce_storage \<Rightarrow> pool_world \<Rightarrow> nonce_storage" where
  "ns_remove miner s w =
     s\<lparr>ns_used := (ns_used s)[unat (d_fixedByte (client_of miner w)) := - miner],
       st_miners := AList.delete miner (st_miners s)\<rparr>"

definition ns_reset :: "nonce_storage \<Rightarrow> nonce_storage" where
  "ns_reset s = s\<lparr>ns_used := replicate (length (ns_used s)) 0\<rparr>"

definition ns_setJob :: "job \<Rightarrow> nonce_storage \<Rightarrow> pool_world \<Rightarrow> nonce_storage \<times> pool_world" where
  "ns_setJob j s w =
     (let s1 = s\<lparr>ns_used := map (\<lambda>v. if v < 0 then 0 else v) (ns_used s)\<rparr>;
          s2 = (if j_clientId (st_job s1) = j_clientId j then s1\<lparr>st_prevJob := st_job s1\<rparr>
                else s1\<lparr>st_prevJob := job_reset (st_prevJob s1)\<rparr>);
          s3 = s2\<lparr>st_job := j\<rparr>
      in (s3, fold (\<lambda>v w. if v = 0 then w
                else (case storage_miner v s3 of None \<Rightarrow> w | Some i \<Rightarrow> pw_do (P_job i (st_job s3) (-1)) w))
              (ns_used s3) w))"

section \<open>The mapper\<close>

type_synonym nonce_mapper = "nonce_storage mapper"

definition nm_add :: "mapper_config \<Rightarrow> int \<Rightarrow> nonce_mapper \<Rightarrow> pool_world \<Rightarrow> bool \<times> nonce_mapper \<times> pool_world" where
  "nm_add cfg miner m w =
     (let w1 = (if \<not> d_extNicehash (client_of miner w)
                then on_client miner (\<lambda>d. d\<lparr>d_extAlgo := mc_algoExt cfg, d_extNicehash := True\<rparr>) w else w)
      in case ns_add miner (mp_storage m) w1 of
           (False, s, w2) \<Rightarrow> (False, m\<lparr>mp_storage := s\<rparr>, w2)
         | (True, s, w2) \<Rightarrow>
             let m1 = m\<lparr>mp_storage := s\<rparr>;
                 (m2, w3) = (if isSuspended m1 then mapper_connect m1 w2 else (m1, w2))
             in (True, m2, on_client miner (\<lambda>d. d\<lparr>d_mapperId := int (mp_id m)\<rparr>) w3))"

definition nm_gc :: "nonce_mapper \<Rightarrow> pool_world \<Rightarrow> nonce_mapper \<times> pool_world" where
  "nm_gc m w =
     (if isSuspended m then (m\<lparr>mp_suspended := mp_suspended m + 1\<rparr>, w)
      else if mp_id m = 0 \<or> ns_isUsed (mp_storage m) then (m, w)
      else mapper_suspend ns_reset m w)"

definition nm_remove :: "int \<Rightarrow> nonce_mapper \<Rightarrow> pool_world \<Rightarrow> nonce_mapper" where
  "nm_remove miner m w = m\<lparr>mp_storage := ns_remove miner (mp_storage m) w\<rparr>"

section \<open>The splitter\<close>

record nonce_splitter =
  nsp_upstreams :: "nonce_mapper list"
  nsp_world :: pool_world

definition ns_upstreams :: "nonce_splitter \<Rightarrow> upstreams" where
  "ns_upstreams s = count_upstreams mapper_isActive isSuspended (nsp_upstreams s)"

definition ns_connect :: "mapper_config \<Rightarrow> (nat \<Rightarrow> nat) \<Rightarrow> nonce_splitter \<Rightarrow> nonce_splitter" where
  "ns_connect cfg rnd s =
     (let n = length (nsp_upstreams s) in
      case new_mapper cfg n (new_nonce_storage (rnd n)) (nsp_world s) of
        (m, w) \<Rightarrow> (case mapper_start m w of
           (m1, w1) \<Rightarrow> s\<lparr>nsp_upstreams := nsp_upstreams s @ [m1], nsp_world := w1\<rparr>))"

text \<open>One call on every mapper, in their order.\<close>

fun each_mapper :: "('m \<Rightarrow> pool_world \<Rightarrow> 'm \<times> pool_world) \<Rightarrow> 'm list \<Rightarrow> pool_world \<Rightarrow> 'm list \<times> pool_world" where
  "each_mapper f [] w = ([], w)"
| "each_mapper f (m # ms) w =
     (case f m w of (m1, w1) \<Rightarrow> (case each_mapper f ms w1 of (ms1, w2) \<Rightarrow> (m1 # ms1, w2)))"

text \<open>The mappers that have slept for two rounds are dropped from the end. The first one never sleeps
  (lemma \<open>splitter_ok_step\<close>), so the vector does not run empty.\<close>

definition drop_asleep :: "nonce_mapper list \<Rightarrow> nonce_mapper list" where
  "drop_asleep ms = rev (dropWhile (\<lambda>m. 2 \<le> mp_suspended m) (rev ms))"

definition delete_mapper :: "'s mapper \<Rightarrow> pool_world \<Rightarrow> pool_world" where
  "delete_mapper m w =
     pw_do (P_deleteStrategy (mp_strategy m))
       (case mp_pending m of None \<Rightarrow> w | Some p \<Rightarrow> pw_do (P_deleteStrategy p) w)"

definition ns_gc :: "nonce_splitter \<Rightarrow> nonce_splitter" where
  "ns_gc s =
     (case each_mapper nm_gc (nsp_upstreams s) (nsp_world s) of
        (ms, w) \<Rightarrow>
          s\<lparr>nsp_upstreams := drop_asleep ms,
            nsp_world := fold delete_mapper (takeWhile (\<lambda>m. 2 \<le> mp_suspended m) (rev ms)) w\<rparr>)"

definition ns_tick :: "mapper_config \<Rightarrow> u64 \<Rightarrow> nonce_splitter \<Rightarrow> nonce_splitter" where
  "ns_tick cfg now s =
     (case each_mapper (mapper_tick cfg ns_setJob now) (nsp_upstreams s) (nsp_world s) of
        (ms, w) \<Rightarrow> s\<lparr>nsp_upstreams := ms, nsp_world := w\<rparr>)"

definition ns_onConfigChanged :: "bool \<Rightarrow> nonce_splitter \<Rightarrow> nonce_splitter" where
  "ns_onConfigChanged changed s =
     (if \<not> changed then s
      else (case each_mapper mapper_reload (nsp_upstreams s) (nsp_world s) of
              (ms, w) \<Rightarrow> s\<lparr>nsp_upstreams := ms, nsp_world := w\<rparr>))"

text \<open>A loop of \<open>login\<close>: the first mapper of the kind \<open>P\<close> that takes the miner.\<close>

fun try_mappers :: "mapper_config \<Rightarrow> (nonce_mapper \<Rightarrow> bool) \<Rightarrow> int \<Rightarrow> nonce_mapper list \<Rightarrow> pool_world
    \<Rightarrow> bool \<times> nonce_mapper list \<times> pool_world" where
  "try_mappers cfg P miner [] w = (False, [], w)"
| "try_mappers cfg P miner (m # ms) w =
     (let (ok, m1, w1) = (if P m then nm_add cfg miner m w else (False, m, w)) in
      if ok then (True, m1 # ms, w1)
      else (case try_mappers cfg P miner ms w1 of (ok, ms1, w2) \<Rightarrow> (ok, m1 # ms1, w2)))"

text \<open>\<open>login\<close> calls itself after it opened a mapper; the value \<open>None\<close> would mean that it never returns.\<close>

partial_function (option) ns_login :: "mapper_config \<Rightarrow> (nat \<Rightarrow> nat) \<Rightarrow> int \<Rightarrow> nonce_splitter \<Rightarrow> nonce_splitter option" where
  "ns_login cfg rnd miner s =
     (if d_routeId (client_of miner (nsp_world s)) \<noteq> -1 then Some s
      else
        (case try_mappers cfg (\<lambda>m. \<not> isSuspended m) miner (nsp_upstreams s) (nsp_world s) of
           (ok, ms, w) \<Rightarrow>
             if ok then Some (s\<lparr>nsp_upstreams := ms, nsp_world := w\<rparr>)
             else
               (case try_mappers cfg isSuspended miner ms w of
                  (ok1, ms1, w1) \<Rightarrow>
                    if ok1 then Some (s\<lparr>nsp_upstreams := ms1, nsp_world := w1\<rparr>)
                    else ns_login cfg rnd miner
                           (ns_connect cfg rnd (s\<lparr>nsp_upstreams := ms1, nsp_world := w1\<rparr>)))))"

declare ns_login.simps [code]

text \<open>\<open>None\<close>: the mapper of the miner is not in the vector, an access out of bounds.\<close>

definition ns_close :: "int \<Rightarrow> nonce_splitter \<Rightarrow> nonce_splitter option" where
  "ns_close miner s =
     (let d = client_of miner (nsp_world s) in
      if d_mapperId d < 0 \<or> d_routeId d \<noteq> -1 then Some s
      else if nat (d_mapperId d) < length (nsp_upstreams s)
      then Some (s\<lparr>nsp_upstreams := (nsp_upstreams s)[nat (d_mapperId d) :=
             nm_remove miner (nsp_upstreams s ! nat (d_mapperId d)) (nsp_world s)]\<rparr>)
      else None)"

definition ns_submit :: "int \<Rightarrow> int \<Rightarrow> job_result \<Rightarrow> nonce_splitter \<Rightarrow> (error_code \<times> nonce_splitter) option" where
  "ns_submit seq miner q s =
     (let d = client_of miner (nsp_world s) in
      if d_mapperId d < 0 \<or> d_routeId d \<noteq> -1 then Some (NoError, s)
      else if nat (d_mapperId d) < length (nsp_upstreams s)
      then (case mapper_submit seq miner q (nsp_upstreams s ! nat (d_mapperId d)) (nsp_world s) of
              (err, m, w) \<Rightarrow>
                Some (err, s\<lparr>nsp_upstreams := (nsp_upstreams s)[nat (d_mapperId d) := m], nsp_world := w\<rparr>))
      else None)"

end
