(* ===== verification/Nonce_Props.thy ===== *)
theory Nonce_Props
  imports Nonce_Splitter
begin

text \<open>
  The invariant of the NiceHash splitter: the bytes that a storage has handed out and the bytes that its
  miners carry are the same, no miner points to a mapper that is gone, and the first mapper never sleeps.
\<close>

section \<open>One mapper\<close>

definition bytes_of :: "nonce_mapper \<Rightarrow> int list" where
  "bytes_of m = ns_used (mp_storage m)"

definition mapper_ok :: "(int \<rightharpoonup> downstream) \<Rightarrow> nat \<Rightarrow> nonce_mapper \<Rightarrow> bool" where
  "mapper_ok C i m \<longleftrightarrow>
     mp_id m = i \<and> 0 \<le> mp_suspended m \<and> (i = 0 \<longrightarrow> mp_suspended m = 0) \<and>
     length (bytes_of m) = 256 \<and> ns_index (mp_storage m) < 256 \<and>
     (isSuspended m \<longrightarrow> (\<forall>b < 256. bytes_of m ! b = 0)) \<and>
     (\<forall>b < 256. 0 < bytes_of m ! b \<longrightarrow>
        (\<exists>d. C (bytes_of m ! b) = Some d \<and> served_by i d \<and> unat (d_fixedByte d) = b)) \<and>
     (\<forall>k d. C k = Some d \<and> served_by i d \<longrightarrow> 0 < k \<and> bytes_of m ! unat (d_fixedByte d) = k)"

lemma mapper_ok_byte:
  "mapper_ok C i m \<Longrightarrow> b < 256 \<Longrightarrow> 0 < bytes_of m ! b \<Longrightarrow>
   \<exists>d. C (bytes_of m ! b) = Some d \<and> served_by i d \<and> unat (d_fixedByte d) = b"
  by (simp add: mapper_ok_def)

lemma mapper_ok_client:
  "mapper_ok C i m \<Longrightarrow> C k = Some d \<Longrightarrow> served_by i d \<Longrightarrow> 0 < k \<and> bytes_of m ! unat (d_fixedByte d) = k"
  by (simp add: mapper_ok_def)

primrec mappers_ok :: "(int \<rightharpoonup> downstream) \<Rightarrow> nat \<Rightarrow> nonce_mapper list \<Rightarrow> bool" where
  "mappers_ok C n [] \<longleftrightarrow> True"
| "mappers_ok C n (m # ms) \<longleftrightarrow> mapper_ok C n m \<and> mappers_ok C (Suc n) ms"

lemma mappers_ok_nth: "mappers_ok C n ms \<longleftrightarrow> (\<forall>i < length ms. mapper_ok C (n + i) (ms ! i))"
  by (induction ms arbitrary: n) (simp_all add: All_less_Suc2)

lemma mappers_ok_append: "mappers_ok C n (xs @ ys) \<longleftrightarrow> mappers_ok C n xs \<and> mappers_ok C (n + length xs) ys"
  by (induction xs arbitrary: n) simp_all

lemma mappers_ok_update:
  "mappers_ok C 0 ms \<Longrightarrow> mapper_ok C i m \<Longrightarrow> mappers_ok C 0 (ms[i := m])"
  by (simp add: mappers_ok_nth) (metis nth_list_update_eq nth_list_update_neq)

text \<open>A miner that another mapper, or none, serves does not matter.\<close>

lemma mapper_ok_other:
  assumes "mapper_ok C i m" and "\<forall>k. k \<noteq> j \<longrightarrow> C' k = C k"
    and "\<forall>d. C j = Some d \<longrightarrow> \<not> served_by i d" and "\<forall>d. C' j = Some d \<longrightarrow> \<not> served_by i d"
  shows "mapper_ok C' i m"
proof -
  have a: "\<exists>d. C' (bytes_of m ! b) = Some d \<and> served_by i d \<and> unat (d_fixedByte d) = b"
    if b: "b < 256" "0 < bytes_of m ! b" for b
  proof -
    obtain d where d: "C (bytes_of m ! b) = Some d" "served_by i d" "unat (d_fixedByte d) = b"
      using mapper_ok_byte [OF assms(1) b] by blast
    then have "bytes_of m ! b \<noteq> j" using assms(3) by auto
    with d assms(2) show ?thesis by auto
  qed
  have b: "0 < k \<and> bytes_of m ! unat (d_fixedByte d) = k" if "C' k = Some d" "served_by i d" for k d
  proof -
    have "k \<noteq> j" using that assms(4) by auto
    then have "C k = Some d" using that(1) assms(2) by simp
    then show ?thesis using mapper_ok_client [OF assms(1) _ that(2)] by blast
  qed
  show ?thesis using assms(1) a b unfolding mapper_ok_def by auto
qed

lemma mappers_ok_other:
  assumes "mappers_ok C n ms" and "\<forall>k. k \<noteq> j \<longrightarrow> C' k = C k"
    and "\<forall>d i. C j = Some d \<longrightarrow> n \<le> i \<longrightarrow> i < n + length ms \<longrightarrow> \<not> served_by i d"
    and "\<forall>d i. C' j = Some d \<longrightarrow> n \<le> i \<longrightarrow> i < n + length ms \<longrightarrow> \<not> served_by i d"
  shows "mappers_ok C' n ms"
  using assms(1,3,4)
proof (induction ms arbitrary: n)
  case (Cons m ms)
  have "mapper_ok C' n m" using Cons.prems assms(2) by (intro mapper_ok_other [of C n m j C']) auto
  moreover have "mappers_ok C' (Suc n) ms" using Cons.prems by (intro Cons.IH) auto
  ultimately show ?case by simp
qed simp

section \<open>Handing out bytes\<close>

lemma find_upt_None: "find P [a..<b] = None \<longleftrightarrow> (\<forall>i. a \<le> i \<longrightarrow> i < b \<longrightarrow> \<not> P i)"
  by (auto simp: find_None_iff)

lemma find_upt_Some: "find P [a..<b] = Some i \<Longrightarrow> a \<le> i \<and> i < b \<and> P i"
  by (auto simp: find_Some_iff)

lemma nextIndex_free:
  assumes "nextIndex 0 s \<noteq> -1" and "length (ns_used s) = 256" and "ns_index s < 256"
  shows "\<exists>b < 256. nextIndex 0 s = int b \<and> ns_used s ! b = 0"
proof (cases "find (\<lambda>i. ns_used s ! i = 0) [ns_index s..<256]")
  case (Some i)
  then show ?thesis using find_upt_Some [OF Some] by (simp add: nextIndex_def assms(2))
next
  case None
  with assms(1) obtain i where i: "find (\<lambda>i. ns_used s ! i = 0) [0..<ns_index s] = Some i"
    by (auto simp: nextIndex_def assms(2) split: option.splits)
  then show ?thesis using find_upt_Some [OF i] None assms(3) by (auto simp: nextIndex_def assms(2))
qed

lemma nextIndex_None:
  assumes "length (ns_used s) = 256" and "ns_index s < 256"
  shows "nextIndex 0 s = -1 \<longleftrightarrow> 0 \<notin> set (ns_used s)"
proof
  assume n: "nextIndex 0 s = -1"
  have "ns_used s ! i \<noteq> 0" if "i < 256" for i
    using n that by (cases "ns_index s \<le> i") (auto simp: nextIndex_def assms(1) find_upt_None split: option.splits)
  then show "0 \<notin> set (ns_used s)" by (auto simp: in_set_conv_nth assms(1))
next
  assume "0 \<notin> set (ns_used s)"
  then show "nextIndex 0 s = -1" using nextIndex_free [OF _ assms] nth_mem [of _ "ns_used s"] assms(1) by fastforce
qed

lemma ns_add_full:
  "nextIndex 0 s = -1 \<Longrightarrow> ns_add j s w = (False, s, w)"
  by (simp add: ns_add_def)

lemma ns_add_byte:
  assumes "nextIndex 0 s = int b" and "b < 256"
  shows "ns_add j s w = (True,
    s\<lparr>ns_index := b, ns_used := (ns_used s)[b := j], st_miners := om_put j j (st_miners s)\<rparr>,
    if st_active s then pw_do (P_job j (st_job s) (-1)) (on_client j (\<lambda>d. d\<lparr>d_fixedByte := of_nat b\<rparr>) w)
    else on_client j (\<lambda>d. d\<lparr>d_fixedByte := of_nat b\<rparr>) w)"
  using assms by (simp add: ns_add_def Let_def)

lemma mapper_connect_clients:
  "mapper_connect m w = (m1, w1) \<Longrightarrow> pw_clients w1 = pw_clients w"
  by (auto simp: mapper_connect_def)

text \<open>The miner that takes byte \<open>b\<close>.\<close>

lemma mapper_ok_take:
  assumes ok: "mapper_ok C i m" and j: "0 < j" "C j = Some d" "unserved d"
    and b: "b < 256" "bytes_of m ! b = 0"
    and C': "\<forall>k. k \<noteq> j \<longrightarrow> C' k = C k" "C' j = Some d'" "served_by i d'" "d_fixedByte d' = of_nat b"
    and m': "mp_id m' = i" "mp_suspended m' = 0" "ns_index (mp_storage m') = b" "bytes_of m' = (bytes_of m)[b := j]"
  shows "mapper_ok C' i m'"
proof -
  have len: "length (bytes_of m) = 256" using ok by (simp add: mapper_ok_def)
  have u: "unat (of_nat b :: u8) = b" using b(1) by (simp add: unat_of_nat)
  have "\<exists>d. C' (bytes_of m' ! c) = Some d \<and> served_by i d \<and> unat (d_fixedByte d) = c"
    if c: "c < 256" "0 < bytes_of m' ! c" for c
  proof (cases "c = b")
    case True
    then show ?thesis using m'(4) C' len b(1) u by simp
  next
    case False
    then have n: "bytes_of m' ! c = bytes_of m ! c" using m'(4) by simp
    then obtain e where e: "C (bytes_of m ! c) = Some e" "served_by i e" "unat (d_fixedByte e) = c"
      using mapper_ok_byte [OF ok c(1)] c(2) by auto
    then have "bytes_of m ! c \<noteq> j" using j by auto
    then show ?thesis using e n C'(1) by simp
  qed
  moreover have "0 < k \<and> bytes_of m' ! unat (d_fixedByte e) = k" if k: "C' k = Some e" "served_by i e" for k e
  proof (cases "k = j")
    case True
    then show ?thesis using k C' j(1) m'(4) len b(1) u by simp
  next
    case False
    then have "C k = Some e" using k(1) C'(1) by simp
    then have "0 < k \<and> bytes_of m ! unat (d_fixedByte e) = k" using mapper_ok_client [OF ok _ k(2)] by blast
    moreover from this b(2) have "unat (d_fixedByte e) \<noteq> b" by auto
    ultimately show ?thesis using m'(4) by simp
  qed
  ultimately show ?thesis using m' len b(1) by (simp add: mapper_ok_def isSuspended_def)
qed

lemma nm_add_byte:
  fixes m :: nonce_mapper
  assumes "nextIndex 0 (mp_storage m) = int c" and "c < 256"
    and w1: "w1 = (if \<not> d_extNicehash (client_of j w)
       then on_client j (\<lambda>d. d\<lparr>d_extAlgo := mc_algoExt cfg, d_extNicehash := True\<rparr>) w else w)"
    and add: "nm_add cfg j m w = (b, m', w')"
  shows "b \<and> mp_id m' = mp_id m \<and> mp_suspended m' = (if isSuspended m then 0 else mp_suspended m) \<and>
    ns_index (mp_storage m') = c \<and> bytes_of m' = (bytes_of m)[c := j] \<and>
    clients w' = clients (on_client j (\<lambda>d. d\<lparr>d_fixedByte := of_nat c, d_mapperId := int (mp_id m)\<rparr>) w1)"
proof -
  define m1 where "m1 = m\<lparr>mp_storage := (mp_storage m)\<lparr>ns_index := c,
     ns_used := (ns_used (mp_storage m))[c := j], st_miners := om_put j j (st_miners (mp_storage m))\<rparr>\<rparr>"
  define w2 where "w2 = (if st_active (mp_storage m)
     then pw_do (P_job j (st_job (mp_storage m)) (-1)) (on_client j (\<lambda>d. d\<lparr>d_fixedByte := of_nat c\<rparr>) w1)
     else on_client j (\<lambda>d. d\<lparr>d_fixedByte := of_nat c\<rparr>) w1)"
  have a: "nm_add cfg j m w =
      (let (m2, w3) = (if isSuspended m1 then mapper_connect m1 w2 else (m1, w2))
       in (True, m2, on_client j (\<lambda>d. d\<lparr>d_mapperId := int (mp_id m)\<rparr>) w3))"
    unfolding nm_add_def w1 [symmetric] m1_def w2_def ns_add_byte [OF assms(1,2)] by (simp add: Let_def)
  have s: "isSuspended m1 = isSuspended m" by (simp add: m1_def isSuspended_def)
  have c: "clients (on_client j f (on_client j g w1)) = clients (on_client j (\<lambda>d. f (g d)) w1)" for f g
    by (rule ext) (simp add: option.map_comp comp_def)
  have w2: "pw_clients w2 = pw_clients (on_client j (\<lambda>d. d\<lparr>d_fixedByte := of_nat c\<rparr>) w1)" by (simp add: w2_def)
  have oc: "pw_clients u = pw_clients v \<Longrightarrow> pw_clients (on_client j f u) = pw_clients (on_client j f v)" for u v f
    by (simp add: on_client_def)
  have r: "b \<and> m' = (if isSuspended m then fst (mapper_connect m1 w2) else m1) \<and>
      w' = on_client j (\<lambda>d. d\<lparr>d_mapperId := int (mp_id m)\<rparr>) (if isSuspended m then snd (mapper_connect m1 w2) else w2)"
  proof (cases "isSuspended m")
    case True then show ?thesis using add by (simp add: a s split_beta)
  next
    case False then show ?thesis using add by (simp add: a s)
  qed
  have cn: "pw_clients (if isSuspended m then snd (mapper_connect m1 w2) else w2) = pw_clients w2"
    by (simp add: mapper_connect_def)
  have cl: "clients w' = clients (on_client j (\<lambda>d. d\<lparr>d_fixedByte := of_nat c, d_mapperId := int (mp_id m)\<rparr>) w1)"
  proof -
    have "pw_clients w' = pw_clients (on_client j (\<lambda>d. d\<lparr>d_mapperId := int (mp_id m)\<rparr>) w2)"
      using r oc [OF cn] by simp
    then show ?thesis
      using oc [OF w2] c [of "\<lambda>d. d\<lparr>d_mapperId := int (mp_id m)\<rparr>" "\<lambda>d. d\<lparr>d_fixedByte := of_nat c\<rparr>"] by simp
  qed
  have "mp_id m' = mp_id m \<and> mp_suspended m' = (if isSuspended m then 0 else mp_suspended m) \<and> mp_storage m' = mp_storage m1"
    using r by (simp add: mapper_connect_def m1_def)
  then show ?thesis using r cl by (simp add: m1_def bytes_of_def)
qed

lemma nm_add_result:
  assumes ok: "mapper_ok (clients w) i m" and j: "0 < j" "clients w j = Some d" "unserved d"
    and add: "nm_add cfg j m w = (b, m', w')"
  shows "(\<forall>k. k \<noteq> j \<longrightarrow> clients w' k = clients w k) \<and> (b \<longleftrightarrow> 0 \<in> set (bytes_of m)) \<and>
    (if b then mapper_ok (clients w') i m' \<and> (\<exists>d'. clients w' j = Some d' \<and> served_by i d' \<and>
                  bytes_of m ! unat (d_fixedByte d') = 0 \<and> bytes_of m' = (bytes_of m)[unat (d_fixedByte d') := j])
     else m' = m \<and> (\<exists>d'. clients w' j = Some d' \<and> unserved d'))"
proof -
  define w1 where "w1 = (if \<not> d_extNicehash (client_of j w)
     then on_client j (\<lambda>d. d\<lparr>d_extAlgo := mc_algoExt cfg, d_extNicehash := True\<rparr>) w else w)"
  obtain d1 where d1: "clients w1 j = Some d1" "unserved d1" "\<forall>k. k \<noteq> j \<longrightarrow> clients w1 k = clients w k"
  proof -
    have "\<exists>d1. clients w1 j = Some d1 \<and> unserved d1 \<and> (\<forall>k. k \<noteq> j \<longrightarrow> clients w1 k = clients w k)"
      using j by (auto simp: w1_def unserved_def)
    then show thesis using that by blast
  qed
  have st: "length (ns_used (mp_storage m)) = 256" "ns_index (mp_storage m) < 256" "mp_id m = i" "0 \<le> mp_suspended m"
    using ok by (simp_all add: mapper_ok_def bytes_of_def)
  show ?thesis
  proof (cases "nextIndex 0 (mp_storage m) = -1")
    case True
    then have "b = False" "m' = m" "w' = w1"
      using add by (auto simp: nm_add_def w1_def [symmetric] ns_add_full Let_def)
    then show ?thesis using d1 True nextIndex_None [OF st(1,2)] by (simp add: bytes_of_def)
  next
    case False
    obtain c where c: "c < 256" "nextIndex 0 (mp_storage m) = int c" "ns_used (mp_storage m) ! c = 0"
      using nextIndex_free [OF False st(1,2)] by blast
    have u: "unat (of_nat c :: u8) = c" using c(1) by (simp add: unat_of_nat)
    have b: "b \<and> mp_id m' = i \<and> mp_suspended m' = 0 \<and> ns_index (mp_storage m') = c \<and>
        bytes_of m' = (bytes_of m)[c := j] \<and> (\<forall>k. k \<noteq> j \<longrightarrow> clients w' k = clients w1 k) \<and>
        clients w' j = Some (d1\<lparr>d_fixedByte := of_nat c, d_mapperId := int i\<rparr>)"
      using nm_add_byte [OF c(2,1) w1_def add] st(3,4) d1(1) by (simp add: isSuspended_def)
    have sv: "served_by i (d1\<lparr>d_fixedByte := of_nat c, d_mapperId := int i\<rparr>)"
      using d1(2) by (simp add: served_by_def unserved_def)
    have "mapper_ok (clients w') i m'"
    proof (rule mapper_ok_take [OF ok j c(1), where d' = "d1\<lparr>d_fixedByte := of_nat c, d_mapperId := int i\<rparr>"])
      show "bytes_of m ! c = 0" using c(3) by (simp add: bytes_of_def)
    qed (use b d1(3) sv in simp_all)
    moreover have "0 \<in> set (bytes_of m)" using c st(1) by (auto simp: in_set_conv_nth bytes_of_def)
    moreover have "clients w' j = Some (d1\<lparr>d_fixedByte := of_nat c, d_mapperId := int i\<rparr>)" using b by blast
    moreover have "bytes_of m ! c = 0" using c(3) by (simp add: bytes_of_def)
    moreover have "\<forall>k. k \<noteq> j \<longrightarrow> clients w' k = clients w k" using b d1(3) by simp
    ultimately show ?thesis using b sv u by simp
  qed
qed

text \<open>Miner \<open>j\<close> got a byte of one of the mappers.\<close>

definition taken :: "int \<Rightarrow> nat \<Rightarrow> nonce_mapper list \<Rightarrow> pool_world \<Rightarrow> nonce_mapper list \<Rightarrow> pool_world \<Rightarrow> bool" where
  "taken j n ms w ms' w' \<longleftrightarrow>
     length ms' = length ms \<and> (\<forall>k. k \<noteq> j \<longrightarrow> clients w' k = clients w k) \<and> mappers_ok (clients w') n ms' \<and>
     (\<exists>i < length ms. \<exists>d. clients w' j = Some d \<and> served_by (n + i) d \<and>
        bytes_of (ms ! i) ! unat (d_fixedByte d) = 0 \<and>
        map bytes_of ms' = (map bytes_of ms)[i := (bytes_of (ms ! i))[unat (d_fixedByte d) := j]])"

lemma mapper_ok_unserved:
  "mapper_ok C i m \<Longrightarrow> \<forall>k. k \<noteq> j \<longrightarrow> C' k = C k \<Longrightarrow> C j = Some d \<Longrightarrow> unserved d \<Longrightarrow> C' j = Some d' \<Longrightarrow>
   unserved d' \<Longrightarrow> mapper_ok C' i m"
  by (rule mapper_ok_other [of C i m j C']) auto

lemma mappers_ok_unserved:
  "mappers_ok C n ms \<Longrightarrow> \<forall>k. k \<noteq> j \<longrightarrow> C' k = C k \<Longrightarrow> C j = Some d \<Longrightarrow> unserved d \<Longrightarrow> C' j = Some d' \<Longrightarrow>
   unserved d' \<Longrightarrow> mappers_ok C' n ms"
  by (rule mappers_ok_other [of C n ms j C']) auto

lemma try_mappers_result:
  "mappers_ok (clients w) n ms \<Longrightarrow> 0 < j \<Longrightarrow> clients w j = Some d \<Longrightarrow> unserved d \<Longrightarrow>
   try_mappers cfg P j ms w = (ok, ms', w') \<Longrightarrow>
   (\<forall>k. k \<noteq> j \<longrightarrow> clients w' k = clients w k) \<and>
   (if ok then taken j n ms w ms' w'
    else ms' = ms \<and> (\<exists>d'. clients w' j = Some d' \<and> unserved d') \<and> (\<forall>m \<in> set ms. P m \<longrightarrow> 0 \<notin> set (bytes_of m)))"
proof (induction ms arbitrary: n w d ok ms' w')
  case (Cons m ms)
  obtain b m1 w1 where add: "(if P m then nm_add cfg j m w else (False, m, w)) = (b, m1, w1)"
    by (metis prod_cases3)
  have res: "(\<forall>k. k \<noteq> j \<longrightarrow> clients w1 k = clients w k) \<and>
      (if b then mapper_ok (clients w1) n m1 \<and> (\<exists>d'. clients w1 j = Some d' \<and> served_by n d' \<and>
            bytes_of m ! unat (d_fixedByte d') = 0 \<and> bytes_of m1 = (bytes_of m)[unat (d_fixedByte d') := j])
       else m1 = m \<and> (\<exists>d'. clients w1 j = Some d' \<and> unserved d') \<and> (P m \<longrightarrow> 0 \<notin> set (bytes_of m)))"
  proof (cases "P m")
    case True
    then show ?thesis
      using nm_add_result [of w n m j d cfg b m1 w1] Cons.prems add by (cases b) simp_all
  next
    case False
    then show ?thesis using add Cons.prems by simp
  qed
  show ?case
  proof (cases b)
    case True
    then have r: "ok" "ms' = m1 # ms" "w' = w1" using Cons.prems(5) add by simp_all
    obtain d' where d': "clients w1 j = Some d'" "served_by n d'" "bytes_of m ! unat (d_fixedByte d') = 0"
        "bytes_of m1 = (bytes_of m)[unat (d_fixedByte d') := j]" "mapper_ok (clients w1) n m1"
      using res True by auto
    have o: "\<forall>k. k \<noteq> j \<longrightarrow> clients w1 k = clients w k" using res by simp
    have "mappers_ok (clients w1) (Suc n) ms"
    proof (rule mappers_ok_other [of "clients w" "Suc n" ms j])
      show "mappers_ok (clients w) (Suc n) ms" using Cons.prems(1) by simp
      show "\<forall>e i. clients w j = Some e \<longrightarrow> Suc n \<le> i \<longrightarrow> i < Suc n + length ms \<longrightarrow> \<not> served_by i e"
        using Cons.prems(3,4) by simp
      show "\<forall>e i. clients w1 j = Some e \<longrightarrow> Suc n \<le> i \<longrightarrow> i < Suc n + length ms \<longrightarrow> \<not> served_by i e"
        using d'(1,2) by (simp add: served_by_def)
    qed (rule o)
    then have "taken j n (m # ms) w ms' w'"
      unfolding taken_def r using d' o by (auto intro!: exI [of _ 0])
    then show ?thesis using r o by simp
  next
    case False
    obtain d' where d': "clients w1 j = Some d'" "unserved d'" using res False by auto
    have o: "\<forall>k. k \<noteq> j \<longrightarrow> clients w1 k = clients w k" and m1: "m1 = m" and full: "P m \<longrightarrow> 0 \<notin> set (bytes_of m)"
      using res False by auto
    obtain ok' ms1 w2 where rest: "try_mappers cfg P j ms w1 = (ok', ms1, w2)" by (metis prod_cases3)
    have r: "ok = ok'" "ms' = m # ms1" "w' = w2" using Cons.prems(5) add False m1 rest by simp_all
    have ok1: "mapper_ok (clients w1) n m" "mappers_ok (clients w1) (Suc n) ms"
    proof -
      show "mapper_ok (clients w1) n m"
        by (rule mapper_ok_unserved [OF _ o Cons.prems(3,4) d']) (use Cons.prems(1) in simp)
      show "mappers_ok (clients w1) (Suc n) ms"
        by (rule mappers_ok_unserved [OF _ o Cons.prems(3,4) d']) (use Cons.prems(1) in simp)
    qed
    note ih = Cons.IH [OF ok1(2) Cons.prems(2) d' rest]
    show ?thesis
    proof (cases ok)
      case True
      then have t: "taken j (Suc n) ms w1 ms1 w2" using ih r by simp
      then obtain i e where e: "i < length ms" "clients w2 j = Some e" "served_by (Suc n + i) e"
          "bytes_of (ms ! i) ! unat (d_fixedByte e) = 0"
          "map bytes_of ms1 = (map bytes_of ms)[i := (bytes_of (ms ! i))[unat (d_fixedByte e) := j]]"
        unfolding taken_def by blast
      have o2: "\<forall>k. k \<noteq> j \<longrightarrow> clients w2 k = clients w1 k" using ih by simp
      have "mapper_ok (clients w2) n m"
        by (rule mapper_ok_other [of "clients w1" n m j]) (use ok1(1) o2 d' e(2,3) in \<open>simp_all add: served_by_def unserved_def\<close>)
      moreover have "mappers_ok (clients w2) (Suc n) ms1" "length ms1 = length ms" using t by (simp_all add: taken_def)
      ultimately have "taken j n (m # ms) w ms' w'"
        unfolding taken_def r using e o o2 by (auto intro!: exI [of _ "Suc i"])
      then show ?thesis using True r o o2 by simp
    next
      case False
      then show ?thesis using ih r o full by auto
    qed
  qed
qed simp

section \<open>The splitter\<close>

abbreviation sclients :: "nonce_splitter \<Rightarrow> int \<rightharpoonup> downstream" where
  "sclients s \<equiv> clients (nsp_world s)"

definition splitter_ok :: "nonce_splitter \<Rightarrow> bool" where
  "splitter_ok s \<longleftrightarrow>
     nsp_upstreams s \<noteq> [] \<and> mappers_ok (sclients s) 0 (nsp_upstreams s) \<and>
     (\<forall>k d. sclients s k = Some d \<longrightarrow> 0 < k \<and>
        (d_routeId d = -1 \<longrightarrow> unserved d \<or> (\<exists>i < length (nsp_upstreams s). served_by i d)))"

text \<open>Bytes in use, or given back but not yet free, stay as they are.\<close>

definition keeps_bytes :: "nonce_mapper list \<Rightarrow> nonce_mapper list \<Rightarrow> bool" where
  "keeps_bytes ms ms' \<longleftrightarrow> length ms \<le> length ms' \<and>
     (\<forall>i < length ms. \<forall>b. bytes_of (ms ! i) ! b \<noteq> 0 \<longrightarrow> bytes_of (ms' ! i) ! b = bytes_of (ms ! i) ! b)"

lemma keeps_bytes_refl [simp]: "keeps_bytes ms ms"
  by (simp add: keeps_bytes_def)

lemma taken_keeps:
  assumes "taken j n ms w ms' w'"
  shows "keeps_bytes ms ms'"
proof -
  have len: "length ms' = length ms" using assms by (simp add: taken_def)
  obtain i and d :: downstream where i: "i < length ms" "bytes_of (ms ! i) ! unat (d_fixedByte d) = 0"
      "map bytes_of ms' = (map bytes_of ms)[i := (bytes_of (ms ! i))[unat (d_fixedByte d) := j]]"
    using assms unfolding taken_def by blast
  have "bytes_of (ms' ! k) = (if k = i then (bytes_of (ms ! i))[unat (d_fixedByte d) := j] else bytes_of (ms ! k))"
    if "k < length ms" for k
    using arg_cong [OF i(3), of "\<lambda>xs. xs ! k"] that len by (simp add: nth_list_update)
  then show ?thesis using len i(2) by (auto simp: keeps_bytes_def) (metis nth_list_update_neq)
qed

lemma taken_splitter_ok:
  assumes "taken j 0 ms w ms' w'" and "ms \<noteq> []" and "0 < j"
    and "\<forall>k d. clients w k = Some d \<longrightarrow> 0 < k \<and> (d_routeId d = -1 \<longrightarrow> unserved d \<or> (\<exists>i < length ms. served_by i d))"
  shows "splitter_ok (s\<lparr>nsp_upstreams := ms', nsp_world := w'\<rparr>) \<and> (\<exists>i < length ms'. \<exists>d. clients w' j = Some d \<and> served_by i d)"
proof -
  obtain i d where t: "length ms' = length ms" "\<forall>k. k \<noteq> j \<longrightarrow> clients w' k = clients w k" "mappers_ok (clients w') 0 ms'"
      "i < length ms" "clients w' j = Some d" "served_by i d"
    using assms(1) unfolding taken_def by auto
  have "0 < k \<and> (d_routeId e = -1 \<longrightarrow> unserved e \<or> (\<exists>i < length ms'. served_by i e))" if "clients w' k = Some e" for k e
    using that t assms(3,4) by (cases "k = j") auto
  then show ?thesis using t assms(2) by (auto simp: splitter_ok_def)
qed

lemma new_mapper_ok:
  assumes "\<forall>k d. C k = Some d \<longrightarrow> \<not> served_by n d"
    and "new_mapper cfg n (new_nonce_storage r) w = (m, w1)" and "mapper_start m w1 = (m1, w2)"
  shows "mapper_ok C n m1 \<and> \<not> isSuspended m1 \<and> 0 \<in> set (bytes_of m1) \<and> pw_clients w2 = pw_clients w"
proof -
  have m: "mp_id m1 = n" "mp_suspended m1 = 0" "mp_storage m1 = new_nonce_storage r"
    using assms(2,3) by (auto simp: new_mapper_def mapper_start_def mapper_connect_def split: prod.splits)
  moreover have "pw_clients w2 = pw_clients w"
    using assms(2,3) by (auto simp: new_mapper_def mapper_start_def mapper_connect_def new_strategy_def split: prod.splits)
  ultimately show ?thesis
    using assms(1) by (auto simp: mapper_ok_def isSuspended_def bytes_of_def new_nonce_storage_def)
qed

lemma connect_result:
  assumes "mappers_ok (sclients s) 0 (nsp_upstreams s)"
    and cl: "\<forall>k d. sclients s k = Some d \<longrightarrow> d_routeId d = -1 \<longrightarrow> unserved d \<or> (\<exists>i < length (nsp_upstreams s). served_by i d)"
  shows "\<exists>m. nsp_upstreams (ns_connect cfg rnd s) = nsp_upstreams s @ [m] \<and>
    mappers_ok (sclients s) 0 (nsp_upstreams s @ [m]) \<and> \<not> isSuspended m \<and> 0 \<in> set (bytes_of m) \<and>
    pw_clients (nsp_world (ns_connect cfg rnd s)) = pw_clients (nsp_world s)"
proof -
  define n where "n = length (nsp_upstreams s)"
  obtain m w where m: "new_mapper cfg n (new_nonce_storage (rnd n)) (nsp_world s) = (m, w)" by (metis surj_pair)
  obtain m1 w1 where m1: "mapper_start m w = (m1, w1)" by (metis surj_pair)
  have "\<not> served_by n d" if kd: "sclients s k = Some d" for k d
  proof
    assume "served_by n d"
    then have "\<not> unserved d" "d_routeId d = -1" by (auto simp: served_by_def unserved_def)
    then obtain i where "i < n" "served_by i d" using cl kd unfolding n_def by blast
    then show False using served_by_unique [OF \<open>served_by n d\<close>, of i] by simp
  qed
  then have "mapper_ok (sclients s) n m1 \<and> \<not> isSuspended m1 \<and> 0 \<in> set (bytes_of m1) \<and> pw_clients w1 = pw_clients (nsp_world s)"
    using new_mapper_ok [OF _ m m1] by blast
  then show ?thesis using assms(1) m m1
    by (auto simp: ns_connect_def n_def [symmetric] Let_def mappers_ok_append)
qed

definition all_known :: "(int \<rightharpoonup> downstream) \<Rightarrow> nonce_mapper list \<Rightarrow> bool" where
  "all_known C ms \<longleftrightarrow>
     (\<forall>k d. C k = Some d \<longrightarrow> 0 < k \<and> (d_routeId d = -1 \<longrightarrow> unserved d \<or> (\<exists>i < length ms. served_by i d)))"

lemma splitter_ok_iff:
  "splitter_ok s \<longleftrightarrow> nsp_upstreams s \<noteq> [] \<and> mappers_ok (sclients s) 0 (nsp_upstreams s) \<and>
     all_known (sclients s) (nsp_upstreams s)"
  by (simp add: splitter_ok_def all_known_def)

lemma all_known_unserved:
  assumes "all_known C ms" and "\<forall>k. k \<noteq> j \<longrightarrow> C' k = C k" and "C j = Some d" and "C' j = Some d'" and "unserved d'"
  shows "all_known C' ms"
proof -
  have "0 < k \<and> (d_routeId e = -1 \<longrightarrow> unserved e \<or> (\<exists>i < length ms. served_by i e))" if "C' k = Some e" for k e
    using that assms unfolding all_known_def by (cases "k = j") simp_all
  then show ?thesis by (simp add: all_known_def)
qed

lemma all_known_snoc: "all_known C ms \<Longrightarrow> all_known C (ms @ [m])"
  unfolding all_known_def by (simp add: less_Suc_eq) blast

lemma keeps_bytes_snoc: "keeps_bytes (ms @ [m]) ms' \<Longrightarrow> keeps_bytes ms ms'"
  by (auto simp: keeps_bytes_def nth_append)

lemma login_taken:
  fixes s :: nonce_splitter
  assumes t: "taken j 0 ms w ms' w'" and "ms \<noteq> []" and "0 < j" and "all_known (clients w) ms"
  shows "splitter_ok (s\<lparr>nsp_upstreams := ms', nsp_world := w'\<rparr>) \<and> keeps_bytes ms ms' \<and> length ms' = length ms \<and>
    (\<exists>i < length ms. \<exists>d. clients w' j = Some d \<and> served_by i d)"
  using taken_splitter_ok [OF t assms(2,3)] taken_keeps [OF t] assms(4) t by (simp add: all_known_def taken_def)

lemma login_result:
  assumes ok: "splitter_ok s" and j: "0 < j" "sclients s j = Some d" "d_routeId d = -1 \<longrightarrow> unserved d"
  shows "\<exists>s'. ns_login cfg rnd j s = Some s' \<and> splitter_ok s' \<and> keeps_bytes (nsp_upstreams s) (nsp_upstreams s') \<and>
     length (nsp_upstreams s') \<le> Suc (length (nsp_upstreams s)) \<and>
     (\<forall>k. k \<noteq> j \<longrightarrow> sclients s' k = sclients s k) \<and>
     (d_routeId d = -1 \<longrightarrow> (\<exists>i < length (nsp_upstreams s'). \<exists>d'. sclients s' j = Some d' \<and> served_by i d'))"
proof (cases "d_routeId d = -1")
  case False
  then show ?thesis using ok j(2) by (simp add: ns_login.simps [of cfg rnd j s] client_of_def)
next
  case True
  then have u: "unserved d" using j(3) by simp
  define ups where "ups = nsp_upstreams s"
  have known: "all_known (sclients s) ups" and mok: "mappers_ok (sclients s) 0 ups" and ne: "ups \<noteq> []"
    using ok by (simp_all add: splitter_ok_iff ups_def)
  have route: "d_routeId (client_of j (nsp_world s)) = -1" using True j(2) by (simp add: client_of_def)
  obtain ok1 ms1 w1 where try1: "try_mappers cfg (\<lambda>m. \<not> isSuspended m) j ups (nsp_world s) = (ok1, ms1, w1)"
    by (metis prod_cases3)
  note r1 = try_mappers_result [OF mok j(1,2) u try1]
  show ?thesis
  proof (cases ok1)
    case True
    then have l: "ns_login cfg rnd j s = Some (s\<lparr>nsp_upstreams := ms1, nsp_world := w1\<rparr>)"
      using route try1 by (simp add: ns_login.simps [of cfg rnd j s] ups_def)
    have t: "taken j 0 ups (nsp_world s) ms1 w1" using r1 True by simp
    show ?thesis using login_taken [OF t ne j(1) known] r1 unfolding l by (simp add: ups_def)
  next
    case False
    then obtain d1 where d1: "ms1 = ups" "clients w1 j = Some d1" "unserved d1" using r1 by auto
    have o1: "\<forall>k. k \<noteq> j \<longrightarrow> clients w1 k = sclients s k" using r1 by simp
    have known1: "all_known (clients w1) ups" by (rule all_known_unserved [OF known o1 j(2) d1(2,3)])
    have mok1: "mappers_ok (clients w1) 0 ups" by (rule mappers_ok_unserved [OF mok o1 j(2) u d1(2,3)])
    obtain ok2 ms2 w2 where try2: "try_mappers cfg isSuspended j ups w1 = (ok2, ms2, w2)" by (metis prod_cases3)
    note r2 = try_mappers_result [OF mok1 j(1) d1(2,3) try2]
    have l: "ns_login cfg rnd j s = (if ok2 then Some (s\<lparr>nsp_upstreams := ms2, nsp_world := w2\<rparr>)
        else ns_login cfg rnd j (ns_connect cfg rnd (s\<lparr>nsp_upstreams := ms2, nsp_world := w2\<rparr>)))"
      using route try1 try2 False d1(1) by (simp add: ns_login.simps [of cfg rnd j s] ups_def)
    have o2: "\<forall>k. k \<noteq> j \<longrightarrow> clients w2 k = sclients s k" using r2 o1 by simp
    show ?thesis
    proof (cases ok2)
      case True
      then have t: "taken j 0 ups w1 ms2 w2" using r2 by simp
      show ?thesis using login_taken [OF t ne j(1) known1] o2 unfolding l by (simp add: ups_def True)
    next
      case False
      then obtain d2 where d2: "ms2 = ups" "clients w2 j = Some d2" "unserved d2" using r2 by auto
      have o21: "\<forall>k. k \<noteq> j \<longrightarrow> clients w2 k = clients w1 k" using r2 by simp
      define s3 where "s3 = s\<lparr>nsp_upstreams := ups, nsp_world := w2\<rparr>"
      have known2: "all_known (clients w2) ups" by (rule all_known_unserved [OF known1 o21 d1(2) d2(2,3)])
      have mok2: "mappers_ok (clients w2) 0 ups" by (rule mappers_ok_unserved [OF mok1 o21 d1(2,3) d2(2,3)])
      obtain m where m: "nsp_upstreams (ns_connect cfg rnd s3) = ups @ [m]" "mappers_ok (clients w2) 0 (ups @ [m])"
          "\<not> isSuspended m" "0 \<in> set (bytes_of m)" "pw_clients (nsp_world (ns_connect cfg rnd s3)) = pw_clients w2"
        using connect_result [of s3 cfg rnd] mok2 known2 by (auto simp: s3_def all_known_def)
      define s4 where "s4 = ns_connect cfg rnd s3"
      have s4: "nsp_upstreams s4 = ups @ [m]" "sclients s4 = clients w2" using m by (simp_all add: s4_def)
      obtain ok3 ms3 w3 where try3: "try_mappers cfg (\<lambda>m. \<not> isSuspended m) j (ups @ [m]) (nsp_world s4) = (ok3, ms3, w3)"
        by (metis prod_cases3)
      have mok3: "mappers_ok (sclients s4) 0 (ups @ [m])" and j4: "sclients s4 j = Some d2" using m(2) s4 d2 by simp_all
      note r3 = try_mappers_result [OF mok3 j(1) j4 d2(3) try3]
      have "ok3" using r3 m(3,4) by (cases ok3) auto
      then have t: "taken j 0 (ups @ [m]) (nsp_world s4) ms3 w3" using r3 by simp
      have "d_routeId (client_of j (nsp_world s4)) = -1" using j4 d2(3) by (simp add: client_of_def unserved_def)
      then have l2: "ns_login cfg rnd j s4 = Some (s4\<lparr>nsp_upstreams := ms3, nsp_world := w3\<rparr>)"
        using try3 \<open>ok3\<close> s4(1) by (simp add: ns_login.simps [of cfg rnd j s4])
      have k4: "all_known (sclients s4) (ups @ [m])" using all_known_snoc [OF known2] s4(2) by simp
      have o3: "\<forall>k. k \<noteq> j \<longrightarrow> clients w3 k = sclients s k" using r3 o2 s4(2) by simp
      have "ns_login cfg rnd j s = ns_login cfg rnd j s4" using l False d2(1) by (simp add: s3_def s4_def)
      then show ?thesis
        using login_taken [OF t _ j(1) k4, of s4] l2 o3 keeps_bytes_snoc [of ups m ms3] by (simp add: ups_def)
    qed
  qed
qed

section \<open>Operations that leave the miners where they are\<close>

text \<open>Bytes that were given back may become free.\<close>

definition alike :: "nonce_mapper \<Rightarrow> nonce_mapper \<Rightarrow> bool" where
  "alike m m' \<longleftrightarrow> mp_id m' = mp_id m \<and> mp_suspended m' = mp_suspended m \<and>
     ns_index (mp_storage m') = ns_index (mp_storage m) \<and> length (bytes_of m') = length (bytes_of m) \<and>
     (\<forall>b < length (bytes_of m). bytes_of m' ! b = bytes_of m ! b \<or> bytes_of m ! b \<le> 0 \<and> bytes_of m' ! b = 0)"

lemma alike_refl [simp]: "alike m m"
  by (simp add: alike_def)

lemma alike_same:
  "mp_id m' = mp_id m \<Longrightarrow> mp_suspended m' = mp_suspended m \<Longrightarrow> ns_index (mp_storage m') = ns_index (mp_storage m) \<Longrightarrow>
   ns_used (mp_storage m') = ns_used (mp_storage m) \<Longrightarrow> alike m m'"
  by (simp add: alike_def bytes_of_def)

lemma mapper_ok_alike:
  assumes ok: "mapper_ok C i m" and al: "alike m m'"
  shows "mapper_ok C i m'"
proof -
  have len: "length (bytes_of m) = 256" using ok by (simp add: mapper_ok_def)
  have v: "bytes_of m' ! b = bytes_of m ! b \<or> bytes_of m ! b \<le> 0 \<and> bytes_of m' ! b = 0" if "b < 256" for b
    using al that len by (simp add: alike_def)
  have pos: "bytes_of m' ! b = bytes_of m ! b" if "b < 256" "0 < bytes_of m ! b \<or> 0 < bytes_of m' ! b" for b
    using v [OF that(1)] that(2) by auto
  have "\<exists>d. C (bytes_of m' ! b) = Some d \<and> served_by i d \<and> unat (d_fixedByte d) = b"
    if "b < 256" "0 < bytes_of m' ! b" for b
    using mapper_ok_byte [OF ok that(1)] pos [OF that(1)] that(2) by simp
  moreover have "0 < k \<and> bytes_of m' ! unat (d_fixedByte d) = k" if "C k = Some d" "served_by i d" for k d
    using mapper_ok_client [OF ok that] pos [of "unat (d_fixedByte d)"] unsigned_less [of "d_fixedByte d"] by simp
  moreover have "\<forall>b < 256. bytes_of m' ! b = 0" if "isSuspended m'"
  proof -
    have "isSuspended m" using that al by (simp add: alike_def isSuspended_def)
    then have "\<forall>b < 256. bytes_of m ! b = 0" using ok by (simp add: mapper_ok_def)
    then show ?thesis using v by metis
  qed
  ultimately show ?thesis using ok al len by (simp add: mapper_ok_def alike_def)
qed

lemma storage_scheme_eqs [simp]:
  "ns_used (setActive b s) = ns_used s" "ns_index (setActive b s) = ns_index s"
  by (simp_all add: setActive_def)

lemma fold_clients:
  "(\<And>v w. pw_clients (f v w) = pw_clients w) \<Longrightarrow> pw_clients (fold f vs w) = pw_clients w"
  by (induction vs arbitrary: w) simp_all

lemma setJob_clients: "ns_setJob j s w = (s', w') \<Longrightarrow> pw_clients w' = pw_clients w"
  by (auto simp: ns_setJob_def Let_def intro!: fold_clients split: option.split)

lemma setJob_bytes:
  "ns_setJob j s w = (s', w') \<Longrightarrow> ns_index s' = ns_index s \<and> ns_used s' = map (\<lambda>v. if v < 0 then 0 else v) (ns_used s)"
  by (auto simp: ns_setJob_def Let_def)

lemma alike_setJob:
  "ns_setJob j (mp_storage m) w = (s', w') \<Longrightarrow> mp_id m' = mp_id m \<Longrightarrow> mp_suspended m' = mp_suspended m \<Longrightarrow>
   mp_storage m' = s' \<Longrightarrow> alike m m'"
  using setJob_bytes [of j "mp_storage m" w s' w'] by (auto simp: alike_def bytes_of_def)

definition harmless :: "nonce_mapper \<Rightarrow> pool_world \<Rightarrow> nonce_mapper \<times> pool_world \<Rightarrow> bool" where
  "harmless m w r \<longleftrightarrow> alike m (fst r) \<and> pw_clients (snd r) = pw_clients w"

lemma set_job_harmless:
  assumes "mp_id m1 = mp_id m" "mp_suspended m1 = mp_suspended m" "mp_storage m1 = mp_storage m" "pw_clients w1 = pw_clients w"
  shows "harmless m w (case ns_setJob j (mp_storage m1) w1 of (s, w2) \<Rightarrow> (m1\<lparr>mp_storage := s\<rparr>, w2))"
proof -
  obtain s' w' where s': "ns_setJob j (mp_storage m) w1 = (s', w')" by (metis surj_pair)
  have "alike m (m1\<lparr>mp_storage := s'\<rparr>)" by (rule alike_setJob [OF s']) (simp_all add: assms)
  then show ?thesis using setJob_clients [OF s'] s' assms by (simp add: harmless_def)
qed

lemma onJob_harmless: "harmless m w (mapper_onJob cfg ns_setJob client host port j m w)"
proof -
  define sd where "sd = (case mp_donate m of
            None \<Rightarrow> (False, None)
          | Some d \<Rightarrow>
              let (resched, d1) = (if ds_active d \<and> client \<noteq> -1
                    then ds_reschedule (mc_retarget cfg) (mc_donateLevel cfg) d else (True, d))
              in if ds_active d \<and> client \<noteq> -1 \<and> \<not> resched then (True, Some (ds_save host port j d1))
                 else (False, Some (ds_setAlgo (j_algorithm j) d1)))"
  obtain saved don where d: "sd = (saved, don)" by (metis surj_pair)
  have "mapper_onJob cfg ns_setJob client host port j m w =
     (let m1 = m\<lparr>mp_donate := don\<rparr> in if saved then (m1, w)
      else (case ns_setJob j (mp_storage m1) w of (s, w1) \<Rightarrow> (m1\<lparr>mp_storage := s\<rparr>, w1)))"
    unfolding mapper_onJob_def sd_def [symmetric] d by simp
  moreover have "harmless m w (m\<lparr>mp_donate := don\<rparr>, w)" by (simp add: harmless_def alike_same)
  ultimately show ?thesis using set_job_harmless [of "m\<lparr>mp_donate := don\<rparr>" m w w j] by (simp add: Let_def)
qed

lemma tick_harmless: "harmless m w (mapper_tick cfg ns_setJob now m w)"
proof (cases "mp_donate m")
  case None
  then show ?thesis by (simp add: harmless_def mapper_tick_def Let_def)
next
  case (Some d)
  obtain r d2 where r: "(if ds_active (ds_tick now d) \<and> ds_hasPendingJob (ds_tick now d)
      then ds_reschedule (mc_retarget cfg) (mc_donateLevel cfg) (ds_tick now d) else (False, ds_tick now d)) = (r, d2)"
    by (metis surj_pair)
  have "mapper_tick cfg ns_setJob now m w =
      (let w1 = pw_do (P_tick (mp_strategy m) now) w; m1 = m\<lparr>mp_donate := Some d2\<rparr>
       in if r then (case ns_setJob (dp_job (ds_pending d2)) (mp_storage m1) w1 of (s, w2) \<Rightarrow> (m1\<lparr>mp_storage := s\<rparr>, w2))
          else (m1, w1))"
    unfolding mapper_tick_def Some option.case Let_def r by simp
  moreover have "harmless m w (m\<lparr>mp_donate := Some d2\<rparr>, pw_do a w)" for a by (simp add: harmless_def alike_same)
  ultimately show ?thesis
    using set_job_harmless [of "m\<lparr>mp_donate := Some d2\<rparr>" m "pw_do (P_tick (mp_strategy m) now) w" w "dp_job (ds_pending d2)"]
    by (simp add: Let_def)
qed

lemma reload_harmless: "harmless m w (mapper_reload m w)"
  by (auto simp: harmless_def mapper_reload_def new_strategy_def Let_def alike_same split: option.split)

lemma onActive_harmless: "harmless m w (mapper_onActive h client m w)"
  by (auto simp: harmless_def mapper_onActive_def Let_def alike_same)

lemma onPause_harmless: "harmless m w (mapper_onPause m, w)"
  by (simp add: harmless_def mapper_onPause_def alike_same)

lemma onResult_harmless: "harmless m w (mapper_onResultAccepted client r err m w)"
  by (auto simp: harmless_def mapper_onResultAccepted_def submitCtx_def Let_def alike_same split: option.split)

lemma isValidJobId_clients: "isValidJobId i s w = (b, w1) \<Longrightarrow> pw_clients w1 = pw_clients w"
  by (auto simp: isValidJobId_def split: if_splits)

lemma submit_harmless: "harmless m w (snd (mapper_submit seq j q m w))"
proof -
  obtain b w1 where v: "isValidJobId (q_jobId q) (mp_storage m) w = (b, w1)" by (metis surj_pair)
  show ?thesis
    using isValidJobId_clients [OF v]
    by (cases b; cases "mp_donate m") (auto simp: harmless_def mapper_submit_def v Let_def alike_same)
qed

lemma each_harmless:
  assumes "\<And>m w. harmless m w (f m w)"
  shows "each_mapper f ms w = (ms', w') \<Longrightarrow> mappers_ok C n ms \<Longrightarrow>
    mappers_ok C n ms' \<and> length ms' = length ms \<and> pw_clients w' = pw_clients w"
proof (induction ms arbitrary: n w ms')
  case (Cons m ms)
  obtain m1 w1 where m1: "f m w = (m1, w1)" by (metis surj_pair)
  obtain ms1 w2 where ms1: "each_mapper f ms w1 = (ms1, w2)" by (metis surj_pair)
  have h: "alike m m1" "pw_clients w1 = pw_clients w" using assms [of m w] m1 by (simp_all add: harmless_def)
  have r: "ms' = m1 # ms1" "w' = w2" using Cons.prems(1) m1 ms1 by simp_all
  show ?case
    using Cons.IH [of w1 ms1 "Suc n"] ms1 r h Cons.prems(2) mapper_ok_alike [of C n m m1] by simp
qed simp

end
