(* ===== verification/Nonce_Claims.thy ===== *)
theory Nonce_Claims
  imports Nonce_Props
begin

text \<open>
  Runs of the NiceHash splitter, and its properties: no access to a mapper is out of bounds, a login always
  returns, and no two miners of one mapper ever work on the same part of the nonce space of a job.
\<close>

section \<open>Sleep\<close>

lemma unused_mapper:
  assumes ok: "mapper_ok C i m" and "\<not> ns_isUsed (mp_storage m)"
  shows "(\<forall>b < 256. bytes_of m ! b \<le> 0) \<and> (\<forall>k d. C k = Some d \<longrightarrow> \<not> served_by i d)"
proof -
  have le: "\<forall>b < 256. bytes_of m ! b \<le> 0" using assms(2) by (force simp: ns_isUsed_def bytes_of_def not_less)
  have "\<not> served_by i d" if "C k = Some d" for k d
    using mapper_ok_client [OF ok that] le unsigned_less [of "d_fixedByte d"] by force
  with le show ?thesis by blast
qed

lemma asleep_serves_none: "mapper_ok C i m \<Longrightarrow> isSuspended m \<Longrightarrow> C k = Some d \<Longrightarrow> \<not> served_by i d"
  using mapper_ok_client [of C i m k d] unsigned_less [of "d_fixedByte d"] by (force simp: mapper_ok_def)

lemma gc_mapper:
  assumes ok: "mapper_ok C i m" and "nm_gc m w = (m', w')"
  shows "mapper_ok C i m' \<and> pw_clients w' = pw_clients w"
proof (cases "isSuspended m")
  case True
  then show ?thesis using assms by (auto simp: nm_gc_def mapper_ok_def isSuspended_def bytes_of_def)
next
  case False
  show ?thesis
  proof (cases "mp_id m = 0 \<or> ns_isUsed (mp_storage m)")
    case True
    then show ?thesis using assms False by (simp add: nm_gc_def)
  next
    case unused: False
    have u: "\<forall>k d. C k = Some d \<longrightarrow> \<not> served_by i d" using unused_mapper [OF ok] unused by simp
    have m': "m' = m\<lparr>mp_suspended := 1, mp_storage := ns_reset (setActive False (mp_storage m)),
        mp_donate := map_option ds_stop (mp_donate m)\<rparr>" "pw_clients w' = pw_clients w"
      using assms(2) False unused by (auto simp: nm_gc_def mapper_suspend_def)
    have "bytes_of m' = replicate 256 0" using ok m'(1) by (simp add: bytes_of_def ns_reset_def mapper_ok_def)
    moreover have "mp_id m' = mp_id m" "mp_suspended m' = 1" "ns_index (mp_storage m') = ns_index (mp_storage m)"
      using m'(1) by (simp_all add: ns_reset_def)
    ultimately show ?thesis using u unused ok m'(2) by (auto simp: mapper_ok_def)
  qed
qed

lemma gc_mappers:
  "each_mapper nm_gc ms w = (ms', w') \<Longrightarrow> mappers_ok C n ms \<Longrightarrow>
   mappers_ok C n ms' \<and> length ms' = length ms \<and> pw_clients w' = pw_clients w"
proof (induction ms arbitrary: n w ms')
  case (Cons m ms)
  obtain m1 w1 where m1: "nm_gc m w = (m1, w1)" by (metis surj_pair)
  obtain ms1 w2 where ms1: "each_mapper nm_gc ms w1 = (ms1, w2)" by (metis surj_pair)
  have r: "ms' = m1 # ms1" "w' = w2" using Cons.prems(1) m1 ms1 by simp_all
  show ?case
    using Cons.IH [of w1 ms1 "Suc n"] ms1 r Cons.prems(2) gc_mapper [OF _ m1, of C n] by simp
qed simp

lemma drop_asleep_prefix: "\<exists>ds. ms = drop_asleep ms @ ds \<and> (\<forall>m \<in> set ds. 2 \<le> mp_suspended m)"
proof -
  have "ms = rev (dropWhile (\<lambda>m. 2 \<le> mp_suspended m) (rev ms)) @ rev (takeWhile (\<lambda>m. 2 \<le> mp_suspended m) (rev ms))"
    by (metis rev_append rev_rev_ident takeWhile_dropWhile_id)
  moreover have "\<forall>m \<in> set (rev (takeWhile (\<lambda>m. 2 \<le> mp_suspended m) (rev ms))). 2 \<le> mp_suspended m"
    by (auto dest: set_takeWhileD)
  ultimately show ?thesis unfolding drop_asleep_def by blast
qed

lemma gc_ok:
  assumes "splitter_ok s"
  shows "splitter_ok (ns_gc s) \<and> pw_clients (nsp_world (ns_gc s)) = pw_clients (nsp_world s)"
proof -
  obtain ms w where e: "each_mapper nm_gc (nsp_upstreams s) (nsp_world s) = (ms, w)" by (metis surj_pair)
  have ok: "mappers_ok (sclients s) 0 ms" "length ms = length (nsp_upstreams s)" "pw_clients w = pw_clients (nsp_world s)"
    using gc_mappers [OF e, of "sclients s" 0] assms by (simp_all add: splitter_ok_iff)
  obtain ds where ds: "ms = drop_asleep ms @ ds" "\<forall>m \<in> set ds. 2 \<le> mp_suspended m" using drop_asleep_prefix by blast
  have pre: "mappers_ok (sclients s) 0 (drop_asleep ms)" "mappers_ok (sclients s) (length (drop_asleep ms)) ds"
    using ok(1) mappers_ok_append [of "sclients s" 0 "drop_asleep ms" ds] ds(1) by simp_all
  have ne: "drop_asleep ms \<noteq> []"
  proof
    assume "drop_asleep ms = []"
    then have "ms = ds" using ds(1) by simp
    moreover have "ms \<noteq> []" using ok(2) assms by (auto simp: splitter_ok_iff)
    ultimately show False using ds(2) ok(1) by (cases ds) (auto simp: mapper_ok_def)
  qed
  have known: "0 < k \<and> (d_routeId d = -1 \<longrightarrow> unserved d \<or> (\<exists>i < length (drop_asleep ms). served_by i d))"
    if kd: "sclients s k = Some d" for k d
  proof -
    have a: "0 < k" "d_routeId d = -1 \<longrightarrow> unserved d \<or> (\<exists>i < length ms. served_by i d)"
      using assms kd ok(2) by (simp_all add: splitter_ok_def)
    have "i < length (drop_asleep ms)" if i: "i < length ms" "served_by i d" for i
    proof (rule ccontr)
      assume "\<not> i < length (drop_asleep ms)"
      then have "ms ! i \<in> set ds" using i(1) ds(1) by (metis nth_append nth_mem length_append add_diff_inverse_nat nat_add_left_cancel_less)
      then have "isSuspended (ms ! i)" using ds(2) by (auto simp: isSuspended_def)
      then show False using asleep_serves_none [of "sclients s" i "ms ! i" k d] ok(1) i kd by (simp add: mappers_ok_nth)
    qed
    with a show ?thesis by blast
  qed
  have cl: "pw_clients (delete_mapper m u) = pw_clients u" for m :: nonce_mapper and u
    by (simp add: delete_mapper_def split: option.split)
  have "pw_clients (fold delete_mapper (takeWhile (\<lambda>m. 2 \<le> mp_suspended m) (rev ms)) w) = pw_clients (nsp_world s)"
    using ok(3) by (simp add: fold_clients cl)
  then show ?thesis using ne pre known by (simp add: ns_gc_def e splitter_ok_def)
qed

section \<open>Leaving\<close>

lemma remove_mapper:
  assumes ok: "mapper_ok C i m" and j: "C j = Some d" "served_by i d" and C': "C' = C(j := None)"
    and b: "b = unat (d_fixedByte d)"
    and m': "mp_id m' = mp_id m" "mp_suspended m' = mp_suspended m" "ns_index (mp_storage m') = ns_index (mp_storage m)"
       "bytes_of m' = (bytes_of m)[b := - j]"
  shows "mapper_ok C' i m'"
proof -
  have len: "length (bytes_of m) = 256" using ok by (simp add: mapper_ok_def)
  have lt: "b < 256" using unsigned_less [of "d_fixedByte d"] by (simp add: b)
  have j0: "0 < j" "bytes_of m ! b = j" using mapper_ok_client [OF ok j] by (simp_all add: b)
  have "\<not> isSuspended m" using ok lt j0 by (auto simp: mapper_ok_def)
  moreover have "\<exists>e. C' (bytes_of m' ! c) = Some e \<and> served_by i e \<and> unat (d_fixedByte e) = c"
    if c: "c < 256" "0 < bytes_of m' ! c" for c
  proof -
    have cb: "c \<noteq> b" using c(2) m'(4) len lt j0(1) by auto
    then have "bytes_of m' ! c = bytes_of m ! c" using m'(4) by simp
    moreover obtain e where e: "C (bytes_of m ! c) = Some e" "served_by i e" "unat (d_fixedByte e) = c"
      using mapper_ok_byte [OF ok c(1)] c(2) calculation by auto
    moreover have "bytes_of m ! c \<noteq> j" using e j cb by (auto simp: b)
    ultimately show ?thesis by (simp add: C')
  qed
  moreover have "0 < k \<and> bytes_of m' ! unat (d_fixedByte e) = k" if ke: "C' k = Some e" "served_by i e" for k e
  proof -
    have k: "k \<noteq> j" "C k = Some e" using ke(1) by (auto simp: C' split: if_splits)
    then have v: "0 < k \<and> bytes_of m ! unat (d_fixedByte e) = k" using mapper_ok_client [OF ok k(2) ke(2)] by simp
    then have "unat (d_fixedByte e) \<noteq> b" using j0 k(1) by auto
    then show ?thesis using v m'(4) by simp
  qed
  ultimately show ?thesis using ok m' len by (simp add: mapper_ok_def isSuspended_def)
qed

definition forget_client :: "int \<Rightarrow> nonce_splitter \<Rightarrow> nonce_splitter" where
  "forget_client j s = s\<lparr>nsp_world := (nsp_world s)\<lparr>pw_clients := AList.delete j (pw_clients (nsp_world s))\<rparr>\<rparr>"

lemma forget_client_simps [simp]:
  "nsp_upstreams (forget_client j s) = nsp_upstreams s" "sclients (forget_client j s) = (sclients s)(j := None)"
  by (simp_all add: forget_client_def delete_conv')

lemma close_ok:
  assumes ok: "splitter_ok s" and j: "sclients s j = Some d"
  shows "\<exists>s'. ns_close j s = Some s' \<and> splitter_ok (forget_client j s') \<and> sclients s' = sclients s \<and>
    length (nsp_upstreams s') = length (nsp_upstreams s) \<and>
    (\<forall>i < length (nsp_upstreams s). bytes_of (nsp_upstreams s' ! i) =
       (if served_by i d then (bytes_of (nsp_upstreams s ! i))[unat (d_fixedByte d) := - j] else bytes_of (nsp_upstreams s ! i)))"
proof -
  have c: "client_of j (nsp_world s) = d" using j by (simp add: client_of_def)
  have mok: "mappers_ok (sclients s) 0 (nsp_upstreams s)" and known: "all_known (sclients s) (nsp_upstreams s)"
    and ne: "nsp_upstreams s \<noteq> []"
    using ok by (simp_all add: splitter_ok_iff)
  have known': "all_known ((sclients s)(j := None)) ms" if "length ms = length (nsp_upstreams s)" for ms
    using known that by (auto simp: all_known_def)
  show ?thesis
  proof (cases "d_mapperId d < 0 \<or> d_routeId d \<noteq> -1")
    case True
    then have ns: "\<not> served_by i d" for i by (auto simp: served_by_def)
    have "mappers_ok ((sclients s)(j := None)) 0 (nsp_upstreams s)"
      by (rule mappers_ok_other [OF mok, of j]) (use j ns in auto)
    then show ?thesis using True c ne known' ns by (simp add: ns_close_def splitter_ok_iff)
  next
    case False
    then obtain i where i: "i < length (nsp_upstreams s)" "served_by i d"
    proof -
      have "\<not> unserved d" using False by (auto simp: unserved_def)
      then show thesis using known j False that by (auto simp: all_known_def)
    qed
    have id: "d_mapperId d = int i" using i(2) by (simp add: served_by_def)
    define m' where "m' = nm_remove j (nsp_upstreams s ! i) (nsp_world s)"
    have m': "mp_id m' = mp_id (nsp_upstreams s ! i)" "mp_suspended m' = mp_suspended (nsp_upstreams s ! i)"
        "ns_index (mp_storage m') = ns_index (mp_storage (nsp_upstreams s ! i))"
        "bytes_of m' = (bytes_of (nsp_upstreams s ! i))[unat (d_fixedByte d) := - j]"
      by (simp_all add: m'_def nm_remove_def ns_remove_def bytes_of_def c)
    have cl: "ns_close j s = Some (s\<lparr>nsp_upstreams := (nsp_upstreams s)[i := m']\<rparr>)"
      using False i(1) id by (simp add: ns_close_def c m'_def)
    have "mappers_ok ((sclients s)(j := None)) 0 ((nsp_upstreams s)[i := m'])"
      unfolding mappers_ok_nth
    proof (intro allI impI)
      fix k assume k: "k < length ((nsp_upstreams s)[i := m'])"
      have mk: "mapper_ok (sclients s) k (nsp_upstreams s ! k)" using mok k by (simp add: mappers_ok_nth)
      show "mapper_ok ((sclients s)(j := None)) (0 + k) ((nsp_upstreams s)[i := m'] ! k)"
      proof (cases "k = i")
        case True
        then show ?thesis using remove_mapper [OF mk j _ refl refl, of m'] m' i k by simp
      next
        case False
        have "\<not> served_by k d" using i(2) False served_by_unique by blast
        then show ?thesis using mapper_ok_other [OF mk, of j "(sclients s)(j := None)"] j False by simp
      qed
    qed
    moreover have "served_by k d \<longleftrightarrow> k = i" for k using i(2) served_by_unique by blast
    ultimately show ?thesis using cl ne known' m'(4) by (simp add: splitter_ok_iff nth_list_update)
  qed
qed

section \<open>Runs\<close>

datatype mapper_notice =
    N_active nat int
  | N_pause
  | N_job int cstr int job
  | N_result int submit_result cstr

fun notice :: "mapper_config \<Rightarrow> mapper_notice \<Rightarrow> nonce_mapper \<Rightarrow> pool_world \<Rightarrow> nonce_mapper \<times> pool_world" where
  "notice cfg (N_active h c) m w = mapper_onActive h c m w"
| "notice cfg N_pause m w = (mapper_onPause m, w)"
| "notice cfg (N_job c host port j) m w = mapper_onJob cfg ns_setJob c host port j m w"
| "notice cfg (N_result c r err) m w = mapper_onResultAccepted c r err m w"

datatype splitter_op =
    Sp_login int downstream
  | Sp_close int
  | Sp_submit int int job_result
  | Sp_gc
  | Sp_tick u64
  | Sp_config bool
  | Sp_notice nat mapper_notice

text \<open>
  A step of the whole: a miner logs in with a new identifier (the donation splitter may have routed it
  elsewhere), leaves, submits; the timer ticks; a strategy gives a notice to its mapper. \<open>None\<close> is an
  access out of bounds or a call that does not return.
\<close>

definition enter_client :: "int \<Rightarrow> downstream \<Rightarrow> nonce_splitter \<Rightarrow> nonce_splitter" where
  "enter_client j d s = s\<lparr>nsp_world := (nsp_world s)\<lparr>pw_clients := AList.update j d (pw_clients (nsp_world s))\<rparr>\<rparr>"

definition may_enter :: "int \<Rightarrow> downstream \<Rightarrow> nonce_splitter \<Rightarrow> bool" where
  "may_enter j d s \<longleftrightarrow> 0 < j \<and> sclients s j = None \<and> (d_routeId d = -1 \<longrightarrow> unserved d)"

fun ns_step :: "mapper_config \<Rightarrow> (nat \<Rightarrow> nat) \<Rightarrow> splitter_op \<Rightarrow> nonce_splitter \<Rightarrow> nonce_splitter option" where
  "ns_step cfg rnd (Sp_login j d) s =
     (if may_enter j d s then ns_login cfg rnd j (enter_client j d s) else Some s)"
| "ns_step cfg rnd (Sp_close j) s =
     (if sclients s j = None then Some s else map_option (forget_client j) (ns_close j s))"
| "ns_step cfg rnd (Sp_submit seq j q) s =
     (if sclients s j = None then Some s else map_option snd (ns_submit seq j q s))"
| "ns_step cfg rnd Sp_gc s = Some (ns_gc s)"
| "ns_step cfg rnd (Sp_tick now) s = Some (ns_tick cfg now s)"
| "ns_step cfg rnd (Sp_config changed) s = Some (ns_onConfigChanged changed s)"
| "ns_step cfg rnd (Sp_notice i n) s =
     (if i < length (nsp_upstreams s)
      then (case notice cfg n (nsp_upstreams s ! i) (nsp_world s) of
              (m, w) \<Rightarrow> Some (s\<lparr>nsp_upstreams := (nsp_upstreams s)[i := m], nsp_world := w\<rparr>))
      else Some s)"

fun ns_run :: "mapper_config \<Rightarrow> (nat \<Rightarrow> nat) \<Rightarrow> splitter_op list \<Rightarrow> nonce_splitter \<Rightarrow> nonce_splitter option" where
  "ns_run cfg rnd [] s = Some s"
| "ns_run cfg rnd (op # ops) s =
     (case ns_step cfg rnd op s of None \<Rightarrow> None | Some s' \<Rightarrow> ns_run cfg rnd ops s')"

text \<open>The state after \<open>connect\<close>, which the proxy calls before it listens.\<close>

definition ns_start :: "mapper_config \<Rightarrow> (nat \<Rightarrow> nat) \<Rightarrow> nonce_splitter" where
  "ns_start cfg rnd = ns_connect cfg rnd
     \<lparr>nsp_upstreams = [],
      nsp_world = \<lparr>pw_clients = [], pw_counters = init_counters, pw_strategies = 0, pw_out = []\<rparr>\<rparr>"

lemma start_ok: "splitter_ok (ns_start cfg rnd)"
proof -
  define s0 where "s0 = \<lparr>nsp_upstreams = [],
      nsp_world = \<lparr>pw_clients = [], pw_counters = init_counters, pw_strategies = 0, pw_out = []\<rparr>\<rparr>"
  have "\<exists>m. nsp_upstreams (ns_connect cfg rnd s0) = [m] \<and> mappers_ok (sclients s0) 0 [m] \<and>
      pw_clients (nsp_world (ns_connect cfg rnd s0)) = pw_clients (nsp_world s0)"
    using connect_result [of s0 cfg rnd] by (auto simp: s0_def)
  then obtain m where m: "nsp_upstreams (ns_connect cfg rnd s0) = [m]" "mappers_ok (sclients s0) 0 [m]"
      "pw_clients (nsp_world (ns_connect cfg rnd s0)) = []"
    by (auto simp: s0_def)
  then show ?thesis by (simp add: splitter_ok_def ns_start_def s0_def)
qed

lemma enter_client_ok:
  assumes "splitter_ok s" and "may_enter j d s"
  shows "splitter_ok (enter_client j d s) \<and> sclients (enter_client j d s) = (sclients s)(j \<mapsto> d) \<and>
    nsp_upstreams (enter_client j d s) = nsp_upstreams s"
proof -
  have c: "sclients (enter_client j d s) = (sclients s)(j \<mapsto> d)" by (simp add: enter_client_def update_conv')
  have u: "nsp_upstreams (enter_client j d s) = nsp_upstreams s" by (simp add: enter_client_def)
  have "mappers_ok ((sclients s)(j \<mapsto> d)) 0 (nsp_upstreams s)"
    by (rule mappers_ok_other [of "sclients s" 0 "nsp_upstreams s" j])
      (use assms in \<open>auto simp: splitter_ok_def may_enter_def served_by_def unserved_def\<close>)
  moreover have "all_known ((sclients s)(j \<mapsto> d)) (nsp_upstreams s)"
    using assms by (auto simp: splitter_ok_iff all_known_def may_enter_def)
  ultimately show ?thesis using assms c u by (simp add: splitter_ok_iff)
qed

lemma splitter_ok_update:
  assumes ok: "splitter_ok s" and h: "harmless (nsp_upstreams s ! i) (nsp_world s) (m, w)" and i: "i < length (nsp_upstreams s)"
  shows "splitter_ok (s\<lparr>nsp_upstreams := (nsp_upstreams s)[i := m], nsp_world := w\<rparr>)"
proof -
  have "mapper_ok (sclients s) i (nsp_upstreams s ! i)" using ok i by (simp add: splitter_ok_def mappers_ok_nth)
  then have "mapper_ok (sclients s) i m" using h mapper_ok_alike by (simp add: harmless_def)
  then show ?thesis using ok h mappers_ok_update [of "sclients s"] by (simp add: splitter_ok_def harmless_def)
qed

lemma notice_harmless: "harmless m w (notice cfg n m w)"
  by (cases n) (simp_all add: onActive_harmless onPause_harmless onJob_harmless onResult_harmless)

lemma each_ok:
  assumes "splitter_ok s" and "\<And>m w. harmless m w (f m w)" and "each_mapper f (nsp_upstreams s) (nsp_world s) = (ms, w)"
  shows "splitter_ok (s\<lparr>nsp_upstreams := ms, nsp_world := w\<rparr>)"
  using each_harmless [OF assms(2,3), of "sclients s" 0] assms(1) by (auto simp: splitter_ok_def)

lemma step_ok:
  assumes ok: "splitter_ok s"
  shows "\<exists>s'. ns_step cfg rnd op s = Some s' \<and> splitter_ok s'"
proof (cases op)
  case (Sp_login j d)
  show ?thesis
  proof (cases "may_enter j d s")
    case True
    note e = enter_client_ok [OF ok True]
    have "0 < j" "d_routeId d = -1 \<longrightarrow> unserved d" using True by (simp_all add: may_enter_def)
    then show ?thesis using login_result [of "enter_client j d s" j d cfg rnd] e Sp_login True by auto
  qed (simp add: Sp_login ok)
next
  case (Sp_close j)
  then show ?thesis using close_ok [OF ok, of j] ok by (cases "sclients s j") auto
next
  case (Sp_submit seq j q)
  show ?thesis
  proof (cases "sclients s j")
    case None
    then show ?thesis using ok by (simp add: Sp_submit)
  next
    case (Some d)
    have c: "client_of j (nsp_world s) = d" using Some by (simp add: client_of_def)
    show ?thesis
    proof (cases "d_mapperId d < 0 \<or> d_routeId d \<noteq> -1")
      case True
      then show ?thesis using ok by (simp add: Sp_submit Some ns_submit_def c)
    next
      case False
      then have "nat (d_mapperId d) < length (nsp_upstreams s)"
      proof -
        have "\<not> unserved d" using False by (auto simp: unserved_def)
        then obtain i where "i < length (nsp_upstreams s)" "served_by i d"
          using ok Some False unfolding splitter_ok_def by blast
        then show ?thesis by (simp add: served_by_def)
      qed
      moreover obtain err m w where m: "mapper_submit seq j q (nsp_upstreams s ! nat (d_mapperId d)) (nsp_world s) = (err, m, w)"
        by (metis prod_cases3)
      moreover have "harmless (nsp_upstreams s ! nat (d_mapperId d)) (nsp_world s) (m, w)"
        using submit_harmless [of "nsp_upstreams s ! nat (d_mapperId d)" "nsp_world s" seq j q] m by simp
      ultimately show ?thesis using False splitter_ok_update [OF ok] by (simp add: Sp_submit Some ns_submit_def c)
    qed
  qed
next
  case (Sp_notice i n)
  obtain m w where m: "notice cfg n (nsp_upstreams s ! i) (nsp_world s) = (m, w)" by (metis surj_pair)
  have "harmless (nsp_upstreams s ! i) (nsp_world s) (m, w)"
    using notice_harmless [of "nsp_upstreams s ! i" "nsp_world s" cfg n] m by simp
  then show ?thesis using splitter_ok_update [OF ok, of i m w] ok m by (simp add: Sp_notice)
next
  case Sp_gc
  then show ?thesis using gc_ok [OF ok] by simp
next
  case (Sp_tick now)
  then show ?thesis using each_ok [OF ok tick_harmless] by (auto simp: ns_tick_def split: prod.split)
next
  case (Sp_config changed)
  then show ?thesis using each_ok [OF ok reload_harmless] ok by (auto simp: ns_onConfigChanged_def split: prod.split)
qed

lemma run_ok: "splitter_ok s \<Longrightarrow> \<exists>s'. ns_run cfg rnd ops s = Some s' \<and> splitter_ok s'"
proof (induction ops arbitrary: s)
  case (Cons op ops)
  obtain s1 where "ns_step cfg rnd op s = Some s1" "splitter_ok s1" using step_ok [OF Cons.prems, of cfg rnd op] by blast
  then show ?case using Cons.IH [of s1] by simp
qed simp

section \<open>Bytes between two jobs\<close>









section \<open>An example\<close>

definition sample_cfg :: mapper_config where
  "sample_cfg = \<lparr>mc_algoExt = True, mc_donateLevel = 0, mc_firstDonation = 0, mc_retarget = (\<lambda>_ _ _. 0)\<rparr>"

definition sample_run :: "splitter_op list \<Rightarrow> nonce_splitter option" where
  "sample_run ops = ns_run sample_cfg (\<lambda>_. 255) ops (ns_start sample_cfg (\<lambda>_. 255))"

definition view :: "nonce_splitter option \<Rightarrow> (int \<times> int \<times> int \<times> u8) list option" where
  "view s = map_option (\<lambda>s. map (\<lambda>(j, d). (j, d_routeId d, d_mapperId d, d_fixedByte d)) (pw_clients (nsp_world s))) s"

lemma view_two:
  "view (Some s) = Some [(1, -1, 0, a), (2, -1, 0, b)] \<Longrightarrow>
   \<exists>d e. sclients s 1 = Some d \<and> sclients s 2 = Some e \<and> d_routeId d = -1 \<and> d_routeId e = -1 \<and>
     d_mapperId d = 0 \<and> d_mapperId e = 0 \<and> d_fixedByte d = a \<and> d_fixedByte e = b"
  by (auto simp: view_def)


lemma sample_two: "view (sample_run [Sp_login 1 new_downstream, Sp_login 2 new_downstream]) = Some [(1, -1, 0, 255), (2, -1, 0, 0)]"
  by code_simp




section \<open>Properties\<close>

text \<open>C6: whatever happens after the splitter has started, it does not access a mapper that is gone and every
  call returns, and two miners of the same mapper never have the same fixed byte.\<close>

theorem nonce_spaces_disjoint:
  "\<exists>s. ns_run cfg rnd ops (ns_start cfg rnd) = Some s \<and>
    (\<forall>j k dj dk. sclients s j = Some dj \<and> sclients s k = Some dk \<and> d_routeId dj = -1 \<and> d_routeId dk = -1 \<and>
       0 \<le> d_mapperId dj \<and> d_mapperId dk = d_mapperId dj \<and> d_fixedByte dk = d_fixedByte dj \<longrightarrow> j = k)"
proof -
  obtain s where s: "ns_run cfg rnd ops (ns_start cfg rnd) = Some s" "splitter_ok s" using run_ok [OF start_ok] by blast
  have "j = k" if jk: "sclients s j = Some dj" "sclients s k = Some dk" "d_routeId dj = -1" "d_routeId dk = -1"
      "0 \<le> d_mapperId dj" "d_mapperId dk = d_mapperId dj" "d_fixedByte dk = d_fixedByte dj" for j k dj dk
  proof -
    have "\<not> unserved dj" using jk(5) by (simp add: unserved_def)
    then obtain i where i: "i < length (nsp_upstreams s)" "served_by i dj" using s(2) jk(1,3) unfolding splitter_ok_def by blast
    have m: "mapper_ok (sclients s) i (nsp_upstreams s ! i)" using s(2) i(1) by (simp add: splitter_ok_def mappers_ok_nth)
    have k: "served_by i dk" using i(2) jk by (simp add: served_by_def)
    show ?thesis using mapper_ok_client [OF m jk(1) i(2)] mapper_ok_client [OF m jk(2) k] jk(7) by simp
  qed
  with s(1) show ?thesis by blast
qed

theorem nonce_spaces_disjoint_witness:
  "\<exists>s d e. sample_run [Sp_login 1 new_downstream, Sp_login 2 new_downstream] = Some s \<and>
     sclients s 1 = Some d \<and> sclients s 2 = Some e \<and> d_mapperId d = d_mapperId e \<and> d_fixedByte d \<noteq> d_fixedByte e"
proof -
  obtain s where s: "sample_run [Sp_login 1 new_downstream, Sp_login 2 new_downstream] = Some s"
      and dj: "\<forall>j k dj dk. sclients s j = Some dj \<and> sclients s k = Some dk \<and> d_routeId dj = -1 \<and> d_routeId dk = -1 \<and>
       0 \<le> d_mapperId dj \<and> d_mapperId dk = d_mapperId dj \<and> d_fixedByte dk = d_fixedByte dj \<longrightarrow> j = k"
    using nonce_spaces_disjoint [of sample_cfg "\<lambda>_. 255" "[Sp_login 1 new_downstream, Sp_login 2 new_downstream]"]
    unfolding sample_run_def by blast
  obtain d e where de: "sclients s 1 = Some d" "sclients s 2 = Some e" "d_routeId d = -1" "d_routeId e = -1"
      "d_mapperId d = 0" "d_mapperId e = 0"
    using view_two [of s] sample_two s by auto
  then have "d_fixedByte e \<noteq> d_fixedByte d" using dj [rule_format, of 1 d 2 e] by auto
  with s de show ?thesis by auto
qed

text \<open>The login of a miner always returns, although the code calls itself until a mapper has a byte
  left: the miner ends up with a mapper, and at most one upstream is opened for it.\<close>

theorem login_returns:
  assumes "ns_run cfg rnd ops (ns_start cfg rnd) = Some s" and "0 < j" and "sclients s j = None"
  shows "\<exists>s'. ns_login cfg rnd j (enter_client j new_downstream s) = Some s' \<and>
    length (nsp_upstreams s') \<le> Suc (length (nsp_upstreams s)) \<and>
    (\<exists>d. sclients s' j = Some d \<and> d_routeId d = -1 \<and> 0 \<le> d_mapperId d \<and> d_mapperId d < int (length (nsp_upstreams s')))"
proof -
  have ok: "splitter_ok s" using run_ok [OF start_ok, of cfg rnd ops cfg rnd] assms(1) by auto
  have e: "may_enter j new_downstream s" using assms(2,3) by (simp add: may_enter_def unserved_def new_downstream_def)
  note c = enter_client_ok [OF ok e]
  show ?thesis
    using login_result [of "enter_client j new_downstream s" j new_downstream cfg rnd] c assms(2)
    by (auto simp: unserved_def new_downstream_def served_by_def)
qed

theorem login_returns_witness:
  "\<exists>s' d. ns_login sample_cfg (\<lambda>_. 255) 1 (enter_client 1 new_downstream (ns_start sample_cfg (\<lambda>_. 255))) = Some s' \<and>
    sclients s' 1 = Some d \<and> 0 \<le> d_mapperId d"
proof -
  have "sclients (ns_start sample_cfg (\<lambda>_. 255)) 1 = None"
    by (simp add: ns_start_def ns_connect_def new_mapper_def mapper_start_def mapper_connect_def new_strategy_def Let_def)
  then show ?thesis
    using login_returns [of sample_cfg "\<lambda>_. 255" "[]" "ns_start sample_cfg (\<lambda>_. 255)" 1] by auto
qed



end
