(* ===== verification/Extra_Nonce.thy ===== *)
theory Extra_Nonce
  imports Mapper
begin

text \<open>
  The extra-nonce splitter (\<open>proxy/splitters/extra_nonce\<close>), used with daemons: all miners share one
  upstream and each gets its own extra nonce in the miner transaction. The mapper is the one of theory
  \<open>Mapper\<close>, whose number is 0, over the storage of this theory; the functions in which
  \<open>ExtraNonceMapper.cpp\<close> differs are here.
\<close>

section \<open>The storage\<close>

record extra_storage = storage +
  es_extraNonce :: int

definition new_extra_storage :: extra_storage where
  "new_extra_storage =
     \<lparr>st_active = False, st_job = empty_job, st_prevJob = empty_job, st_miners = [], es_extraNonce = 0\<rparr>"

definition es_add :: "int \<Rightarrow> extra_storage \<Rightarrow> pool_world \<Rightarrow> bool \<times> extra_storage \<times> pool_world" where
  "es_add miner s w =
     (let s1 = s\<lparr>st_miners := om_put miner miner (st_miners s)\<rparr> in
      if st_active s1
      then (True, s1\<lparr>es_extraNonce := es_extraNonce s1 + 1\<rparr>, pw_do (P_job miner (st_job s1) (es_extraNonce s1)) w)
      else (True, s1, w))"

definition es_remove :: "int \<Rightarrow> extra_storage \<Rightarrow> extra_storage" where
  "es_remove miner s = s\<lparr>st_miners := AList.delete miner (st_miners s)\<rparr>"

definition es_reset :: "extra_storage \<Rightarrow> extra_storage" where
  "es_reset s = s"

text \<open>The loop of \<open>setJob\<close> over the miners.\<close>

fun es_send :: "job \<Rightarrow> (int \<times> int) list \<Rightarrow> int \<Rightarrow> pool_world \<Rightarrow> int \<times> pool_world" where
  "es_send j [] n w = (n, w)"
| "es_send j ((k, miner) # ms) n w = es_send j ms (n + 1) (pw_do (P_job miner j n) w)"

definition es_setJob :: "job \<Rightarrow> extra_storage \<Rightarrow> pool_world \<Rightarrow> extra_storage \<times> pool_world" where
  "es_setJob j s w =
     (let s1 = (if j_clientId (st_job s) = j_clientId j then s\<lparr>st_prevJob := st_job s\<rparr>
                else s\<lparr>st_prevJob := job_reset (st_prevJob s)\<rparr>);
          s2 = s1\<lparr>st_job := j, es_extraNonce := 0\<rparr>
      in case es_send (st_job s2) (st_miners s2) (es_extraNonce s2) w of
           (n, w1) \<Rightarrow> (s2\<lparr>es_extraNonce := n\<rparr>, w1))"

section \<open>The mapper and the splitter\<close>

type_synonym extra_mapper = "extra_storage mapper"

definition em_add :: "mapper_config \<Rightarrow> int \<Rightarrow> extra_mapper \<Rightarrow> pool_world \<Rightarrow> bool \<times> extra_mapper \<times> pool_world" where
  "em_add cfg miner m w =
     (let w1 = on_client miner (\<lambda>d. d\<lparr>d_extAlgo := mc_algoExt cfg\<rparr>) w in
      case es_add miner (mp_storage m) w1 of
        (False, s, w2) \<Rightarrow> (False, m\<lparr>mp_storage := s\<rparr>, w2)
      | (True, s, w2) \<Rightarrow>
          let m1 = m\<lparr>mp_storage := s\<rparr>;
              (m2, w3) = (if isSuspended m1 then mapper_connect m1 w2 else (m1, w2))
          in (True, m2, on_client miner (\<lambda>d. d\<lparr>d_mapperId := 0\<rparr>) w3))"

definition em_gc :: "extra_mapper \<Rightarrow> extra_mapper" where
  "em_gc m = (if isSuspended m then m\<lparr>mp_suspended := mp_suspended m + 1\<rparr> else m)"

definition em_remove :: "int \<Rightarrow> extra_mapper \<Rightarrow> extra_mapper" where
  "em_remove miner m = m\<lparr>mp_storage := es_remove miner (mp_storage m)\<rparr>"

record extra_splitter =
  esp_upstream :: extra_mapper
  esp_world :: pool_world

definition es_upstreams :: "extra_splitter \<Rightarrow> upstreams" where
  "es_upstreams s =
     new_upstreams (if mapper_isActive (esp_upstream s) then 1 else 0)
       (if isSuspended (esp_upstream s) then 1 else 0) 1"

definition es_connect :: "mapper_config \<Rightarrow> pool_world \<Rightarrow> extra_splitter" where
  "es_connect cfg w =
     (case new_mapper cfg 0 new_extra_storage w of
        (m, w1) \<Rightarrow> (case mapper_start m w1 of (m1, w2) \<Rightarrow> \<lparr>esp_upstream = m1, esp_world = w2\<rparr>))"

definition es_gc :: "extra_splitter \<Rightarrow> extra_splitter" where
  "es_gc s = s\<lparr>esp_upstream := em_gc (esp_upstream s)\<rparr>"

definition es_tick :: "mapper_config \<Rightarrow> u64 \<Rightarrow> extra_splitter \<Rightarrow> extra_splitter" where
  "es_tick cfg now s =
     (case mapper_tick cfg es_setJob now (esp_upstream s) (esp_world s) of
        (m, w) \<Rightarrow> s\<lparr>esp_upstream := m, esp_world := w\<rparr>)"

definition es_onConfigChanged :: "bool \<Rightarrow> extra_splitter \<Rightarrow> extra_splitter" where
  "es_onConfigChanged changed s =
     (if \<not> changed then s
      else (case mapper_reload (esp_upstream s) (esp_world s) of
              (m, w) \<Rightarrow> s\<lparr>esp_upstream := m, esp_world := w\<rparr>))"

text \<open>\<open>login\<close> would open a mapper and call itself again if the storage refused the miner.\<close>

partial_function (option) es_login :: "mapper_config \<Rightarrow> int \<Rightarrow> extra_splitter \<Rightarrow> extra_splitter option" where
  "es_login cfg miner s =
     (if d_routeId (client_of miner (esp_world s)) \<noteq> -1 then Some s
      else
        (case em_add cfg miner (esp_upstream s) (esp_world s) of
           (ok, m, w) \<Rightarrow>
             if ok then Some (s\<lparr>esp_upstream := m, esp_world := w\<rparr>) else es_login cfg miner (es_connect cfg w)))"

declare es_login.simps [code]

definition es_close :: "int \<Rightarrow> extra_splitter \<Rightarrow> extra_splitter" where
  "es_close miner s =
     (let d = client_of miner (esp_world s) in
      if d_mapperId d < 0 \<or> d_routeId d \<noteq> -1 then s
      else s\<lparr>esp_upstream := em_remove miner (esp_upstream s)\<rparr>)"

definition es_submit :: "int \<Rightarrow> int \<Rightarrow> job_result \<Rightarrow> extra_splitter \<Rightarrow> error_code \<times> extra_splitter" where
  "es_submit seq miner q s =
     (let d = client_of miner (esp_world s) in
      if d_mapperId d < 0 \<or> d_routeId d \<noteq> -1 then (NoError, s)
      else (case mapper_submit seq miner q (esp_upstream s) (esp_world s) of
              (err, m, w) \<Rightarrow> (err, s\<lparr>esp_upstream := m, esp_world := w\<rparr>)))"

section \<open>Extra nonces\<close>

text \<open>The extra nonces in a list of calls.\<close>

fun nonces_of :: "pool_action list \<Rightarrow> int list" where
  "nonces_of [] = []"
| "nonces_of (P_job i j n # as) = n # nonces_of as"
| "nonces_of (_ # as) = nonces_of as"

lemma nonces_of_append [simp]: "nonces_of (as @ bs) = nonces_of as @ nonces_of bs"
  by (induction as rule: nonces_of.induct) auto

lemma es_send_out:
  "es_send j ms n w = (n', w') \<Longrightarrow>
   n' = n + int (length ms) \<and> (\<exists>as. pw_out w' = pw_out w @ as \<and> nonces_of as = map (\<lambda>i. n + int i) [0..<length ms])"
proof (induction ms arbitrary: n w)
  case (Cons m ms)
  obtain k i where m: "m = (k, i)" by (cases m)
  have "es_send j ms (n + 1) (pw_do (P_job i j n) w) = (n', w')" using Cons.prems by (simp add: m)
  from Cons.IH [OF this] obtain as where as: "n' = n + 1 + int (length ms)" "pw_out w' = (pw_out w @ [P_job i j n]) @ as"
      "nonces_of as = map (\<lambda>i. n + 1 + int i) [0..<length ms]"
    by auto
  have "map (\<lambda>i. n + int i) [0..<length (m # ms)] = n # map (\<lambda>i. n + 1 + int i) [0..<length ms]"
    by (simp add: upt_conv_Cons map_Suc_upt [symmetric] algebra_simps del: upt_Suc)
  then show ?case using as by (auto intro!: exI [of _ "P_job i j n # as"])
qed simp

text \<open>\<open>w\<close> is the state before \<open>setJob\<close>: the extra nonces sent since then are the numbers below the counter.\<close>

definition numbered :: "pool_world \<Rightarrow> extra_storage \<Rightarrow> pool_world \<Rightarrow> bool" where
  "numbered w s w' \<longleftrightarrow> (\<exists>as. pw_out w' = pw_out w @ as \<and> 0 \<le> es_extraNonce s \<and>
     nonces_of as = map int [0..<nat (es_extraNonce s)])"

lemma numbered_setJob: "es_setJob j s w = (s', w') \<Longrightarrow> numbered w s' w'"
proof -
  assume a: "es_setJob j s w = (s', w')"
  obtain n w1 where e: "es_send j (st_miners s) 0 w = (n, w1)" by (metis surj_pair)
  have "es_extraNonce s' = n \<and> w' = w1" using a e by (auto simp: es_setJob_def Let_def split: if_splits)
  then show ?thesis using es_send_out [OF e] by (auto simp: numbered_def)
qed

lemma numbered_add:
  assumes "numbered w s w1" and "es_add i s w1 = (ok, s', w2)"
  shows "numbered w s' w2"
proof (cases "st_active s")
  case True
  obtain as where as: "pw_out w1 = pw_out w @ as" "0 \<le> es_extraNonce s" "nonces_of as = map int [0..<nat (es_extraNonce s)]"
    using assms(1) by (auto simp: numbered_def)
  have r: "es_extraNonce s' = es_extraNonce s + 1" "pw_out w2 = pw_out w1 @ [P_job i (st_job s) (es_extraNonce s)]"
    using assms(2) True by (auto simp: es_add_def)
  have "map int [0..<nat (es_extraNonce s + 1)] = map int [0..<nat (es_extraNonce s)] @ [es_extraNonce s]"
    using as(2) by (simp add: nat_add_distrib)
  then show ?thesis using as r unfolding numbered_def by (intro exI [of _ "as @ [P_job i (st_job s) (es_extraNonce s)]"]) simp
next
  case False
  then show ?thesis using assms by (auto simp: es_add_def numbered_def)
qed

datatype storage_op = St_add int | St_remove int | St_active bool | St_pool pool_action

text \<open>\<open>St_pool\<close> is any other call in between, such as a reply.\<close>

fun es_step :: "storage_op \<Rightarrow> extra_storage \<times> pool_world \<Rightarrow> extra_storage \<times> pool_world" where
  "es_step (St_add i) (s, w) = snd (es_add i s w)"
| "es_step (St_remove i) (s, w) = (es_remove i s, w)"
| "es_step (St_active b) (s, w) = (setActive b s, w)"
| "es_step (St_pool a) (s, w) = (s, if nonces_of [a] = [] then pw_do a w else w)"

lemma numbered_step: "numbered w s w1 \<Longrightarrow> es_step op (s, w1) = (s', w2) \<Longrightarrow> numbered w s' w2"
proof (cases op)
  case (St_add i)
  assume "numbered w s w1" "es_step op (s, w1) = (s', w2)"
  then show ?thesis using numbered_add [of w s w1 i "fst (es_add i s w1)" s' w2] St_add by (simp add: prod_eq_iff)
next
  case (St_pool a)
  assume n: "numbered w s w1" and e: "es_step op (s, w1) = (s', w2)"
  show ?thesis
  proof (cases "nonces_of [a] = []")
    case True
    obtain as where as: "pw_out w1 = pw_out w @ as" "0 \<le> es_extraNonce s" "nonces_of as = map int [0..<nat (es_extraNonce s)]"
      using n by (auto simp: numbered_def)
    have "nonces_of (as @ [a]) = map int [0..<nat (es_extraNonce s)]" using as(3) True by simp
    moreover have "pw_out w2 = pw_out w @ (as @ [a])" "s' = s" using e as(1) True by (auto simp: St_pool)
    ultimately show ?thesis using as(2) unfolding numbered_def by metis
  qed (use n e in \<open>simp add: St_pool\<close>)
qed (auto simp: numbered_def es_remove_def setActive_def)

lemma numbered_run: "numbered w (fst p) (snd p) \<Longrightarrow> numbered w (fst (fold es_step ops p)) (snd (fold es_step ops p))"
proof (induction ops arbitrary: p)
  case (Cons op ops)
  then show ?case using numbered_step [of w "fst p" "snd p" op "fst (es_step op p)" "snd (es_step op p)"] by simp
qed simp

text \<open>C14: from one job of the pool to the next, no extra nonce is sent twice, whichever miners come and go.\<close>

theorem extra_nonces_distinct:
  assumes "es_setJob j s w = (s1, w1)" and "fold es_step ops (s1, w1) = (s2, w2)"
  shows "distinct (nonces_of (drop (length (pw_out w)) (pw_out w2)))"
proof -
  have "numbered w s2 w2" using numbered_run [of w "(s1, w1)" ops] numbered_setJob [OF assms(1)] assms(2) by simp
  then show ?thesis by (auto simp: numbered_def distinct_map)
qed

definition quiet_world :: pool_world where
  "quiet_world = \<lparr>pw_clients = [], pw_counters = init_counters, pw_strategies = 0, pw_out = []\<rparr>"

theorem extra_nonces_distinct_witness:
  "\<exists>s2 w2. fold es_step [St_active True, St_add 1, St_remove 1, St_add 2] (es_setJob empty_job new_extra_storage quiet_world) = (s2, w2) \<and>
     distinct (nonces_of (pw_out w2)) \<and> nonces_of (pw_out w2) = [0, 1]"
proof -
  obtain s1 w1 where a: "es_setJob empty_job new_extra_storage quiet_world = (s1, w1)" by (metis surj_pair)
  obtain s2 w2 where b: "fold es_step [St_active True, St_add 1, St_remove 1, St_add 2] (s1, w1) = (s2, w2)" by (metis surj_pair)
  have "distinct (nonces_of (pw_out w2))" using extra_nonces_distinct [OF a b] by (simp add: quiet_world_def)
  moreover have "nonces_of (pw_out w2) = [0, 1]"
    using a b by (auto simp: es_setJob_def es_add_def es_remove_def setActive_def new_extra_storage_def quiet_world_def Let_def
        split: if_splits)
  ultimately show ?thesis using a b by simp
qed

end
