(* ===== verification/Simple_Splitter.thy ===== *)
theory Simple_Splitter
  imports Mapper
begin

text \<open>
  The simple splitter (\<open>proxy/splitters/simple\<close>): every miner has an upstream of its own, and an upstream
  whose miner left may be kept for the next one. \<open>SimpleMapper.cpp\<close> keeps the current job and the ones
  before it, \<open>SimpleSplitter.cpp\<close> the maps of upstreams.

  A mapper is an object that three containers point to (\<open>m_upstreams\<close>, \<open>m_idles\<close> and \<open>m_released\<close>), so
  the splitter has a heap of mappers, and a pointer is a handle, which is the mapper's number. An access to
  an object that was deleted, or to an element that was erased from a map, is the result \<open>None\<close>. The field
  \<open>SimpleMapper::m_donate\<close> is never set, and left out.
\<close>

section \<open>The mapper\<close>

record job_entry =
  je_job :: job
  je_strategy :: "nat option"
  je_issuedAt :: u64

definition no_entry :: job_entry where
  "no_entry = \<lparr>je_job = empty_job, je_strategy = None, je_issuedAt = 0\<rparr>"

record simple_mapper =
  sm_active :: bool
  sm_dirty :: bool
  sm_pending :: "nat option"
  sm_strategy :: nat
  sm_currentJob :: job_entry
  sm_jobHistory :: "job_entry list"
  sm_miner :: "int option"
  sm_id :: nat
  sm_idleTime :: u64

definition new_simple :: "nat \<Rightarrow> pool_world \<Rightarrow> simple_mapper \<times> pool_world" where
  "new_simple i w =
     (case new_strategy w of
        (h, w1) \<Rightarrow>
          (\<lparr>sm_active = False, sm_dirty = False, sm_pending = None, sm_strategy = h, sm_currentJob = no_entry,
            sm_jobHistory = [], sm_miner = None, sm_id = i, sm_idleTime = 0\<rparr>, w1))"

definition delete_simple :: "simple_mapper \<Rightarrow> pool_world \<Rightarrow> pool_world" where
  "delete_simple m w =
     pw_do (P_deleteStrategy (sm_strategy m))
       (case sm_pending m of None \<Rightarrow> w | Some p \<Rightarrow> pw_do (P_deleteStrategy p) w)"

definition sm_isActive :: "simple_mapper \<Rightarrow> bool" where
  "sm_isActive m \<longleftrightarrow> sm_active m \<and> sm_miner m \<noteq> None"

definition sm_isReusable :: "simple_mapper \<Rightarrow> bool" where
  "sm_isReusable m \<longleftrightarrow> sm_active m \<and> sm_miner m = None \<and> \<not> sm_dirty m \<and>
     str_is_empty (j_templateEntropy (je_job (sm_currentJob m)))"

definition sm_connect :: "simple_mapper \<Rightarrow> pool_world \<Rightarrow> pool_world" where
  "sm_connect m w = pw_do (P_connect (sm_strategy m)) w"

definition sm_add :: "mapper_config \<Rightarrow> int \<Rightarrow> simple_mapper \<Rightarrow> pool_world \<Rightarrow> simple_mapper \<times> pool_world" where
  "sm_add cfg miner m w =
     (let w1 = on_client miner (\<lambda>d. d\<lparr>d_extAlgo := mc_algoExt cfg, d_extNicehash := False,
                 d_mapperId := int (sm_id m)\<rparr>) w
      in (m\<lparr>sm_miner := Some miner\<rparr>, sm_connect m w1))"

definition sm_reload :: "simple_mapper \<Rightarrow> pool_world \<Rightarrow> simple_mapper \<times> pool_world" where
  "sm_reload m w =
     (let w1 = (case sm_pending m of None \<Rightarrow> w | Some p \<Rightarrow> pw_do (P_deleteStrategy p) w)
      in case new_strategy w1 of (h, w2) \<Rightarrow> (m\<lparr>sm_pending := Some h\<rparr>, pw_do (P_connect h) w2))"

definition sm_remove :: "simple_mapper \<Rightarrow> simple_mapper" where
  "sm_remove m = m\<lparr>sm_miner := None, sm_dirty := True\<rparr>"

definition sm_reuse :: "int \<Rightarrow> simple_mapper \<Rightarrow> pool_world \<Rightarrow> simple_mapper \<times> pool_world" where
  "sm_reuse miner m w =
     (let w1 = on_client miner (\<lambda>d. d\<lparr>d_mapperId := int (sm_id m)\<rparr>) w
      in (m\<lparr>sm_idleTime := 0, sm_miner := Some miner\<rparr>,
          if job_isValid (je_job (sm_currentJob m)) then pw_do (P_job miner (je_job (sm_currentJob m)) (-1)) w1 else w1))"

definition sm_stop :: "simple_mapper \<Rightarrow> pool_world \<Rightarrow> pool_world" where
  "sm_stop m w =
     (let w1 = pw_do (P_stop (sm_strategy m)) w
      in case sm_pending m of None \<Rightarrow> w1 | Some p \<Rightarrow> pw_do (P_stop p) w1)"

definition kJobHistoryMs :: u64 where "kJobHistoryMs = 120000"
definition kJobHistorySize :: nat where "kJobHistorySize = 5"

definition sm_findJob :: "u64 \<Rightarrow> cstr \<Rightarrow> simple_mapper \<Rightarrow> pool_world \<Rightarrow> job_entry option \<times> pool_world" where
  "sm_findJob now i m w =
     (if j_id (je_job (sm_currentJob m)) = i \<and> je_strategy (sm_currentJob m) \<noteq> None
      then (Some (sm_currentJob m), w)
      else
        (case find (\<lambda>e. job_isValid (je_job e) \<and> j_id (je_job e) = i \<and> je_strategy e \<noteq> None \<and>
                        now < je_issuedAt e + kJobHistoryMs) (sm_jobHistory m) of
           Some e \<Rightarrow> (Some e, w\<lparr>pw_counters := (pw_counters w)\<lparr>ct_expired := ct_expired (pw_counters w) + 1\<rparr>\<rparr>)
         | None \<Rightarrow> (None, w)))"

definition sm_submit :: "u64 \<Rightarrow> int \<Rightarrow> job_result \<Rightarrow> simple_mapper \<Rightarrow> pool_world \<Rightarrow> error_code \<times> pool_world" where
  "sm_submit now seq q m w =
     (if \<not> sm_isActive m then (BadGateway, w)
      else
        (case sm_findJob now (q_jobId q) m w of
           (None, w1) \<Rightarrow> (InvalidJobId, w1)
         | (Some entry, w1) \<Rightarrow>
             (case je_strategy entry of
                None \<Rightarrow> (InvalidJobId, w1)
              | Some strategy \<Rightarrow>
                  if algo_isValid (q_algorithm q) \<and> q_algorithm q \<noteq> j_algorithm (je_job entry)
                  then (IncorrectAlgorithm, w1)
                  else
                    let w2 = pw_do (P_submit strategy (q\<lparr>q_diff := j_diff (je_job entry)\<rparr>)) w1
                    in (if seq < 0 then BadGateway else NoError, w2))))"

definition sm_tick :: "u64 \<Rightarrow> simple_mapper \<Rightarrow> pool_world \<Rightarrow> simple_mapper \<times> pool_world" where
  "sm_tick now m w =
     (m\<lparr>sm_idleTime := (if sm_miner m = None then sm_idleTime m + 1 else sm_idleTime m)\<rparr>,
      pw_do (P_tick (sm_strategy m) now) w)"

definition clear_jobs :: "int option \<Rightarrow> pool_world \<Rightarrow> pool_world" where
  "clear_jobs miner w = (case miner of None \<Rightarrow> w | Some i \<Rightarrow> pw_do (P_clearJobs i) w)"

definition sm_onActive :: "nat \<Rightarrow> int \<Rightarrow> simple_mapper \<Rightarrow> pool_world \<Rightarrow> simple_mapper \<times> pool_world" where
  "sm_onActive strategy client m w =
     (let m1 = m\<lparr>sm_active := True\<rparr> in
      if client = -1 then (m1, w)
      else if sm_pending m1 = Some strategy
      then (m1\<lparr>sm_currentJob := no_entry, sm_jobHistory := [], sm_strategy := strategy, sm_pending := None\<rparr>,
            pw_do (P_deleteStrategy (sm_strategy m1)) (clear_jobs (sm_miner m1) w))
      else (m1, w))"

definition sm_setJob :: "u64 \<Rightarrow> job \<Rightarrow> nat \<Rightarrow> simple_mapper \<Rightarrow> pool_world \<Rightarrow> simple_mapper \<times> pool_world" where
  "sm_setJob now j strategy m w =
     (let cur = sm_currentJob m;
          (m1, w1) = (if job_isValid (je_job cur) \<and> je_strategy cur = Some strategy \<and>
                         j_clientId (je_job cur) = j_clientId j
             then (m\<lparr>sm_jobHistory := take kJobHistorySize (cur # sm_jobHistory m)\<rparr>, w)
             else (m\<lparr>sm_jobHistory := []\<rparr>, clear_jobs (sm_miner m) w));
          m2 = m1\<lparr>sm_currentJob := \<lparr>je_job = j, je_strategy = Some strategy, je_issuedAt = now\<rparr>, sm_dirty := False\<rparr>
      in (m2, case sm_miner m2 of None \<Rightarrow> w1 | Some i \<Rightarrow> pw_do (P_job i j (-1)) w1))"

definition sm_onJob :: "u64 \<Rightarrow> nat \<Rightarrow> job \<Rightarrow> simple_mapper \<Rightarrow> pool_world \<Rightarrow> simple_mapper \<times> pool_world" where
  "sm_onJob now strategy j m w = sm_setJob now j strategy m w"

definition sm_onPause :: "nat \<Rightarrow> simple_mapper \<Rightarrow> simple_mapper" where
  "sm_onPause strategy m = (if sm_strategy m = strategy then m\<lparr>sm_active := False\<rparr> else m)"

definition sm_onResultAccepted :: "int \<Rightarrow> submit_result \<Rightarrow> cstr \<Rightarrow> simple_mapper \<Rightarrow> pool_world \<Rightarrow> pool_world" where
  "sm_onResultAccepted client r err m w =
     (let w1 = pw_do (P_accept (sm_id m) (sm_miner m) r (client = -1) err) w in
      case sm_miner m of None \<Rightarrow> w1
      | Some i \<Rightarrow>
          let w2 = (case err of Some e \<Rightarrow> pw_do (P_error i (sr_reqId r) e) w1
                    | None \<Rightarrow> pw_do (P_success i (sr_reqId r) ''OK'') w1)
          in if \<not> submit_isAmbiguous r then pw_do (P_outcome i (err = None)) w2 else w2)"

section \<open>The splitter\<close>

record simple_splitter =
  ss_heap :: "(nat, simple_mapper) umap"
  ss_idles :: "(nat, nat) omap"
  ss_upstreams :: "(nat, nat) omap"
  ss_released :: "nat list"
  ss_reuseTimeout :: u64
  ss_sequence :: nat
  ss_world :: pool_world

definition new_simple_splitter :: "u64 \<Rightarrow> pool_world \<Rightarrow> simple_splitter" where
  "new_simple_splitter timeout w =
     \<lparr>ss_heap = [], ss_idles = [], ss_upstreams = [], ss_released = [], ss_reuseTimeout = timeout,
      ss_sequence = 0, ss_world = w\<rparr>"

text \<open>A method called through a pointer.\<close>

definition on_mapper :: "nat \<Rightarrow> (simple_mapper \<Rightarrow> pool_world \<Rightarrow> simple_mapper \<times> pool_world) \<Rightarrow> simple_splitter
    \<Rightarrow> simple_splitter option" where
  "on_mapper h f s =
     (case map_of (ss_heap s) h of None \<Rightarrow> None
      | Some m \<Rightarrow> (case f m (ss_world s) of
          (m1, w) \<Rightarrow> Some (s\<lparr>ss_heap := AList.update h m1 (ss_heap s), ss_world := w\<rparr>)))"

definition delete_at :: "nat \<Rightarrow> simple_splitter \<Rightarrow> simple_splitter option" where
  "delete_at h s =
     (case map_of (ss_heap s) h of None \<Rightarrow> None
      | Some m \<Rightarrow> Some (s\<lparr>ss_heap := AList.delete h (ss_heap s), ss_world := delete_simple m (ss_world s)\<rparr>))"

text \<open>A loop over pointers that stops at the first access to a deleted object.\<close>

fun each_at :: "(nat \<Rightarrow> simple_splitter \<Rightarrow> simple_splitter option) \<Rightarrow> nat list \<Rightarrow> simple_splitter \<Rightarrow> simple_splitter option" where
  "each_at f [] s = Some s"
| "each_at f (h # hs) s = (case f h s of None \<Rightarrow> None | Some s1 \<Rightarrow> each_at f hs s1)"

definition ss_upstream_counts :: "simple_splitter \<Rightarrow> upstreams" where
  "ss_upstream_counts s =
     new_upstreams
       (of_nat (length (filter (\<lambda>(k, h). case map_of (ss_heap s) h of None \<Rightarrow> False | Some m \<Rightarrow> sm_isActive m) (ss_upstreams s))))
       (of_nat (length (ss_idles s))) (of_nat (length (ss_upstreams s)))"

definition removeIdle :: "nat \<Rightarrow> simple_splitter \<Rightarrow> simple_splitter" where
  "removeIdle i s = s\<lparr>ss_idles := AList.delete i (ss_idles s)\<rparr>"

definition removeUpstream :: "nat \<Rightarrow> simple_splitter \<Rightarrow> simple_splitter" where
  "removeUpstream i s = s\<lparr>ss_upstreams := AList.delete i (ss_upstreams s)\<rparr>"

definition ss_stop :: "nat \<Rightarrow> simple_splitter \<Rightarrow> simple_splitter option" where
  "ss_stop h s =
     (case map_of (ss_heap s) h of None \<Rightarrow> None
      | Some m \<Rightarrow> on_mapper h (\<lambda>m w. (m, sm_stop m w)) (removeUpstream (sm_id m) (removeIdle (sm_id m) s)))"

text \<open>\<open>tick\<close>: the mappers released in the round before are deleted; those that idled too long are released.\<close>

definition tick_upstream :: "u64 \<Rightarrow> nat \<Rightarrow> simple_splitter \<Rightarrow> simple_splitter option" where
  "tick_upstream now h s =
     (case map_of (ss_heap s) h of None \<Rightarrow> None
      | Some m \<Rightarrow> if ss_reuseTimeout s < sm_idleTime m then Some (s\<lparr>ss_released := ss_released s @ [h]\<rparr>)
                  else on_mapper h (sm_tick now) s)"

definition ss_tick :: "u64 \<Rightarrow> simple_splitter \<Rightarrow> simple_splitter option" where
  "ss_tick now s =
     (case each_at delete_at (ss_released s) s of None \<Rightarrow> None
      | Some s1 \<Rightarrow>
          let s2 = s1\<lparr>ss_released := []\<rparr> in
          (case each_at (tick_upstream now) (map snd (ss_upstreams s2)) s2 of None \<Rightarrow> None
           | Some s3 \<Rightarrow> each_at ss_stop (ss_released s3) s3))"

definition ss_onConfigChanged :: "u64 \<Rightarrow> bool \<Rightarrow> simple_splitter \<Rightarrow> simple_splitter option" where
  "ss_onConfigChanged timeout changed s =
     (let s1 = s\<lparr>ss_reuseTimeout := timeout\<rparr> in
      if changed then each_at (\<lambda>h. on_mapper h sm_reload) (map snd (ss_upstreams s1)) s1 else Some s1)"

text \<open>
  The loop over the idle mappers: \<open>kv\<close> is a reference to the element of \<open>m_idles\<close>, which
  \<open>removeIdle(kv.first)\<close> erases before \<open>kv.second\<close> is read. \<open>Inr\<close>: no mapper is reusable.
\<close>

fun reuse_idle :: "int \<Rightarrow> (nat \<times> nat) list \<Rightarrow> simple_splitter \<Rightarrow> simple_splitter option + unit" where
  "reuse_idle miner [] s = Inr ()"
| "reuse_idle miner ((k, h) # kvs) s =
     (case map_of (ss_heap s) h of None \<Rightarrow> Inl None
      | Some m \<Rightarrow>
          if sm_isReusable m
          then (let s1 = removeIdle k s in
                case map_of (ss_idles s1) k of None \<Rightarrow> Inl None
                | Some h1 \<Rightarrow> Inl (on_mapper h1 (sm_reuse miner) s1))
          else reuse_idle miner kvs s)"

definition ss_login :: "mapper_config \<Rightarrow> int \<Rightarrow> simple_splitter \<Rightarrow> simple_splitter option" where
  "ss_login cfg miner s =
     (if d_routeId (client_of miner (ss_world s)) \<noteq> -1 then Some s
      else
        (case reuse_idle miner (ss_idles s) s of
           Inl r \<Rightarrow> r
         | Inr _ \<Rightarrow>
             (case new_simple (ss_sequence s) (ss_world s) of
                (m, w) \<Rightarrow>
                  on_mapper (ss_sequence s) (sm_add cfg miner)
                    (s\<lparr>ss_heap := AList.update (ss_sequence s) m (ss_heap s), ss_world := w,
                       ss_upstreams := om_put (ss_sequence s) (ss_sequence s) (ss_upstreams s),
                       ss_sequence := ss_sequence s + 1\<rparr>))))"

definition ss_close :: "int \<Rightarrow> simple_splitter \<Rightarrow> simple_splitter option" where
  "ss_close miner s =
     (let d = client_of miner (ss_world s); i = nat (d_mapperId d) in
      if d_mapperId d < 0 \<or> d_routeId d \<noteq> -1 then Some s
      else
        (case map_of (ss_upstreams s) i of None \<Rightarrow> Some s
         | Some h \<Rightarrow>
             (case on_mapper h (\<lambda>m w. (sm_remove m, w)) s of None \<Rightarrow> None
              | Some s1 \<Rightarrow>
                  if ss_reuseTimeout s1 = 0
                  then map_option (\<lambda>s2. s2\<lparr>ss_released := ss_released s2 @ [h]\<rparr>) (ss_stop h s1)
                  else Some (s1\<lparr>ss_idles := om_put i h (ss_idles s1)\<rparr>))))"

text \<open>
  \<open>m_upstreams[id]\<close> inserts a null pointer where there is no element; the loops over the map then read
  through it, which the model shows as \<open>None\<close> here.
\<close>

definition ss_submit :: "u64 \<Rightarrow> int \<Rightarrow> int \<Rightarrow> job_result \<Rightarrow> simple_splitter \<Rightarrow> (error_code \<times> simple_splitter) option" where
  "ss_submit now seq miner q s =
     (let d = client_of miner (ss_world s) in
      if d_mapperId d < 0 \<or> d_routeId d \<noteq> -1 then Some (NoError, s)
      else
        (case map_of (ss_upstreams s) (nat (d_mapperId d)) of None \<Rightarrow> None
         | Some h \<Rightarrow>
             (case map_of (ss_heap s) h of None \<Rightarrow> None
              | Some m \<Rightarrow> (case sm_submit now seq q m (ss_world s) of (err, w) \<Rightarrow> Some (err, s\<lparr>ss_world := w\<rparr>)))))"

end
