(* ===== verification/Simple_Props.thy ===== *)
theory Simple_Props
  imports Simple_Splitter
begin

text \<open>
  The invariant of the simple splitter: its pointers point to living mappers, every miner has a mapper of
  its own, and the one place where a run can go wrong.
\<close>

section \<open>The invariant\<close>

abbreviation smappers :: "simple_splitter \<Rightarrow> nat \<rightharpoonup> simple_mapper" where
  "smappers s \<equiv> map_of (ss_heap s)"

abbreviation supstreams :: "simple_splitter \<Rightarrow> nat \<rightharpoonup> nat" where
  "supstreams s \<equiv> map_of (ss_upstreams s)"

abbreviation sidles :: "simple_splitter \<Rightarrow> nat \<rightharpoonup> nat" where
  "sidles s \<equiv> map_of (ss_idles s)"

abbreviation miners :: "simple_splitter \<Rightarrow> int \<rightharpoonup> downstream" where
  "miners s \<equiv> clients (ss_world s)"

text \<open>\<open>H\<close>, \<open>U\<close>, \<open>I\<close>: the mappers alive, the upstreams, the idle ones; \<open>C\<close>: the miners; \<open>n\<close>: the next number.\<close>

definition mapper_fine :: "nat \<Rightarrow> nat \<Rightarrow> simple_mapper \<Rightarrow> bool" where
  "mapper_fine n k m \<longleftrightarrow> sm_id m = k \<and> k < n \<and> (sm_miner m \<noteq> None \<longrightarrow> sm_idleTime m = 0)"

definition has_upstream :: "(nat \<rightharpoonup> simple_mapper) \<Rightarrow> (nat \<rightharpoonup> nat) \<Rightarrow> int \<Rightarrow> downstream \<Rightarrow> bool" where
  "has_upstream H U j d \<longleftrightarrow> (\<exists>k m. served_by k d \<and> U k = Some k \<and> H k = Some m \<and> sm_miner m = Some j)"

lemma has_upstream_mono:
  "has_upstream H U j d \<Longrightarrow>
   (\<And>k m. served_by k d \<Longrightarrow> U k = Some k \<Longrightarrow> H k = Some m \<Longrightarrow> sm_miner m = Some j \<Longrightarrow> U' k = Some k \<and> H' k = Some m) \<Longrightarrow>
   has_upstream H' U' j d"
  unfolding has_upstream_def by blast

definition core :: "simple_splitter \<Rightarrow> bool" where
  "core s \<longleftrightarrow> om_ok (ss_upstreams s) \<and> om_ok (ss_idles s) \<and>
     (\<forall>k h. supstreams s k = Some h \<longrightarrow> h = k \<and> smappers s k \<noteq> None) \<and>
     (\<forall>k m. smappers s k = Some m \<longrightarrow> mapper_fine (ss_sequence s) k m) \<and>
     (\<forall>k h. sidles s k = Some h \<longrightarrow> h = k \<and> supstreams s k = Some k \<and> (\<exists>m. smappers s k = Some m \<and> sm_miner m = None)) \<and>
     (\<forall>j d. miners s j = Some d \<and> d_routeId d = -1 \<longrightarrow> unserved d \<or> has_upstream (smappers s) (supstreams s) j d)"

lemma coreI:
  assumes "om_ok (ss_upstreams s)" "om_ok (ss_idles s)"
    and "\<And>k h. supstreams s k = Some h \<Longrightarrow> h = k \<and> smappers s k \<noteq> None"
    and "\<And>k m. smappers s k = Some m \<Longrightarrow> mapper_fine (ss_sequence s) k m"
    and "\<And>k h. sidles s k = Some h \<Longrightarrow> h = k \<and> supstreams s k = Some k \<and> (\<exists>m. smappers s k = Some m \<and> sm_miner m = None)"
    and "\<And>j d. miners s j = Some d \<Longrightarrow> d_routeId d = -1 \<Longrightarrow> unserved d \<or> has_upstream (smappers s) (supstreams s) j d"
  shows "core s"
  using assms unfolding core_def by blast

lemma coreD:
  assumes "core s"
  shows core_om: "om_ok (ss_upstreams s)" "om_ok (ss_idles s)"
    and core_up: "supstreams s k = Some h \<Longrightarrow> h = k \<and> smappers s k \<noteq> None"
    and core_fine: "smappers s k = Some m \<Longrightarrow> mapper_fine (ss_sequence s) k m"
    and core_idle: "sidles s k = Some h \<Longrightarrow> h = k \<and> supstreams s k = Some k \<and> (\<exists>m. smappers s k = Some m \<and> sm_miner m = None)"
    and core_miner: "miners s j = Some d \<Longrightarrow> d_routeId d = -1 \<Longrightarrow> unserved d \<or> has_upstream (smappers s) (supstreams s) j d"
  using assms unfolding core_def by blast+

definition released_ok :: "simple_splitter \<Rightarrow> bool" where
  "released_ok s \<longleftrightarrow> distinct (ss_released s) \<and>
     (\<forall>h \<in> set (ss_released s). smappers s h \<noteq> None \<and> supstreams s h = None)"

text \<open>A call that leaves a mapper its number and its miner.\<close>

definition keeps :: "simple_mapper \<Rightarrow> simple_mapper \<Rightarrow> bool" where
  "keeps m m' \<longleftrightarrow> sm_id m' = sm_id m \<and> sm_miner m' = sm_miner m \<and>
     (sm_miner m \<noteq> None \<longrightarrow> sm_idleTime m' = sm_idleTime m)"

lemma core_heap:
  assumes c: "core s" and m: "smappers s h = Some m" "keeps m m'"
    and H: "smappers s' = (smappers s)(h \<mapsto> m')" and same: "ss_upstreams s' = ss_upstreams s" "ss_idles s' = ss_idles s"
      "ss_sequence s' = ss_sequence s" "miners s' = miners s"
  shows "core s'"
proof -
  have "mapper_fine (ss_sequence s) h m'" using c m unfolding core_def mapper_fine_def keeps_def by metis
  moreover have "has_upstream (smappers s') (supstreams s) j d" if hu: "has_upstream (smappers s) (supstreams s) j d" for j d
  proof -
    obtain k n where kn: "served_by k d" "supstreams s k = Some k" "smappers s k = Some n" "sm_miner n = Some j"
      using hu by (auto simp: has_upstream_def)
    then have "sm_miner (if k = h then m' else n) = Some j" using m by (auto simp: keeps_def)
    moreover have "smappers s' k = Some (if k = h then m' else n)" using kn H by simp
    ultimately show ?thesis using kn unfolding has_upstream_def by blast
  qed
  moreover have "\<exists>n. smappers s' k = Some n \<and> sm_miner n = None" if "\<exists>n. smappers s k = Some n \<and> sm_miner n = None" for k
    using that m H by (auto simp: keeps_def)
  ultimately show ?thesis using c H same unfolding core_def by simp blast
qed

lemma on_mapper_keeps:
  assumes "core s" and "smappers s h \<noteq> None"
    and f: "\<And>m w. keeps m (fst (f m w)) \<and> pw_clients (snd (f m w)) = pw_clients w"
  shows "\<exists>s'. on_mapper h f s = Some s' \<and> core s' \<and> ss_upstreams s' = ss_upstreams s \<and> ss_idles s' = ss_idles s \<and>
    ss_released s' = ss_released s \<and> ss_reuseTimeout s' = ss_reuseTimeout s \<and> ss_sequence s' = ss_sequence s \<and>
    miners s' = miners s \<and> dom (smappers s') = dom (smappers s) \<and>
    (\<forall>k m. smappers s k = Some m \<longrightarrow> (\<exists>m'. smappers s' k = Some m' \<and> keeps m m'))"
proof -
  obtain m where m: "smappers s h = Some m" using assms(2) by auto
  obtain m1 w1 where r: "f m (ss_world s) = (m1, w1)" by (metis surj_pair)
  have k: "keeps m m1" "pw_clients w1 = pw_clients (ss_world s)" using f [of m "ss_world s"] r by simp_all
  define s' where "s' = s\<lparr>ss_heap := AList.update h m1 (ss_heap s), ss_world := w1\<rparr>"
  have H: "smappers s' = (smappers s)(h \<mapsto> m1)" by (simp add: s'_def update_conv')
  have "core s'" by (rule core_heap [OF assms(1) m k(1) H]) (simp_all add: s'_def k(2))
  moreover have "on_mapper h f s = Some s'" by (simp add: on_mapper_def m r s'_def)
  moreover have "dom (smappers s') = dom (smappers s)" using m H by auto
  moreover have "\<forall>k n. smappers s k = Some n \<longrightarrow> (\<exists>n'. smappers s' k = Some n' \<and> keeps n n')"
    using m k(1) H by (auto simp: keeps_def)
  ultimately show ?thesis by (simp add: s'_def k(2))
qed

section \<open>The timer\<close>

lemma core_same:
  "core s \<Longrightarrow> smappers s' = smappers s \<Longrightarrow> ss_upstreams s' = ss_upstreams s \<Longrightarrow> ss_idles s' = ss_idles s \<Longrightarrow>
   ss_sequence s' = ss_sequence s \<Longrightarrow> miners s' = miners s \<Longrightarrow> core s'"
  unfolding core_def by simp

lemma delete_clients [simp]: "pw_clients (delete_simple m w) = pw_clients w"
  by (simp add: delete_simple_def split: option.split)

text \<open>Mappers that no map points to may be deleted.\<close>

lemma core_delete:
  assumes c: "core s" and h: "supstreams s h = None" and H: "smappers s' = (smappers s)(h := None)"
    and same: "ss_upstreams s' = ss_upstreams s" "ss_idles s' = ss_idles s" "ss_sequence s' = ss_sequence s" "miners s' = miners s"
  shows "core s'"
proof -
  have "has_upstream (smappers s') (supstreams s) j d" if hu: "has_upstream (smappers s) (supstreams s) j d" for j d
    using hu by (rule has_upstream_mono) (use h H same in auto)
  note hu = this
  show ?thesis
  proof (rule coreI)
    fix k i assume "supstreams s' k = Some i"
    then show "i = k \<and> smappers s' k \<noteq> None" using core_up [OF c, of k i] h H same by auto
  next
    fix k i assume "sidles s' k = Some i"
    then show "i = k \<and> supstreams s' k = Some k \<and> (\<exists>m. smappers s' k = Some m \<and> sm_miner m = None)"
      using core_idle [OF c, of k i] h H same by auto
  next
    fix j d assume "miners s' j = Some d" "d_routeId d = -1"
    then show "unserved d \<or> has_upstream (smappers s') (supstreams s') j d"
      using core_miner [OF c, of j d] hu same by auto
  qed (use core_om [OF c] core_fine [OF c] H same in \<open>auto split: if_splits\<close>)
qed

lemma delete_all:
  "core s \<Longrightarrow> distinct hs \<Longrightarrow> \<forall>h \<in> set hs. smappers s h \<noteq> None \<and> supstreams s h = None \<Longrightarrow>
   \<exists>s'. each_at delete_at hs s = Some s' \<and> core s' \<and> ss_upstreams s' = ss_upstreams s \<and> ss_idles s' = ss_idles s \<and>
     ss_reuseTimeout s' = ss_reuseTimeout s \<and> ss_sequence s' = ss_sequence s \<and> miners s' = miners s"
proof (induction hs arbitrary: s)
  case (Cons h hs)
  obtain m where m: "smappers s h = Some m" using Cons.prems(3) by auto
  define s1 where "s1 = s\<lparr>ss_heap := AList.delete h (ss_heap s), ss_world := delete_simple m (ss_world s)\<rparr>"
  have H: "smappers s1 = (smappers s)(h := None)" by (simp add: s1_def delete_conv')
  have "core s1" by (rule core_delete [OF Cons.prems(1) _ H]) (use Cons.prems(3) in \<open>simp_all add: s1_def\<close>)
  moreover have "\<forall>k \<in> set hs. smappers s1 k \<noteq> None \<and> supstreams s1 k = None"
    using Cons.prems(2,3) H by (auto simp: s1_def)
  ultimately obtain s' where "each_at delete_at hs s1 = Some s'" "core s'" "ss_upstreams s' = ss_upstreams s1"
      "ss_idles s' = ss_idles s1" "ss_reuseTimeout s' = ss_reuseTimeout s1" "ss_sequence s' = ss_sequence s1" "miners s' = miners s1"
    using Cons.IH [of s1] Cons.prems(2) by auto
  moreover have "delete_at h s = Some s1" by (simp add: delete_at_def m s1_def)
  ultimately show ?case by (simp add: s1_def)
qed simp

lemma tick_keeps: "keeps m (fst (sm_tick now m w)) \<and> pw_clients (snd (sm_tick now m w)) = pw_clients w"
  by (simp add: sm_tick_def keeps_def)

lemma keeps_idle: "keeps m m' \<Longrightarrow> sm_miner m = None \<longleftrightarrow> sm_miner m' = None"
  by (simp add: keeps_def)

text \<open>The mappers that the second loop releases have no miner.\<close>

definition idle_at :: "simple_splitter \<Rightarrow> nat \<Rightarrow> bool" where
  "idle_at s h \<longleftrightarrow> (\<exists>m. smappers s h = Some m \<and> sm_miner m = None)"

lemma tick_all:
  "core s \<Longrightarrow> distinct (ss_released s @ hs) \<Longrightarrow> \<forall>h \<in> set hs. smappers s h \<noteq> None \<Longrightarrow> \<forall>h \<in> set (ss_released s). idle_at s h \<Longrightarrow>
   \<exists>s'. each_at (tick_upstream now) hs s = Some s' \<and> core s' \<and> ss_upstreams s' = ss_upstreams s \<and> ss_idles s' = ss_idles s \<and>
     ss_reuseTimeout s' = ss_reuseTimeout s \<and> ss_sequence s' = ss_sequence s \<and> miners s' = miners s \<and>
     distinct (ss_released s') \<and> (\<forall>h \<in> set (ss_released s'). idle_at s' h)"
proof (induction hs arbitrary: s)
  case (Cons h hs)
  obtain m where m: "smappers s h = Some m" using Cons.prems(3) by auto
  show ?case
  proof (cases "ss_reuseTimeout s < sm_idleTime m")
    case True
    define s1 where "s1 = s\<lparr>ss_released := ss_released s @ [h]\<rparr>"
    have "mapper_fine (ss_sequence s) h m" using Cons.prems(1) m by (simp add: core_def)
    then have "sm_miner m = None" using True by (cases "sm_miner m") (auto simp: mapper_fine_def)
    then have "\<forall>k \<in> set (ss_released s1). idle_at s1 k" using Cons.prems(4) m by (auto simp: s1_def idle_at_def)
    moreover have "core s1" using Cons.prems(1) by (rule core_same) (simp_all add: s1_def)
    ultimately obtain s' where "each_at (tick_upstream now) hs s1 = Some s'" "core s'" "ss_upstreams s' = ss_upstreams s1"
        "ss_idles s' = ss_idles s1" "ss_reuseTimeout s' = ss_reuseTimeout s1" "ss_sequence s' = ss_sequence s1" "miners s' = miners s1"
        "distinct (ss_released s')" "\<forall>h \<in> set (ss_released s'). idle_at s' h"
      using Cons.IH [of s1] Cons.prems(2,3) by (auto simp: s1_def)
    moreover have "tick_upstream now h s = Some s1" using m True by (simp add: tick_upstream_def s1_def)
    ultimately show ?thesis by (simp add: s1_def)
  next
    case False
    obtain s1 where s1: "on_mapper h (sm_tick now) s = Some s1" "core s1" "ss_upstreams s1 = ss_upstreams s" "ss_idles s1 = ss_idles s"
        "ss_released s1 = ss_released s" "ss_reuseTimeout s1 = ss_reuseTimeout s" "ss_sequence s1 = ss_sequence s"
        "miners s1 = miners s" "dom (smappers s1) = dom (smappers s)"
        "\<forall>k n. smappers s k = Some n \<longrightarrow> (\<exists>n'. smappers s1 k = Some n' \<and> keeps n n')"
      using on_mapper_keeps [of s h "sm_tick now"] Cons.prems(1) tick_keeps m by auto
    have "\<forall>k \<in> set (ss_released s1). idle_at s1 k"
      using Cons.prems(4) s1(5,10) keeps_idle unfolding idle_at_def by metis
    moreover have "\<forall>k \<in> set hs. smappers s1 k \<noteq> None" using Cons.prems(3) s1(9) by (auto simp: dom_def)
    ultimately obtain s' where "each_at (tick_upstream now) hs s1 = Some s'" "core s'" "ss_upstreams s' = ss_upstreams s1"
        "ss_idles s' = ss_idles s1" "ss_reuseTimeout s' = ss_reuseTimeout s1" "ss_sequence s' = ss_sequence s1" "miners s' = miners s1"
        "distinct (ss_released s')" "\<forall>h \<in> set (ss_released s'). idle_at s' h"
      using Cons.IH [OF s1(2)] Cons.prems(2) s1(5) by auto
    moreover have "tick_upstream now h s = Some s1" using m False s1(1) by (simp add: tick_upstream_def)
    ultimately show ?thesis using s1 by simp
  qed
qed simp

text \<open>Stopping takes an idle mapper out of the maps.\<close>

lemma stop_ok:
  assumes c: "core s" and i: "idle_at s h"
  shows "\<exists>s'. ss_stop h s = Some s' \<and> core s' \<and> ss_upstreams s' = AList.delete h (ss_upstreams s) \<and>
    ss_idles s' = AList.delete h (ss_idles s) \<and> ss_released s' = ss_released s \<and> ss_reuseTimeout s' = ss_reuseTimeout s \<and>
    miners s' = miners s \<and> smappers s' = smappers s"
proof -
  obtain m where m: "smappers s h = Some m" "sm_miner m = None" using i by (auto simp: idle_at_def)
  have id: "sm_id m = h" using c m by (simp add: core_def mapper_fine_def)
  define s' where "s' = s\<lparr>ss_idles := AList.delete h (ss_idles s), ss_upstreams := AList.delete h (ss_upstreams s),
      ss_heap := AList.update h m (ss_heap s), ss_world := sm_stop m (ss_world s)\<rparr>"
  have st: "ss_stop h s = Some s'" by (simp add: ss_stop_def m id on_mapper_def removeIdle_def removeUpstream_def s'_def)
  have H: "smappers s' = smappers s" using m by (simp add: s'_def update_conv' map_upd_triv)
  have M: "miners s' = miners s" by (simp add: s'_def sm_stop_def Let_def split: option.split)
  have U: "supstreams s' = (supstreams s)(h := None)" "sidles s' = (sidles s)(h := None)"
    by (simp_all add: s'_def delete_conv')
  have hu: "has_upstream (smappers s) (supstreams s') j d" if hu: "has_upstream (smappers s) (supstreams s) j d" for j d
    using hu by (rule has_upstream_mono) (use m U in auto)
  have "om_ok (ss_upstreams s') \<and> om_ok (ss_idles s')" using c by (simp add: s'_def core_def)
  moreover have "ss_sequence s' = ss_sequence s" by (simp add: s'_def)
  moreover have "unserved d \<or> has_upstream (smappers s') (supstreams s') j d" if "miners s' j = Some d" "d_routeId d = -1" for j d
    using that core_miner [OF c, of j d] hu H M by auto
  moreover have "i = k \<and> supstreams s' k = Some k \<and> (\<exists>m. smappers s' k = Some m \<and> sm_miner m = None)"
    if "sidles s' k = Some i" for k i
    using that core_idle [OF c, of k i] U H by (auto split: if_splits)
  moreover have "i = k \<and> smappers s' k \<noteq> None" if "supstreams s' k = Some i" for k i
    using that core_up [OF c, of k i] U H by (auto split: if_splits)
  ultimately have "core s'" using core_fine [OF c] H by (intro coreI) auto
  then show ?thesis using st H M by (simp add: s'_def)
qed

lemma stop_all:
  "core s \<Longrightarrow> distinct hs \<Longrightarrow> \<forall>h \<in> set hs. idle_at s h \<Longrightarrow>
   \<exists>s'. each_at ss_stop hs s = Some s' \<and> core s' \<and> ss_released s' = ss_released s \<and>
     supstreams s' = (\<lambda>k. if k \<in> set hs then None else supstreams s k) \<and> miners s' = miners s \<and> smappers s' = smappers s"
proof (induction hs arbitrary: s)
  case (Cons h hs)
  obtain s1 where s1: "ss_stop h s = Some s1" "core s1" "ss_upstreams s1 = AList.delete h (ss_upstreams s)"
      "ss_released s1 = ss_released s" "miners s1 = miners s" "smappers s1 = smappers s"
    using stop_ok [OF Cons.prems(1), of h] Cons.prems(3) by auto
  have "\<forall>k \<in> set hs. idle_at s1 k" using Cons.prems(3) s1(6) by (simp add: idle_at_def)
  then obtain s' where "each_at ss_stop hs s1 = Some s'" "core s'" "ss_released s' = ss_released s1"
      "supstreams s' = (\<lambda>k. if k \<in> set hs then None else supstreams s1 k)" "miners s' = miners s1" "smappers s' = smappers s1"
    using Cons.IH [OF s1(2)] Cons.prems(2) by auto
  then show ?case using s1 by (auto simp: delete_conv' fun_eq_iff)
qed simp

lemma tick_ok:
  assumes c: "core s" and r: "released_ok s"
  shows "\<exists>s'. ss_tick now s = Some s' \<and> core s' \<and> released_ok s'"
proof -
  obtain s1 where s1: "each_at delete_at (ss_released s) s = Some s1" "core s1"
    using delete_all [OF c, of "ss_released s"] r by (auto simp: released_ok_def)
  define s2 where "s2 = s1\<lparr>ss_released := []\<rparr>"
  have c2: "core s2" using s1(2) by (rule core_same) (simp_all add: s2_def)
  have snd: "map snd (ss_upstreams s2) = map fst (ss_upstreams s2)"
  proof (rule map_cong [OF refl])
    fix kh assume "kh \<in> set (ss_upstreams s2)"
    then have "supstreams s2 (fst kh) = Some (snd kh)"
      using c2 om_ok_distinct [of "ss_upstreams s2"] by (simp add: core_def)
    then show "snd kh = fst kh" using c2 by (simp add: core_def)
  qed
  have "distinct (map fst (ss_upstreams s2))" using c2 by (simp add: core_def om_ok_distinct)
  moreover have "\<forall>h \<in> set (map fst (ss_upstreams s2)). smappers s2 h \<noteq> None"
  proof
    fix h assume "h \<in> set (map fst (ss_upstreams s2))"
    then obtain h' where "supstreams s2 h = Some h'" by (metis list.set_map map_of_eq_None_iff not_None_eq)
    then show "smappers s2 h \<noteq> None" using c2 by (simp add: core_def)
  qed
  ultimately obtain s3 where s3: "each_at (tick_upstream now) (map snd (ss_upstreams s2)) s2 = Some s3" "core s3"
      "distinct (ss_released s3)" "\<forall>h \<in> set (ss_released s3). idle_at s3 h"
    using tick_all [OF c2, of "map snd (ss_upstreams s2)" now] unfolding snd [symmetric] by (auto simp: s2_def)
  obtain s4 where s4: "each_at ss_stop (ss_released s3) s3 = Some s4" "core s4" "ss_released s4 = ss_released s3"
      "supstreams s4 = (\<lambda>k. if k \<in> set (ss_released s3) then None else supstreams s3 k)" "smappers s4 = smappers s3"
    using stop_all [OF s3(2,3,4)] by auto
  have "released_ok s4" using s3(3,4) s4 by (auto simp: released_ok_def idle_at_def)
  then show ?thesis using s1 s3 s4 by (simp add: ss_tick_def s2_def Let_def)
qed

section \<open>Leaving\<close>

definition forget_miner :: "int \<Rightarrow> simple_splitter \<Rightarrow> simple_splitter" where
  "forget_miner j s = s\<lparr>ss_world := (ss_world s)\<lparr>pw_clients := AList.delete j (pw_clients (ss_world s))\<rparr>\<rparr>"

lemma forget_miner_simps [simp]:
  "ss_heap (forget_miner j s) = ss_heap s" "ss_upstreams (forget_miner j s) = ss_upstreams s"
  "ss_idles (forget_miner j s) = ss_idles s" "ss_released (forget_miner j s) = ss_released s"
  "ss_sequence (forget_miner j s) = ss_sequence s" "ss_reuseTimeout (forget_miner j s) = ss_reuseTimeout s"
  "miners (forget_miner j s) = (miners s)(j := None)"
  by (simp_all add: forget_miner_def delete_conv')

lemma stop_forget: "ss_stop h (forget_miner j s) = map_option (forget_miner j) (ss_stop h s)"
proof (cases "smappers s h")
  case None
  then show ?thesis by (simp add: ss_stop_def)
next
  case (Some m)
  have "sm_stop m (w\<lparr>pw_clients := AList.delete j (pw_clients w)\<rparr>) =
      (sm_stop m w)\<lparr>pw_clients := AList.delete j (pw_clients (sm_stop m w))\<rparr>" for w
    by (simp add: sm_stop_def pw_do_def Let_def split: option.split)
  then show ?thesis
    by (simp add: ss_stop_def Some on_mapper_def removeIdle_def removeUpstream_def forget_miner_def)
qed

lemma core_leave:
  assumes c: "core s" and j: "miners s j = Some d" "served_by k d" and m: "smappers s k = Some m" "sm_miner m = Some j"
    and H: "smappers s' = (smappers s)(k \<mapsto> sm_remove m)"
    and same: "ss_upstreams s' = ss_upstreams s" "ss_idles s' = ss_idles s" "ss_sequence s' = ss_sequence s"
      "miners s' = (miners s)(j := None)"
  shows "core s'"
proof (rule coreI)
  fix i h assume "supstreams s' i = Some h"
  then show "h = i \<and> smappers s' i \<noteq> None" using core_up [OF c, of i h] H same by auto
next
  fix i n assume "smappers s' i = Some n"
  then show "mapper_fine (ss_sequence s') i n"
    using core_fine [OF c, of i] m H same by (auto simp: mapper_fine_def sm_remove_def split: if_splits)
next
  fix i h assume "sidles s' i = Some h"
  then show "h = i \<and> supstreams s' i = Some i \<and> (\<exists>m. smappers s' i = Some m \<and> sm_miner m = None)"
    using core_idle [OF c, of i h] H same by (auto simp: sm_remove_def)
next
  fix i e assume e: "miners s' i = Some e" "d_routeId e = -1"
  then have i: "i \<noteq> j" "miners s i = Some e" using same by (auto split: if_splits)
  have "has_upstream (smappers s') (supstreams s') i e" if hu: "has_upstream (smappers s) (supstreams s) i e"
    using hu by (rule has_upstream_mono) (use m H same i in auto)
  then show "unserved e \<or> has_upstream (smappers s') (supstreams s') i e" using core_miner [OF c i(2) e(2)] by auto
qed (use core_om [OF c] same in auto)

lemma close_result:
  assumes c: "core s" and r: "released_ok s" and j: "miners s j = Some d"
  shows "\<exists>s'. ss_close j s = Some s' \<and> core (forget_miner j s') \<and> released_ok (forget_miner j s')"
proof (cases "d_mapperId d < 0 \<or> d_routeId d \<noteq> -1")
  case True
  have "core (forget_miner j s)"
    by (rule coreI) (use core_om [OF c] core_up [OF c] core_fine [OF c] core_idle [OF c] core_miner [OF c] in
      \<open>auto split: if_splits\<close>)
  then show ?thesis using True r j by (simp add: ss_close_def client_of_def released_ok_def Let_def)
next
  case False
  then have "\<not> unserved d" by (auto simp: unserved_def)
  then obtain k m where k: "served_by k d" "supstreams s k = Some k" "smappers s k = Some m" "sm_miner m = Some j"
    using core_miner [OF c j] False by (auto simp: has_upstream_def)
  have d: "client_of j (ss_world s) = d" "nat (d_mapperId d) = k" using j k(1) by (simp_all add: client_of_def served_by_def)
  define s1 where "s1 = s\<lparr>ss_heap := AList.update k (sm_remove m) (ss_heap s)\<rparr>"
  have om: "on_mapper k (\<lambda>m w. (sm_remove m, w)) s = Some s1" by (simp add: on_mapper_def k s1_def)
  define f1 where "f1 = forget_miner j s1"
  have H: "smappers f1 = (smappers s)(k \<mapsto> sm_remove m)" by (simp add: f1_def s1_def update_conv')
  have cf: "core f1" by (rule core_leave [OF c j k(1,3,4) H]) (simp_all add: f1_def s1_def)
  have idle: "idle_at f1 k" using H by (simp add: idle_at_def sm_remove_def)
  have nr: "k \<notin> set (ss_released s)" using r k(2) by (auto simp: released_ok_def)
  show ?thesis
  proof (cases "ss_reuseTimeout s = 0")
    case True
    obtain f2 where f2: "ss_stop k f1 = Some f2" "core f2" "ss_upstreams f2 = AList.delete k (ss_upstreams f1)"
        "ss_released f2 = ss_released f1" "smappers f2 = smappers f1"
      using stop_ok [OF cf idle] by auto
    obtain s2 where s2: "ss_stop k s1 = Some s2" "f2 = forget_miner j s2"
      using f2(1) stop_forget [of k j s1] by (auto simp: f1_def)
    define s3 where "s3 = s2\<lparr>ss_released := ss_released s2 @ [k]\<rparr>"
    have cl: "ss_close j s = Some s3"
      using False True d k om s2(1) by (simp add: ss_close_def Let_def s3_def) (simp add: s1_def)
    have "forget_miner j s3 = f2\<lparr>ss_released := ss_released f2 @ [k]\<rparr>" by (simp add: s2(2) s3_def forget_miner_def)
    moreover have "core (f2\<lparr>ss_released := ss_released f2 @ [k]\<rparr>)" using f2(2) by (rule core_same) simp_all
    moreover have "released_ok (f2\<lparr>ss_released := ss_released f2 @ [k]\<rparr>)"
      using r nr f2 H by (auto simp: released_ok_def f1_def s1_def delete_conv')
    ultimately show ?thesis using cl by auto
  next
    case False2: False
    define s3 where "s3 = s1\<lparr>ss_idles := om_put k k (ss_idles s1)\<rparr>"
    have cl: "ss_close j s = Some s3"
      using False False2 d k om by (simp add: ss_close_def Let_def s3_def) (simp add: s1_def)
    have I: "sidles (forget_miner j s3) = (sidles f1)(k \<mapsto> k)"
      using core_om [OF cf] by (simp add: s3_def f1_def map_of_om_put)
    have e: "smappers (forget_miner j s3) = smappers f1" "ss_upstreams (forget_miner j s3) = ss_upstreams f1"
        "ss_sequence (forget_miner j s3) = ss_sequence f1" "miners (forget_miner j s3) = miners f1"
        "ss_idles (forget_miner j s3) = om_put k k (ss_idles f1)"
      by (simp_all add: s3_def f1_def)
    have "core (forget_miner j s3)"
    proof (rule coreI, unfold e(1-4))
      fix i h assume "sidles (forget_miner j s3) i = Some h"
      then show "h = i \<and> supstreams f1 i = Some i \<and> (\<exists>m. smappers f1 i = Some m \<and> sm_miner m = None)"
        using core_idle [OF cf, of i h] idle k(2) unfolding I idle_at_def by (auto simp: f1_def s1_def split: if_splits)
    qed (use core_om [OF cf] core_up [OF cf] core_fine [OF cf] core_miner [OF cf] e(5) in auto)
    moreover have "released_ok (forget_miner j s3)"
      using r k(3) by (auto simp: released_ok_def s3_def s1_def update_conv')
    ultimately show ?thesis using cl by auto
  qed
qed

section \<open>Arriving\<close>

text \<open>An idle mapper that the login would take: there the code reads the erased element.\<close>

definition takes_idle :: "simple_splitter \<Rightarrow> bool" where
  "takes_idle s \<longleftrightarrow> (\<exists>k m. sidles s k = Some k \<and> smappers s k = Some m \<and> sm_isReusable m)"

lemma reuse_idle_result:
  assumes c: "core s"
  shows "set kvs \<subseteq> set (ss_idles s) \<Longrightarrow>
    reuse_idle j kvs s = (if \<exists>(k, h) \<in> set kvs. \<exists>m. smappers s h = Some m \<and> sm_isReusable m then Inl None else Inr ())"
proof (induction kvs)
  case (Cons kv kvs)
  obtain k h where kv: "kv = (k, h)" by (cases kv)
  have "sidles s k = Some h" using Cons.prems kv om_ok_distinct [OF core_om(2) [OF c]] by simp
  then obtain m where m: "smappers s h = Some m" using core_idle [OF c, of k h] by auto
  have "sidles (removeIdle k s) k = None" by (simp add: removeIdle_def delete_conv')
  then show ?case using Cons m by (simp add: kv Let_def)
qed simp

lemma takes_idle_iff:
  assumes c: "core s"
  shows "takes_idle s \<longleftrightarrow> (\<exists>(k, h) \<in> set (ss_idles s). \<exists>m. smappers s h = Some m \<and> sm_isReusable m)"
proof -
  have "(k, h) \<in> set (ss_idles s) \<longleftrightarrow> sidles s k = Some h" for k h
    using om_ok_distinct [OF core_om(2) [OF c]] by simp
  then show ?thesis using core_idle [OF c] unfolding takes_idle_def by fastforce
qed

lemma simple_login_result:
  assumes c: "core s" and r: "released_ok s" and j: "miners s j = Some d" "d_routeId d = -1 \<longrightarrow> unserved d"
  shows "if d_routeId d = -1 \<and> takes_idle s then ss_login cfg j s = None
    else (\<exists>s'. ss_login cfg j s = Some s' \<and> core s' \<and> released_ok s')"
proof (cases "d_routeId d = -1")
  case False
  then show ?thesis using c r j by (simp add: ss_login_def client_of_def)
next
  case route: True
  have d: "d_routeId (client_of j (ss_world s)) = -1" "unserved d" using route j by (simp_all add: client_of_def)
  show ?thesis
  proof (cases "takes_idle s")
    case True
    then show ?thesis using route d reuse_idle_result [OF c, of "ss_idles s" j] takes_idle_iff [OF c] by (simp add: ss_login_def)
  next
    case False
    define n where "n = ss_sequence s"
    obtain m w where m: "new_simple n (ss_world s) = (m, w)" by (metis surj_pair)
    have mf: "sm_id m = n" "sm_miner m = None" "sm_idleTime m = 0" "pw_clients w = pw_clients (ss_world s)"
      using m by (auto simp: new_simple_def new_strategy_def)
    define s0 where "s0 = s\<lparr>ss_heap := AList.update n m (ss_heap s), ss_world := w,
        ss_upstreams := om_put n n (ss_upstreams s), ss_sequence := n + 1\<rparr>"
    define s' where "s' = s0\<lparr>ss_heap := AList.update n (m\<lparr>sm_miner := Some j\<rparr>) (ss_heap s0),
        ss_world := snd (sm_add cfg j m w)\<rparr>"
    have l: "ss_login cfg j s = Some s'"
    proof -
      have "reuse_idle j (ss_idles s) s = Inr ()"
        using False reuse_idle_result [OF c, of "ss_idles s" j] takes_idle_iff [OF c] by simp
      then have "ss_login cfg j s = on_mapper n (sm_add cfg j) s0"
        using d(1) m by (simp add: ss_login_def n_def [symmetric] s0_def)
      then show ?thesis by (simp add: on_mapper_def s0_def s'_def update_conv' sm_add_def Let_def)
    qed
    have fresh: "smappers s n = None"
      using core_fine [OF c, of n] by (cases "smappers s n") (auto simp: mapper_fine_def n_def)
    have freshU: "supstreams s n = None" using core_up [OF c, of n] fresh by (cases "supstreams s n") auto
    have H: "smappers s' = (smappers s)(n \<mapsto> m\<lparr>sm_miner := Some j\<rparr>)" by (simp add: s'_def s0_def update_conv')
    have U: "supstreams s' = (supstreams s)(n \<mapsto> n)" using core_om [OF c] by (simp add: s'_def s0_def map_of_om_put)
    have M: "miners s' = (miners s)(j \<mapsto> d\<lparr>d_extAlgo := mc_algoExt cfg, d_extNicehash := False, d_mapperId := int n\<rparr>)"
      using j(1) mf by (auto simp: s'_def sm_add_def sm_connect_def Let_def fun_eq_iff)
    have I: "ss_idles s' = ss_idles s" "ss_sequence s' = n + 1" "ss_released s' = ss_released s"
      by (simp_all add: s'_def s0_def)
    have "core s'"
    proof (rule coreI)
      show "om_ok (ss_upstreams s')" using core_om [OF c] by (simp add: s'_def s0_def)
      show "om_ok (ss_idles s')" using core_om [OF c] I by simp
    next
      fix k h assume "supstreams s' k = Some h"
      then show "h = k \<and> smappers s' k \<noteq> None" using core_up [OF c, of k h] U H by (auto split: if_splits)
    next
      fix k n' assume "smappers s' k = Some n'"
      then show "mapper_fine (ss_sequence s') k n'"
        using core_fine [OF c, of k n'] H I mf by (auto simp: mapper_fine_def n_def split: if_splits)
    next
      fix k h assume "sidles s' k = Some h"
      then show "h = k \<and> supstreams s' k = Some k \<and> (\<exists>m. smappers s' k = Some m \<and> sm_miner m = None)"
        using core_idle [OF c, of k h] U H I freshU by auto
    next
      fix i e assume e: "miners s' i = Some e" "d_routeId e = -1"
      show "unserved e \<or> has_upstream (smappers s') (supstreams s') i e"
      proof (cases "i = j")
        case True
        then have "served_by n e" using e d(2) M by (auto simp: served_by_def unserved_def)
        then have "has_upstream (smappers s') (supstreams s') i e" using True H U by (auto simp: has_upstream_def)
        then show ?thesis ..
      next
        case False
        then have "unserved e \<or> has_upstream (smappers s) (supstreams s) i e" using e M core_miner [OF c, of i e] by auto
        moreover have "has_upstream (smappers s') (supstreams s') i e" if hu: "has_upstream (smappers s) (supstreams s) i e"
          using hu by (rule has_upstream_mono) (use H U fresh in auto)
        ultimately show ?thesis by blast
      qed
    qed
    moreover have "released_ok s'"
      using r fresh unfolding released_ok_def H U I by auto
    ultimately show ?thesis using l route False by simp
  qed
qed

end
