(* ===== verification/Simple_Claims.thy ===== *)
theory Simple_Claims
  imports Simple_Props
begin

text \<open>
  Runs of the simple splitter: every step keeps its invariant and touches only living objects, but for the
  login that would take over an idle mapper.
\<close>

section \<open>Steps\<close>

datatype simple_notice =
    Sn_active nat int
  | Sn_pause nat
  | Sn_job u64 nat job
  | Sn_result int submit_result cstr

fun simple_notify :: "simple_notice \<Rightarrow> simple_mapper \<Rightarrow> pool_world \<Rightarrow> simple_mapper \<times> pool_world" where
  "simple_notify (Sn_active h c) m w = sm_onActive h c m w"
| "simple_notify (Sn_pause h) m w = (sm_onPause h m, w)"
| "simple_notify (Sn_job now h j) m w = sm_onJob now h j m w"
| "simple_notify (Sn_result c r err) m w = (m, sm_onResultAccepted c r err m w)"

datatype simple_op =
    So_login int downstream
  | So_close int
  | So_submit u64 int int job_result
  | So_tick u64
  | So_config u64 bool
  | So_notice nat simple_notice

text \<open>
  A miner logs in with a new identifier (the donation splitter may have routed it elsewhere), leaves,
  submits; the timer ticks; a strategy gives a notice to the mapper it belongs to, which lives.
\<close>

definition enter_miner :: "int \<Rightarrow> downstream \<Rightarrow> simple_splitter \<Rightarrow> simple_splitter" where
  "enter_miner j d s = s\<lparr>ss_world := (ss_world s)\<lparr>pw_clients := AList.update j d (pw_clients (ss_world s))\<rparr>\<rparr>"

definition admissible :: "int \<Rightarrow> downstream \<Rightarrow> simple_splitter \<Rightarrow> bool" where
  "admissible j d s \<longleftrightarrow> miners s j = None \<and> (d_routeId d = -1 \<longrightarrow> unserved d)"

fun ss_step :: "mapper_config \<Rightarrow> simple_op \<Rightarrow> simple_splitter \<Rightarrow> simple_splitter option" where
  "ss_step cfg (So_login j d) s = (if admissible j d s then ss_login cfg j (enter_miner j d s) else Some s)"
| "ss_step cfg (So_close j) s = (if miners s j = None then Some s else map_option (forget_miner j) (ss_close j s))"
| "ss_step cfg (So_submit now seq j q) s = (if miners s j = None then Some s else map_option snd (ss_submit now seq j q s))"
| "ss_step cfg (So_tick now) s = ss_tick now s"
| "ss_step cfg (So_config timeout changed) s = ss_onConfigChanged timeout changed s"
| "ss_step cfg (So_notice h n) s = (if smappers s h = None then Some s else on_mapper h (simple_notify n) s)"

fun ss_run :: "mapper_config \<Rightarrow> simple_op list \<Rightarrow> simple_splitter \<Rightarrow> simple_splitter option" where
  "ss_run cfg [] s = Some s"
| "ss_run cfg (op # ops) s = (case ss_step cfg op s of None \<Rightarrow> None | Some s' \<Rightarrow> ss_run cfg ops s')"

definition start_simple :: "u64 \<Rightarrow> simple_splitter" where
  "start_simple timeout = new_simple_splitter timeout
     \<lparr>pw_clients = [], pw_counters = init_counters, pw_strategies = 0, pw_out = []\<rparr>"

text \<open>The one step that may go wrong.\<close>

fun takes_over :: "simple_op \<Rightarrow> simple_splitter \<Rightarrow> bool" where
  "takes_over (So_login j d) s \<longleftrightarrow> admissible j d s \<and> d_routeId d = -1 \<and> takes_idle s"
| "takes_over _ s \<longleftrightarrow> False"

section \<open>Each step\<close>

definition simple_ok :: "simple_splitter \<Rightarrow> bool" where
  "simple_ok s \<longleftrightarrow> core s \<and> released_ok s"

lemma start_simple_ok: "simple_ok (start_simple timeout)"
  by (simp add: simple_ok_def start_simple_def new_simple_splitter_def core_def released_ok_def)

lemma released_dom:
  "released_ok s \<Longrightarrow> ss_released s' = ss_released s \<Longrightarrow> ss_upstreams s' = ss_upstreams s \<Longrightarrow>
   dom (smappers s') = dom (smappers s) \<Longrightarrow> released_ok s'"
  unfolding released_ok_def by (metis domIff)

lemma enter_ok:
  assumes "simple_ok s" and "admissible j d s"
  shows "simple_ok (enter_miner j d s) \<and> miners (enter_miner j d s) j = Some d \<and>
    takes_idle (enter_miner j d s) = takes_idle s"
proof -
  have M: "miners (enter_miner j d s) = (miners s)(j \<mapsto> d)" by (simp add: enter_miner_def update_conv')
  have e: "ss_heap (enter_miner j d s) = ss_heap s" "ss_upstreams (enter_miner j d s) = ss_upstreams s"
      "ss_idles (enter_miner j d s) = ss_idles s" "ss_released (enter_miner j d s) = ss_released s"
      "ss_sequence (enter_miner j d s) = ss_sequence s"
    by (simp_all add: enter_miner_def)
  have c: "core s" and r: "released_ok s" using assms by (simp_all add: simple_ok_def)
  have "core (enter_miner j d s)"
    by (rule coreI, unfold e M)
      (use core_om [OF c] core_up [OF c] core_fine [OF c] core_idle [OF c] core_miner [OF c] assms(2) in
        \<open>auto simp: admissible_def split: if_splits\<close>)
  then show ?thesis using r M e by (simp add: simple_ok_def released_ok_def takes_idle_def)
qed

lemma call_ok:
  assumes "simple_ok s" and "smappers s h \<noteq> None"
    and "\<And>m w. keeps m (fst (f m w)) \<and> pw_clients (snd (f m w)) = pw_clients w"
  shows "\<exists>s'. on_mapper h f s = Some s' \<and> simple_ok s' \<and> ss_upstreams s' = ss_upstreams s \<and>
    dom (smappers s') = dom (smappers s)"
  using on_mapper_keeps [of s h f, OF _ assms(2,3)] assms(1) released_dom [of s] unfolding simple_ok_def by metis

lemma calls_ok:
  assumes f: "\<And>m w. keeps m (fst (f m w)) \<and> pw_clients (snd (f m w)) = pw_clients w"
  shows "simple_ok s \<Longrightarrow> \<forall>h \<in> set hs. smappers s h \<noteq> None \<Longrightarrow>
    \<exists>s'. each_at (\<lambda>h. on_mapper h f) hs s = Some s' \<and> simple_ok s'"
proof (induction hs arbitrary: s)
  case (Cons h hs)
  have "smappers s h \<noteq> None" using Cons.prems(2) by simp
  then obtain s1 where s1: "on_mapper h f s = Some s1" "simple_ok s1" "dom (smappers s1) = dom (smappers s)"
    using call_ok [OF Cons.prems(1) _ f] by blast
  have "\<forall>h \<in> set hs. smappers s1 h \<noteq> None" using Cons.prems(2) s1(3) by (auto simp: dom_def)
  then show ?case using Cons.IH [OF s1(2)] s1(1) by auto
qed simp

lemma clear_jobs_clients [simp]: "pw_clients (clear_jobs i w) = pw_clients w"
  by (simp add: clear_jobs_def split: option.split)

lemma notify_keeps: "keeps m (fst (simple_notify n m w)) \<and> pw_clients (snd (simple_notify n m w)) = pw_clients w"
  by (cases n) (auto simp: keeps_def sm_onActive_def sm_onPause_def sm_onJob_def sm_setJob_def sm_onResultAccepted_def Let_def
      split: option.splits prod.splits if_splits)

lemma reload_keeps: "keeps m (fst (sm_reload m w)) \<and> pw_clients (snd (sm_reload m w)) = pw_clients w"
  by (auto simp: sm_reload_def keeps_def new_strategy_def Let_def split: option.splits prod.splits)

lemma upstream_lives:
  assumes "core s" and "h \<in> snd ` set (ss_upstreams s)"
  shows "smappers s h \<noteq> None"
proof -
  obtain k where "(k, h) \<in> set (ss_upstreams s)" using assms(2) by auto
  then have "supstreams s k = Some h" using om_ok_distinct [OF core_om(1) [OF assms(1)]] by simp
  then show ?thesis using core_up [OF assms(1), of k h] by simp
qed

lemma config_ok:
  assumes "simple_ok s"
  shows "\<exists>s'. ss_onConfigChanged timeout changed s = Some s' \<and> simple_ok s'"
proof -
  define s1 where "s1 = s\<lparr>ss_reuseTimeout := timeout\<rparr>"
  have ok: "simple_ok s1" using assms by (simp add: simple_ok_def core_def released_ok_def s1_def)
  then have "\<forall>h \<in> set (map snd (ss_upstreams s1)). smappers s1 h \<noteq> None"
    using upstream_lives [of s1] by (simp add: simple_ok_def)
  then show ?thesis
    using calls_ok [OF reload_keeps ok] ok by (simp add: ss_onConfigChanged_def s1_def [symmetric])
qed

lemma find_clients: "sm_findJob now i m w = (e, w1) \<Longrightarrow> pw_clients w1 = pw_clients w"
  by (auto simp: sm_findJob_def split: if_splits option.splits)

lemma simple_submit_clients: "sm_submit now seq q m w = (err, w1) \<Longrightarrow> pw_clients w1 = pw_clients w"
  by (auto simp: sm_submit_def Let_def find_clients split: if_splits option.splits prod.splits)

lemma submit_ok:
  assumes ok: "simple_ok s" and j: "miners s j = Some d"
  shows "\<exists>err s'. ss_submit now seq j q s = Some (err, s') \<and> simple_ok s'"
proof (cases "d_mapperId d < 0 \<or> d_routeId d \<noteq> -1")
  case True
  then show ?thesis using ok j by (simp add: ss_submit_def client_of_def)
next
  case False
  then have "\<not> unserved d" by (auto simp: unserved_def)
  then obtain k m where k: "served_by k d" "supstreams s k = Some k" "smappers s k = Some m"
    using core_miner [of s j d] ok j False by (auto simp: has_upstream_def simple_ok_def)
  obtain err w where w: "sm_submit now seq q m (ss_world s) = (err, w)" by (metis surj_pair)
  have d: "client_of j (ss_world s) = d" "nat (d_mapperId d) = k" using j k(1) by (simp_all add: client_of_def served_by_def)
  have "core (s\<lparr>ss_world := w\<rparr>)"
    by (rule core_same [of s]) (use ok simple_submit_clients [OF w] in \<open>simp_all add: simple_ok_def\<close>)
  then have "simple_ok (s\<lparr>ss_world := w\<rparr>)" using ok by (simp add: simple_ok_def released_ok_def)
  then show ?thesis using False d k w by (simp add: ss_submit_def)
qed

lemma simple_step_ok:
  assumes ok: "simple_ok s"
  shows "if takes_over op s then ss_step cfg op s = None else (\<exists>s'. ss_step cfg op s = Some s' \<and> simple_ok s')"
proof (cases op)
  case (So_login j d)
  show ?thesis
  proof (cases "admissible j d s")
    case True
    note e = enter_ok [OF ok True]
    have "d_routeId d = -1 \<longrightarrow> unserved d" using True by (simp add: admissible_def)
    then show ?thesis
      using simple_login_result [of "enter_miner j d s" j d cfg] e True by (simp add: So_login simple_ok_def split: if_splits)
  qed (simp add: So_login ok)
next
  case (So_close j)
  then show ?thesis
    using close_result [of s j] ok by (cases "miners s j") (auto simp: simple_ok_def)
next
  case (So_submit now seq j q)
  show ?thesis
  proof (cases "miners s j")
    case (Some d)
    obtain err s' where "ss_submit now seq j q s = Some (err, s')" "simple_ok s'"
      using submit_ok [OF ok Some, of now seq q] by auto
    then show ?thesis by (simp add: So_submit Some)
  qed (simp add: So_submit ok)
next
  case (So_tick now)
  then show ?thesis using tick_ok [of s now] ok by (simp add: simple_ok_def)
next
  case (So_config timeout changed)
  then show ?thesis using config_ok [OF ok, of timeout changed] by simp
next
  case (So_notice h n)
  then show ?thesis using call_ok [OF ok _ notify_keeps] ok by (cases "smappers s h") fastforce+
qed

lemma simple_run_ok: "ss_run cfg ops s = Some s' \<Longrightarrow> simple_ok s \<Longrightarrow> simple_ok s'"
proof (induction ops arbitrary: s)
  case (Cons op ops)
  obtain s1 where s1: "ss_step cfg op s = Some s1" "ss_run cfg ops s1 = Some s'"
    using Cons.prems(1) by (auto split: option.splits)
  have "simple_ok s1" using simple_step_ok [OF Cons.prems(2), of op cfg] s1(1) by (simp split: if_splits)
  then show ?case using Cons.IH s1(2) by simp
qed simp

section \<open>The properties\<close>

definition simple_cfg :: mapper_config where
  "simple_cfg = \<lparr>mc_algoExt = False, mc_donateLevel = 0, mc_firstDonation = 0, mc_retarget = \<lambda>a b c. a\<rparr>"



abbreviation two_ops :: "simple_op list" where
  "two_ops \<equiv> [So_login 1 new_downstream, So_login 2 new_downstream]"

lemma two_run:
  "\<exists>s d e. ss_run simple_cfg two_ops (start_simple 60) = Some s \<and> miners s 1 = Some d \<and> miners s 2 = Some e \<and>
    d_routeId d = -1 \<and> d_routeId e = -1 \<and> 0 \<le> d_mapperId d \<and> 0 \<le> d_mapperId e"
  by (simp add: start_simple_def new_simple_splitter_def admissible_def unserved_def new_downstream_def enter_miner_def
      ss_login_def client_of_def new_simple_def new_strategy_def on_mapper_def sm_add_def sm_connect_def on_client_def
      pw_do_def Let_def)



text \<open>Two miners of the simple splitter never share an upstream, and the mapper of a miner is a living
  one that is registered under its number and knows that miner.\<close>

theorem simple_upstreams_private:
  assumes "ss_run cfg ops (start_simple timeout) = Some s"
    and "miners s j = Some d" and "d_routeId d = -1" and "0 \<le> d_mapperId d"
  shows "(\<exists>m. supstreams s (nat (d_mapperId d)) = Some (nat (d_mapperId d)) \<and>
      smappers s (nat (d_mapperId d)) = Some m \<and> sm_miner m = Some j) \<and>
    (\<forall>k e. miners s k = Some e \<and> d_routeId e = -1 \<and> d_mapperId e = d_mapperId d \<longrightarrow> k = j)"
proof -
  have c: "core s" using simple_run_ok [OF assms(1) start_simple_ok] by (simp add: simple_ok_def)
  have up: "\<exists>m. supstreams s (nat (d_mapperId d)) = Some (nat (d_mapperId d)) \<and>
      smappers s (nat (d_mapperId d)) = Some m \<and> sm_miner m = Some k"
    if k: "miners s k = Some e" "d_routeId e = -1" "d_mapperId e = d_mapperId d" for k e
  proof -
    have "\<not> unserved e" using k(3) assms(4) by (simp add: unserved_def)
    then show ?thesis using core_miner [OF c k(1,2)] k(3) by (auto simp: has_upstream_def served_by_def)
  qed
  show ?thesis using up [OF assms(2,3)] up by fastforce
qed

theorem simple_upstreams_private_witness:
  "\<exists>s d e. ss_run simple_cfg two_ops (start_simple 60) = Some s \<and> miners s 1 = Some d \<and> miners s 2 = Some e \<and>
    d_mapperId d \<noteq> d_mapperId e"
proof -
  obtain s d e where s: "ss_run simple_cfg two_ops (start_simple 60) = Some s" "miners s 1 = Some d" "miners s 2 = Some e"
      "d_routeId d = -1" "d_routeId e = -1" "0 \<le> d_mapperId d"
    using two_run by blast
  have "d_mapperId e \<noteq> d_mapperId d" using simple_upstreams_private [OF s(1,2,4,6)] s(3,5) by fastforce
  then show ?thesis using s by metis
qed

end
