(* ===== verification/Workers.thy ===== *)
theory Workers
  imports Miner Mapper
begin

text \<open>
  Statistics of named workers: \<open>proxy/TickingCounter.h\<close>, \<open>proxy/workers/Worker.cpp\<close> and
  \<open>proxy/workers/Workers.cpp\<close>. A miner is the record of theory \<open>Miner\<close>; its address, which that record
  leaves out, is an argument. \<open>std::map\<close>s that are never iterated are maps in insertion order. The quotient
  of doubles that a hashrate is stays a pair of its operands.
\<close>

section \<open>Counters with a history\<close>

record ticking_counter =
  tc_tickTime :: nat
  tc_data :: "u32 list"
  tc_pending :: u32

definition new_counter :: "nat \<Rightarrow> ticking_counter" where
  "new_counter tickTime = \<lparr>tc_tickTime = tickTime, tc_data = [], tc_pending = 0\<rparr>"

text \<open>\<open>calc\<close>: \<open>None\<close> is 0.0, and \<open>Some (a, b)\<close> the quotient \<open>a / b\<close>. The loop starts at element \<open>from\<close>.\<close>

definition tc_count :: "nat \<Rightarrow> ticking_counter \<Rightarrow> u64" where
  "tc_count seconds c =
     (let ticks = seconds div tc_tickTime c; size = length (tc_data c);
          from = (if size < ticks then 0 else size - ticks)
      in fold (\<lambda>x count. count + ucast x) (drop from (tc_data c)) 0)"

definition calc :: "nat \<Rightarrow> ticking_counter \<Rightarrow> (u64 \<times> nat) option" where
  "calc seconds c =
     (if tc_count seconds c = 0 then None
      else Some (tc_count seconds c, seconds div tc_tickTime c * tc_tickTime c * 1000))"

text \<open>The argument of \<open>add\<close> is a \<open>uint32_t\<close>: a difficulty of 64 bits is cut.\<close>

definition tc_add :: "u64 \<Rightarrow> ticking_counter \<Rightarrow> ticking_counter" where
  "tc_add n c = c\<lparr>tc_pending := tc_pending c + ucast n\<rparr>"

definition tc_tick :: "ticking_counter \<Rightarrow> ticking_counter" where
  "tc_tick c = c\<lparr>tc_data := tc_data c @ [tc_pending c], tc_pending := 0\<rparr>"

section \<open>A worker\<close>

record worker =
  wk_id :: nat
  wk_ip :: string
  wk_name :: string
  wk_hashrate :: ticking_counter
  wk_accepted :: u64
  wk_connections :: u64
  wk_hashes :: u64
  wk_invalid :: u64
  wk_lastHash :: u64
  wk_rejected :: u64

definition new_worker :: "nat \<Rightarrow> string \<Rightarrow> string \<Rightarrow> worker" where
  "new_worker i name ip =
     \<lparr>wk_id = i, wk_ip = ip, wk_name = name, wk_hashrate = new_counter 4, wk_accepted = 0, wk_connections = 1,
      wk_hashes = 0, wk_invalid = 0, wk_lastHash = 0, wk_rejected = 0\<rparr>"

definition worker_add :: "u64 \<Rightarrow> u64 \<Rightarrow> worker \<Rightarrow> worker" where
  "worker_add now diff w =
     w\<lparr>wk_accepted := wk_accepted w + 1, wk_hashes := wk_hashes w + diff,
       wk_hashrate := tc_add diff (wk_hashrate w), wk_lastHash := now\<rparr>"

definition worker_tick :: "worker \<Rightarrow> worker" where
  "worker_tick w = w\<lparr>wk_hashrate := tc_tick (wk_hashrate w)\<rparr>"

definition worker_connect :: "string \<Rightarrow> worker \<Rightarrow> worker" where
  "worker_connect ip w = w\<lparr>wk_ip := ip, wk_connections := wk_connections w + 1\<rparr>"

definition worker_reject :: "bool \<Rightarrow> worker \<Rightarrow> worker" where
  "worker_reject invalid w =
     (if invalid then w\<lparr>wk_invalid := wk_invalid w + 1\<rparr> else w\<lparr>wk_rejected := wk_rejected w + 1\<rparr>)"

definition worker_remove :: "worker \<Rightarrow> worker" where
  "worker_remove w = w\<lparr>wk_connections := wk_connections w - 1\<rparr>"

section \<open>Modes\<close>

datatype worker_mode = Mode_None | Mode_RigID | Mode_User | Mode_Password | Mode_Agent | Mode_IP

definition modes :: "(worker_mode \<times> string) list" where
  "modes = [(Mode_None, ''none''), (Mode_RigID, ''rig_id''), (Mode_User, ''user''), (Mode_Password, ''password''),
     (Mode_Agent, ''agent''), (Mode_IP, ''ip'')]"

definition modeName :: "worker_mode \<Rightarrow> string" where
  "modeName m = the (map_of modes m)"

definition parseMode :: "string \<Rightarrow> worker_mode" where
  "parseMode s = (case find (\<lambda>(m, n). strcase_eq s n) modes of None \<Rightarrow> Mode_RigID | Some (m, n) \<Rightarrow> m)"

fun modeToJSON :: "worker_mode \<Rightarrow> json" where
  "modeToJSON Mode_None = JBool False"
| "modeToJSON Mode_RigID = JBool True"
| "modeToJSON m = JStr (modeName m)"

lemma parseMode_modeName: "parseMode (modeName m) = m"
  by (cases m) (simp_all add: parseMode_def modeName_def modes_def strcase_eq_def to_lower_def of_char_def)

section \<open>The table of workers\<close>

record workers =
  ws_mode :: worker_mode
  ws_miners :: "(int, nat) umap"
  ws_map :: "(string, nat) umap"
  ws_workers :: "worker list"

definition new_workers :: "worker_mode \<Rightarrow> workers" where
  "new_workers mode = \<lparr>ws_mode = mode, ws_miners = [], ws_map = [], ws_workers = []\<rparr>"

definition ws_isEnabled :: "workers \<Rightarrow> bool" where
  "ws_isEnabled ws \<longleftrightarrow> ws_mode ws \<noteq> Mode_None"

definition indexByMiner :: "miner \<Rightarrow> workers \<Rightarrow> nat option" where
  "indexByMiner m ws =
     (if m_mapperId m = -1 then None
      else (case map_of (ws_miners ws) (m_id m) of None \<Rightarrow> None
            | Some i \<Rightarrow> if i < length (ws_workers ws) then Some i else None))"

fun nameByMiner :: "worker_mode \<Rightarrow> miner \<Rightarrow> string \<Rightarrow> cstr" where
  "nameByMiner Mode_RigID m ip = rigId_safe m"
| "nameByMiner Mode_User m ip = m_user m"
| "nameByMiner Mode_Password m ip = m_password m"
| "nameByMiner Mode_Agent m ip = m_agent m"
| "nameByMiner Mode_IP m ip = Some ip"
| "nameByMiner Mode_None m ip = None"

definition worker_key :: "worker_mode \<Rightarrow> miner \<Rightarrow> string \<Rightarrow> string" where
  "worker_key mode m ip = (case nameByMiner mode m ip of None \<Rightarrow> ''unknown'' | Some n \<Rightarrow> n)"

text \<open>An index that is out of range, which the code would read through, leaves the list as it is here.\<close>

definition on_worker :: "nat \<Rightarrow> (worker \<Rightarrow> worker) \<Rightarrow> workers \<Rightarrow> workers" where
  "on_worker i f ws = ws\<lparr>ws_workers := (ws_workers ws)[i := f (ws_workers ws ! i)]\<rparr>"

definition ws_add :: "miner \<Rightarrow> string \<Rightarrow> workers \<Rightarrow> nat \<times> workers" where
  "ws_add m ip ws =
     (let key = worker_key (ws_mode ws) m ip;
          (i, ws1) = (case map_of (ws_map ws) key of
             None \<Rightarrow> (length (ws_workers ws),
               ws\<lparr>ws_map := AList.update key (length (ws_workers ws)) (ws_map ws),
                  ws_workers := ws_workers ws @ [new_worker (length (ws_workers ws)) key ip]\<rparr>)
           | Some i \<Rightarrow> (i, on_worker i (worker_connect ip) ws))
      in (i, ws1\<lparr>ws_miners := AList.update (m_id m) i (ws_miners ws1)\<rparr>))"

text \<open>\<open>miners\<close>: the connected miners with their addresses, in the order of the controller's map.\<close>

definition ws_reset :: "(miner \<times> string) list \<Rightarrow> workers \<Rightarrow> workers" where
  "ws_reset miners ws =
     (let ws1 = ws\<lparr>ws_miners := [], ws_map := [], ws_workers := []\<rparr>
      in if ws_mode ws = Mode_None then ws1
         else fold (\<lambda>(m, ip) ws. if m_mapperId m \<noteq> -1 then snd (ws_add m ip ws) else ws) miners ws1)"

definition ws_tick :: "u64 \<Rightarrow> workers \<Rightarrow> workers" where
  "ws_tick ticks ws = (if ticks mod 4 \<noteq> 0 then ws else ws\<lparr>ws_workers := map worker_tick (ws_workers ws)\<rparr>)"

definition ws_onConfigChanged :: "worker_mode \<Rightarrow> (miner \<times> string) list \<Rightarrow> workers \<Rightarrow> workers" where
  "ws_onConfigChanged mode miners ws =
     (if ws_mode ws = mode then ws else ws_reset miners (ws\<lparr>ws_mode := mode\<rparr>))"

section \<open>Events\<close>

record accept_event =
  ae_miner :: "miner option"
  ae_result :: submit_result
  ae_customDiff :: bool
  ae_donate :: bool
  ae_error :: cstr
  ae_mapperId :: nat

definition ae_isRejected :: "accept_event \<Rightarrow> bool" where
  "ae_isRejected e \<longleftrightarrow> ae_error e \<noteq> None"

definition statsDiff :: "accept_event \<Rightarrow> u64" where
  "statsDiff e =
     (if sr_minerDiff (ae_result e) \<noteq> 0 then sr_minerDiff (ae_result e)
      else (case ae_miner e of
              Some m \<Rightarrow> if m_customDiff m \<noteq> 0 then min (m_customDiff m) (sr_diff (ae_result e)) else sr_diff (ae_result e)
            | None \<Rightarrow> sr_diff (ae_result e)))"

definition ws_accept :: "bool \<Rightarrow> u64 \<Rightarrow> accept_event \<Rightarrow> workers \<Rightarrow> workers" where
  "ws_accept customDiffStats now e ws =
     (if ae_customDiff e \<and> \<not> customDiffStats then ws
      else
        (case ae_miner e of None \<Rightarrow> ws
         | Some m \<Rightarrow>
             (case indexByMiner m ws of None \<Rightarrow> ws
              | Some i \<Rightarrow>
                  if submit_isAmbiguous (ae_result e) then ws
                  else if \<not> ae_isRejected e
                  then on_worker i (worker_add now (if customDiffStats then statsDiff e else sr_diff (ae_result e))) ws
                  else on_worker i (worker_reject False) ws)))"

definition ws_login :: "miner \<Rightarrow> string \<Rightarrow> workers \<Rightarrow> workers" where
  "ws_login m ip ws = (if m_routeId m \<noteq> -1 then ws else snd (ws_add m ip ws))"

definition ws_reject :: "miner \<Rightarrow> workers \<Rightarrow> workers" where
  "ws_reject m ws =
     (if m_routeId m \<noteq> -1 then ws
      else (case indexByMiner m ws of None \<Rightarrow> ws | Some i \<Rightarrow> on_worker i (worker_reject True) ws))"

definition ws_remove :: "miner \<Rightarrow> workers \<Rightarrow> workers" where
  "ws_remove m ws =
     (if m_routeId m \<noteq> -1 then ws
      else (case indexByMiner m ws of None \<Rightarrow> ws | Some i \<Rightarrow> on_worker i worker_remove ws))"

datatype worker_event = Ev_login miner string | Ev_close miner | Ev_accept accept_event | Ev_submit miner

definition ws_onEvent :: "bool \<Rightarrow> u64 \<Rightarrow> worker_event \<Rightarrow> workers \<Rightarrow> workers" where
  "ws_onEvent customDiffStats now e ws =
     (if \<not> ws_isEnabled ws then ws
      else (case e of
              Ev_login m ip \<Rightarrow> ws_login m ip ws
            | Ev_close m \<Rightarrow> ws_remove m ws
            | Ev_accept a \<Rightarrow> ws_accept customDiffStats now a ws
            | Ev_submit m \<Rightarrow> ws))"

definition ws_onRejectedEvent :: "bool \<Rightarrow> u64 \<Rightarrow> worker_event \<Rightarrow> workers \<Rightarrow> workers" where
  "ws_onRejectedEvent customDiffStats now e ws =
     (if \<not> ws_isEnabled ws then ws
      else (case e of
              Ev_submit m \<Rightarrow> ws_reject m ws
            | Ev_accept a \<Rightarrow> ws_accept customDiffStats now a ws
            | _ \<Rightarrow> ws))"

end
