(* ===== verification/Workers_Props.thy ===== *)
theory Workers_Props
  imports Workers Miner_Claims
begin

text \<open>
  The table of workers stays in step with the connected miners, and what a hashrate counts.
\<close>

section \<open>The invariant\<close>

text \<open>The miners that the table counts: logged in and served by the splitter of the proxy.\<close>

definition counted :: "miner \<Rightarrow> bool" where
  "counted m \<longleftrightarrow> m_routeId m = -1 \<and> m_mapperId m \<noteq> -1"

definition members :: "worker_mode \<Rightarrow> (int \<rightharpoonup> miner \<times> string) \<Rightarrow> string \<Rightarrow> int set" where
  "members mode M name = {i. \<exists>m ip. M i = Some (m, ip) \<and> worker_key mode m ip = name}"

definition names_ok :: "workers \<Rightarrow> bool" where
  "names_ok ws \<longleftrightarrow>
     (\<forall>k i. map_of (ws_map ws) k = Some i \<longrightarrow> i < length (ws_workers ws) \<and> wk_name (ws_workers ws ! i) = k) \<and>
     (\<forall>i < length (ws_workers ws). map_of (ws_map ws) (wk_name (ws_workers ws ! i)) = Some i)"

definition table_counts :: "workers \<Rightarrow> (int \<rightharpoonup> miner \<times> string) \<Rightarrow> bool" where
  "table_counts ws M \<longleftrightarrow> finite (dom M) \<and> names_ok ws \<and>
     (\<forall>i m ip. M i = Some (m, ip) \<longrightarrow> m_id m = i \<and> counted m \<and>
        map_of (ws_miners ws) i = map_of (ws_map ws) (worker_key (ws_mode ws) m ip) \<and>
        map_of (ws_map ws) (worker_key (ws_mode ws) m ip) \<noteq> None) \<and>
     (\<forall>i < length (ws_workers ws). wk_connections (ws_workers ws ! i) =
        of_nat (card (members (ws_mode ws) M (wk_name (ws_workers ws ! i)))))"

lemma table_countsD:
  assumes "table_counts ws M"
  shows table_finite: "finite (dom M)" and table_names: "names_ok ws"
    and table_member: "M i = Some (m, ip) \<Longrightarrow> m_id m = i \<and> counted m \<and>
        map_of (ws_miners ws) i = map_of (ws_map ws) (worker_key (ws_mode ws) m ip) \<and>
        map_of (ws_map ws) (worker_key (ws_mode ws) m ip) \<noteq> None"
    and table_connections: "k < length (ws_workers ws) \<Longrightarrow> wk_connections (ws_workers ws ! k) =
        of_nat (card (members (ws_mode ws) M (wk_name (ws_workers ws ! k))))"
  using assms unfolding table_counts_def by simp_all






lemma on_worker_simps [simp]:
  "ws_mode (on_worker i f ws) = ws_mode ws" "ws_miners (on_worker i f ws) = ws_miners ws"
  "ws_map (on_worker i f ws) = ws_map ws" "length (ws_workers (on_worker i f ws)) = length (ws_workers ws)"
  "j < length (ws_workers ws) \<Longrightarrow> ws_workers (on_worker i f ws) ! j = (if i = j then f (ws_workers ws ! j) else ws_workers ws ! j)"
  by (auto simp: on_worker_def nth_list_update)

lemma worker_simps [simp]:
  "wk_name (worker_add now d w) = wk_name w" "wk_connections (worker_add now d w) = wk_connections w"
  "wk_name (worker_reject b w) = wk_name w" "wk_connections (worker_reject b w) = wk_connections w"
  "wk_name (worker_tick w) = wk_name w" "wk_connections (worker_tick w) = wk_connections w"
  "wk_name (worker_connect ip w) = wk_name w" "wk_connections (worker_connect ip w) = wk_connections w + 1"
  "wk_name (worker_remove w) = wk_name w" "wk_connections (worker_remove w) = wk_connections w - 1"
  "wk_name (new_worker i n ip) = n" "wk_connections (new_worker i n ip) = 1"
  by (simp_all add: worker_add_def worker_reject_def worker_tick_def worker_connect_def worker_remove_def new_worker_def)







lemma table_counts_empty: "table_counts (ws\<lparr>ws_miners := [], ws_map := [], ws_workers := []\<rparr>) Map.empty"
  by (simp add: table_counts_def names_ok_def)




section \<open>Runs\<close>

text \<open>
  The table together with the connected miners. A miner connects with a new identifier; at its login the
  listeners before the table have given it a mapper, of the donation splitter or of the splitter of the
  proxy; an event of a share may name any miner.
\<close>

record worker_world =
  ww_workers :: workers
  ww_miners :: "(int, miner \<times> string) omap"

datatype worker_op =
    Wo_connect miner string
  | Wo_login miner
  | Wo_close int
  | Wo_accept bool u64 accept_event
  | Wo_invalid bool u64 miner
  | Wo_tick u64
  | Wo_mode worker_mode

abbreviation connected :: "worker_world \<Rightarrow> int \<rightharpoonup> miner \<times> string" where
  "connected s \<equiv> map_of (ww_miners s)"

fun ww_step :: "worker_op \<Rightarrow> worker_world \<Rightarrow> worker_world" where
  "ww_step (Wo_connect m ip) s =
     (if connected s (m_id m) = None \<and> m_routeId m = -1 \<and> m_mapperId m = -1
      then s\<lparr>ww_miners := om_put (m_id m) (m, ip) (ww_miners s)\<rparr> else s)"
| "ww_step (Wo_login m) s =
     (case connected s (m_id m) of None \<Rightarrow> s
      | Some (m0, ip) \<Rightarrow>
          if m_mapperId m0 = -1 \<and> m_mapperId m \<noteq> -1
          then s\<lparr>ww_miners := om_put (m_id m) (m, ip) (ww_miners s),
                 ww_workers := ws_onEvent False 0 (Ev_login m ip) (ww_workers s)\<rparr>
          else s)"
| "ww_step (Wo_close i) s =
     (case connected s i of None \<Rightarrow> s
      | Some (m, ip) \<Rightarrow> s\<lparr>ww_miners := AList.delete i (ww_miners s),
                            ww_workers := ws_onEvent False 0 (Ev_close m) (ww_workers s)\<rparr>)"
| "ww_step (Wo_accept b now e) s =
     s\<lparr>ww_workers := (if ae_isRejected e then ws_onRejectedEvent b now (Ev_accept e) (ww_workers s)
                      else ws_onEvent b now (Ev_accept e) (ww_workers s))\<rparr>"
| "ww_step (Wo_invalid b now m) s = s\<lparr>ww_workers := ws_onRejectedEvent b now (Ev_submit m) (ww_workers s)\<rparr>"
| "ww_step (Wo_tick ticks) s = s\<lparr>ww_workers := ws_tick ticks (ww_workers s)\<rparr>"
| "ww_step (Wo_mode mode) s = s\<lparr>ww_workers := ws_onConfigChanged mode (map snd (ww_miners s)) (ww_workers s)\<rparr>"

definition start_world :: "worker_mode \<Rightarrow> worker_world" where
  "start_world mode = \<lparr>ww_workers = new_workers mode, ww_miners = []\<rparr>"

definition ww_run :: "worker_mode \<Rightarrow> worker_op list \<Rightarrow> worker_world" where
  "ww_run mode ops = fold ww_step ops (start_world mode)"


definition counted_miners :: "worker_world \<Rightarrow> int \<rightharpoonup> miner \<times> string" where
  "counted_miners s = (\<lambda>i. case connected s i of None \<Rightarrow> None | Some (m, ip) \<Rightarrow> if counted m then Some (m, ip) else None)"

definition world_ok :: "worker_world \<Rightarrow> bool" where
  "world_ok s \<longleftrightarrow> om_ok (ww_miners s) \<and> (\<forall>i m ip. connected s i = Some (m, ip) \<longrightarrow> m_id m = i \<and> (m_mapperId m = -1 \<longrightarrow> m_routeId m = -1)) \<and>
     (if ws_isEnabled (ww_workers s) then table_counts (ww_workers s) (counted_miners s) else ws_workers (ww_workers s) = [])"


lemma world_okD:
  assumes "world_ok s"
  shows "om_ok (ww_miners s)"
    and "connected s i = Some (m, ip) \<Longrightarrow> m_id m = i \<and> (m_mapperId m = -1 \<longrightarrow> m_routeId m = -1)"
    and "ws_isEnabled (ww_workers s) \<Longrightarrow> table_counts (ww_workers s) (counted_miners s)"
    and "\<not> ws_isEnabled (ww_workers s) \<Longrightarrow> ws_workers (ww_workers s) = []"
  using assms unfolding world_ok_def by (simp_all split: if_splits) blast+



lemma event_same [simp]:
  "ws_mode (ws_accept b now e ws) = ws_mode ws" "length (ws_workers (ws_accept b now e ws)) = length (ws_workers ws)"
  "ws_mode (ws_reject m ws) = ws_mode ws" "length (ws_workers (ws_reject m ws)) = length (ws_workers ws)"
  "ws_mode (ws_tick ticks ws) = ws_mode ws" "length (ws_workers (ws_tick ticks ws)) = length (ws_workers ws)"
  "ws_mode (ws_remove m ws) = ws_mode ws" "length (ws_workers (ws_remove m ws)) = length (ws_workers ws)"
  by (auto simp: ws_accept_def ws_reject_def ws_tick_def ws_remove_def split: option.splits)

lemma counted_id: "world_ok s \<Longrightarrow> counted_miners s i = Some (m, ip) \<Longrightarrow> m_id m = i \<and> counted m"
  using world_okD(2) [of s i m ip] by (auto simp: counted_miners_def split: option.splits if_splits)









section \<open>Hashrates\<close>

text \<open>What was added between two ticks, oldest first; the sums that \<open>calc\<close> means to add up.\<close>

definition exact_count :: "nat \<Rightarrow> nat \<Rightarrow> u64 list list \<Rightarrow> nat" where
  "exact_count seconds tickTime rounds =
     (let ticks = seconds div tickTime
      in sum_list (map (\<lambda>ds. sum_list (map unat ds)) (drop (length rounds - ticks) rounds)))"

definition counter_rounds :: "nat \<Rightarrow> u64 list list \<Rightarrow> ticking_counter" where
  "counter_rounds tickTime rounds = fold (\<lambda>ds c. tc_tick (fold tc_add ds c)) rounds (new_counter tickTime)"

lemma fold_tc_add:
  "tc_pending (fold tc_add ds c) = tc_pending c + of_nat (sum_list (map unat ds)) \<and>
   tc_data (fold tc_add ds c) = tc_data c \<and> tc_tickTime (fold tc_add ds c) = tc_tickTime c"
  by (induction ds arbitrary: c) (simp_all add: tc_add_def algebra_simps)

lemma counter_rounds_data:
  "tc_data (counter_rounds t rounds) = map (\<lambda>ds. of_nat (sum_list (map unat ds))) rounds \<and>
   tc_tickTime (counter_rounds t rounds) = t \<and> tc_pending (counter_rounds t rounds) = 0"
proof (induction rounds rule: rev_induct)
  case Nil
  then show ?case by (simp add: counter_rounds_def new_counter_def)
next
  case (snoc ds rounds)
  then show ?case using fold_tc_add [of ds "counter_rounds t rounds"]
    by (simp add: counter_rounds_def tc_tick_def)
qed

lemma fold_count: "fold (\<lambda>x count. count + ucast (x :: u32)) xs (n :: u64) = n + of_nat (sum_list (map unat xs))"
  by (induction xs arbitrary: n) (simp_all add: algebra_simps)

lemma counter_count:
  "tc_count seconds (counter_rounds t rounds) =
     of_nat (sum_list (map (\<lambda>ds. sum_list (map unat ds) mod 2 ^ 32) (drop (length rounds - seconds div t) rounds)))"
proof -
  have "(if n < k then 0 else n - k) = n - k" for n k :: nat by simp
  then show ?thesis
    using counter_rounds_data [of t rounds] by (simp add: tc_count_def fold_count drop_map Let_def comp_def unat_of_nat)
qed

text \<open>A difficulty of \<open>2 ^ 32\<close> is counted as nothing.\<close>

lemma large_share_lost: "tc_count 60 (counter_rounds 4 [[4294967296]]) = 0"
  by (simp add: counter_count)

section \<open>The properties\<close>

text \<open>C38: a hashrate adds up what was added during the last rounds of its period, exactly as long as no round
  adds up to more than 32 bits hold and the period to more than 64 bits hold.\<close>

theorem hashrate_exact:
  assumes "\<forall>ds \<in> set rounds. sum_list (map unat ds) < 2 ^ 32" and "exact_count seconds t rounds < 2 ^ 64"
  shows "unat (tc_count seconds (counter_rounds t rounds)) = exact_count seconds t rounds"
proof -
  have "map (\<lambda>ds. sum_list (map unat ds) mod 2 ^ 32) (drop n rounds) = map (\<lambda>ds. sum_list (map unat ds)) (drop n rounds)" for n
    using assms(1) by (auto dest: in_set_dropD)
  then have "tc_count seconds (counter_rounds t rounds) = of_nat (exact_count seconds t rounds)"
    by (simp only: counter_count exact_count_def Let_def)
  then show ?thesis using assms(2) by (simp add: unat_of_nat)
qed

theorem hashrate_exact_witness:
  "unat (tc_count 8 (counter_rounds 4 [[100, 200], [5], [300, 1]])) = 306"
  using hashrate_exact [of "[[100, 200], [5], [300, 1]]" 8 4] by (simp add: exact_count_def)

definition sample_miner :: "int \<Rightarrow> string \<Rightarrow> int \<Rightarrow> int \<Rightarrow> miner" where
  "sample_miner i user route mp = (new_miner sample_env sample_world False 3333 False ''00'' 1 0)
     \<lparr>m_id := i, m_user := Some user, m_routeId := route, m_mapperId := mp\<rparr>"

lemma sample_miner_simps [simp]:
  "m_id (sample_miner i u r p) = i" "m_user (sample_miner i u r p) = Some u"
  "m_routeId (sample_miner i u r p) = r" "m_mapperId (sample_miner i u r p) = p"
  by (simp_all add: sample_miner_def)






text \<open>
  A donor that is connected while the table is rebuilt is counted for good: rebuilding counts every miner
  with a mapper, and its close is ignored.
\<close>

lemma rebuilt_table_keeps_donor:
  "let s = ww_run Mode_User [Wo_connect (sample_miner 1 ''a'' (-1) (-1)) ''ip'', Wo_login (sample_miner 1 ''a'' 0 0),
       Wo_mode Mode_IP, Wo_close 1] in
   ww_miners s = [] \<and> map wk_connections (ws_workers (ww_workers s)) = [1]"
  by (simp add: ww_run_def start_world_def new_workers_def ws_onEvent_def ws_isEnabled_def ws_login_def ws_add_def
      worker_key_def on_worker_def ws_remove_def indexByMiner_def ws_onConfigChanged_def ws_reset_def Let_def)

end
