(* ===== verification/Url.thy ===== *)
theory Url
  imports Prelude
begin

text \<open>
  The functions of the C library on strings that the proxy reads numbers and addresses with, and the
  addresses of pools (\<open>base/net/stratum/Url.cpp\<close>), built with \<open>XMRIG_FEATURE_HTTP\<close>. A C string is
  the list of its characters before the NUL.
\<close>

section \<open>C strings\<close>

text \<open>\<open>strchr\<close>, \<open>strrchr\<close> and \<open>strstr\<close>: the suffix that starts at the match.\<close>

definition strchr :: "string \<Rightarrow> char \<Rightarrow> string option" where
  "strchr s c = (case dropWhile (\<lambda>x. x \<noteq> c) s of [] \<Rightarrow> None | t \<Rightarrow> Some t)"

definition strrchr :: "string \<Rightarrow> char \<Rightarrow> string option" where
  "strrchr s c = (if c \<in> set s then Some (c # rev (takeWhile (\<lambda>x. x \<noteq> c) (rev s))) else None)"

fun strstr :: "string \<Rightarrow> string \<Rightarrow> string option" where
  "strstr s p =
     (if take (length p) s = p then Some s else (case s of [] \<Rightarrow> None | x # s' \<Rightarrow> strstr s' p))"

text \<open>\<open>strncasecmp(s, p, strlen(p)) == 0\<close>.\<close>

definition has_prefix_nocase :: "string \<Rightarrow> string \<Rightarrow> bool" where
  "has_prefix_nocase p s \<longleftrightarrow> map to_lower (take (length p) s) = map to_lower p"

definition is_space :: "char \<Rightarrow> bool" where
  "is_space c \<longleftrightarrow> (let n = of_char c :: nat in 9 \<le> n \<and> n \<le> 13 \<or> n = 32)"

definition is_digit :: "char \<Rightarrow> bool" where
  "is_digit c \<longleftrightarrow> (let n = of_char c :: nat in 48 \<le> n \<and> n \<le> 57)"

definition digits_value :: "string \<Rightarrow> nat" where
  "digits_value ds = foldl (\<lambda>v c. 10 * v + (of_char c - 48)) 0 ds"

text \<open>The sign and the digits that \<open>strtol\<close> and \<open>strtoul\<close> read in base 10.\<close>

definition scan_number :: "string \<Rightarrow> bool \<times> nat" where
  "scan_number s =
     (let s1 = dropWhile is_space s;
          (neg, s2) = (case s1 of [] \<Rightarrow> (False, [])
            | c # r \<Rightarrow> if c = CHR ''-'' then (True, r) else if c = CHR ''+'' then (False, r) else (False, s1))
      in (neg, digits_value (takeWhile is_digit s2)))"

definition strtoul :: "string \<Rightarrow> u64" where
  "strtoul s =
     (case scan_number s of (neg, n) \<Rightarrow>
        if 2 ^ 64 \<le> n then - 1 else if neg then - of_nat n else of_nat n)"

definition strtol :: "string \<Rightarrow> int" where
  "strtol s =
     (case scan_number s of (neg, n) \<Rightarrow>
        if neg then max (- int n) (- (2 ^ 63)) else min (int n) (2 ^ 63 - 1))"

text \<open>Decimal digits, as \<open>printf\<close> writes them.\<close>

fun dec :: "nat \<Rightarrow> string" where
  "dec n = (if n < 10 then [char_of (48 + n)] else dec (n div 10) @ [char_of (48 + n mod 10)])"

declare dec.simps [simp del] strstr.simps [simp del]

section \<open>Facts on them\<close>

lemma is_digit_char: "d < 10 \<Longrightarrow> is_digit (char_of (48 + d :: nat))"
  by (simp add: is_digit_def Let_def of_char_of)

lemma digits_value_snoc: "digits_value (ds @ [c]) = 10 * digits_value ds + (of_char c - 48)"
  by (simp add: digits_value_def)

lemma dec_digits: "list_all is_digit (dec n)"
proof (induction n rule: dec.induct)
  case (1 n)
  then show ?case by (cases "n < 10") (simp_all add: dec.simps [of n] is_digit_char)
qed

lemma dec_value: "digits_value (dec n) = n"
proof (induction n rule: dec.induct)
  case (1 n)
  have c: "of_char (char_of (48 + d)) = 48 + (d :: nat)" if "d < 10" for d using that by (simp add: of_char_of)
  show ?case
  proof (cases "n < 10")
    case True
    then show ?thesis using c [of n] by (simp add: dec.simps [of n] digits_value_def)
  next
    case False
    then have "digits_value (dec n) = 10 * (n div 10) + n mod 10"
      using 1 c [of "n mod 10"] by (simp add: dec.simps [of n] digits_value_snoc)
    then show ?thesis by presburger
  qed
qed

lemma dec_nonempty: "dec n \<noteq> []"
  by (subst dec.simps) simp

lemma digit_no_sign: "is_digit c \<Longrightarrow> \<not> is_space c \<and> c \<noteq> CHR ''-'' \<and> c \<noteq> CHR ''+''"
  by (auto simp: is_digit_def is_space_def Let_def)

lemma scan_dec: "scan_number (dec n) = (False, n)"
proof -
  obtain c cs where d: "dec n = c # cs" using dec_nonempty by (cases "dec n") auto
  have "is_digit c" "\<forall>x \<in> set (c # cs). is_digit x" using dec_digits [of n] by (auto simp: d list_all_iff)
  then have "is_digit c" "takeWhile is_digit (c # cs) = c # cs" by (simp_all only: takeWhile_eq_all_conv)
  moreover have "digits_value (c # cs) = n" using dec_value [of n] by (simp add: d)
  moreover have "scan_number (dec n) = (False, digits_value (takeWhile is_digit (c # cs)))" if "is_digit c"
    using digit_no_sign [OF that] by (simp add: scan_number_def d Let_def del: takeWhile.simps)
  ultimately show ?thesis by (simp only:)
qed

lemma strtol_dec: "n < 2 ^ 63 \<Longrightarrow> strtol (dec n) = int n"
  by (simp add: strtol_def scan_dec)

lemma strtoul_dec: "n < 2 ^ 64 \<Longrightarrow> strtoul (dec n) = of_nat n"
  by (simp add: strtoul_def scan_dec)

lemma strchr_append: "c \<notin> set a \<Longrightarrow> strchr (a @ c # b) c = Some (c # b)"
proof -
  assume "c \<notin> set a"
  then have "dropWhile (\<lambda>x. x \<noteq> c) (a @ c # b) = c # b" by (subst dropWhile_append2) auto
  then show ?thesis by (simp add: strchr_def)
qed

lemma strrchr_append: "c \<notin> set b \<Longrightarrow> strrchr (a @ c # b) c = Some (c # b)"
proof -
  assume c: "c \<notin> set b"
  have "takeWhile (\<lambda>x. x \<noteq> c) (rev b @ c # rev a) = rev b" using c by (subst takeWhile_append2) auto
  then show ?thesis by (simp add: strrchr_def)
qed

lemma strstr_None: "x \<notin> set s \<Longrightarrow> x \<in> set p \<Longrightarrow> strstr s p = None"
proof (induction s)
  case Nil
  then show ?case by (auto simp: strstr.simps [of "[]"])
next
  case (Cons y s)
  have "take (length p) (y # s) \<noteq> p" using Cons.prems set_take_subset [of "length p" "y # s"] by (metis subsetD)
  then show ?case using Cons by (simp add: strstr.simps [of "y # s"])
qed

section \<open>Addresses\<close>

datatype scheme = UNSPECIFIED | STRATUM | DAEMON | SOCKS5

record url =
  u_tls :: bool
  u_scheme :: scheme
  u_host :: cstr
  u_url :: cstr
  u_port :: u16

definition empty_url :: url where
  "empty_url = \<lparr>u_tls = False, u_scheme = UNSPECIFIED, u_host = None, u_url = None, u_port = 3333\<rparr>"

definition url_isValid :: "url \<Rightarrow> bool" where
  "url_isValid u \<longleftrightarrow> u_host u \<noteq> None \<and> 0 < u_port u"

definition make_url :: "string \<Rightarrow> u16 \<Rightarrow> bool \<Rightarrow> scheme \<Rightarrow> url" where
  "make_url host port tls sch =
     \<lparr>u_tls = tls, u_scheme = sch, u_host = Some host, u_url = Some (host @ '':'' @ dec (unat port)), u_port = port\<rparr>"

definition url_isEqual :: "url \<Rightarrow> url \<Rightarrow> bool" where
  "url_isEqual a b \<longleftrightarrow> u_tls a = u_tls b \<and> u_scheme a = u_scheme b \<and> u_host a = u_host b \<and> u_url a = u_url b \<and>
     u_port a = u_port b"

text \<open>The cast to \<open>uint16_t\<close> cuts a port that is too large.\<close>

definition port_of :: "string \<Rightarrow> u16" where
  "port_of s = of_int (strtol s)"

text \<open>\<open>addr\<close> starts with a bracket; \<open>end\<close> is the closing one.\<close>

definition parseIPv6 :: "string \<Rightarrow> url \<Rightarrow> bool \<times> url" where
  "parseIPv6 addr u =
     (case strchr addr (CHR '']'') of None \<Rightarrow> (False, u)
      | Some rest \<Rightarrow>
          (case strchr rest (CHR '':'') of None \<Rightarrow> (False, u)
           | Some port \<Rightarrow>
               (True, u\<lparr>u_host := Some (drop 1 (take (length addr - length rest) addr)), u_port := port_of (tl port)\<rparr>)))"

definition url_scheme :: "string \<Rightarrow> (scheme \<times> bool) option" where
  "url_scheme s =
     (if has_prefix_nocase ''stratum+tcp://'' s then Some (STRATUM, False)
      else if has_prefix_nocase ''stratum+ssl://'' s then Some (STRATUM, True)
      else if has_prefix_nocase ''socks5://'' s then Some (SOCKS5, False)
      else if has_prefix_nocase ''daemon+https://'' s then Some (DAEMON, True)
      else if has_prefix_nocase ''daemon+http://'' s then Some (DAEMON, False)
      else None)"

definition url_rest :: "string \<Rightarrow> string \<Rightarrow> url \<Rightarrow> bool \<times> url" where
  "url_rest s base u =
     (if base = [] \<or> hd base = CHR ''/'' then (False, u)
      else
        let u1 = u\<lparr>u_url := Some s\<rparr> in
        if hd base = CHR ''['' then parseIPv6 base u1
        else
          (case strchr base (CHR '':'') of
             None \<Rightarrow> (True, u1\<lparr>u_host := Some base\<rparr>)
           | Some port \<Rightarrow>
               (True, u1\<lparr>u_host := Some (take (length base - length port) base), u_port := port_of (tl port)\<rparr>)))"

definition url_parse :: "cstr \<Rightarrow> url \<Rightarrow> bool \<times> url" where
  "url_parse text u =
     (case text of None \<Rightarrow> (False, u)
      | Some s \<Rightarrow>
          (case strstr s ''://'' of
             None \<Rightarrow> url_rest s s u
           | Some p \<Rightarrow>
               (case url_scheme s of None \<Rightarrow> (False, u)
                | Some (sch, tls) \<Rightarrow> url_rest s (drop 3 p) (u\<lparr>u_scheme := sch, u_tls := tls\<rparr>))))"

definition new_url :: "cstr \<Rightarrow> url" where
  "new_url s = snd (url_parse s empty_url)"

lemma dec_no_char: "\<not> is_digit c \<Longrightarrow> c \<notin> set (dec n)"
  using dec_digits [of n] by (auto simp: list_all_iff)

lemma strstr_scheme:
  "CHR '':'' \<notin> set a \<Longrightarrow> CHR '':'' \<notin> set b \<Longrightarrow> b \<noteq> [] \<Longrightarrow> hd b \<noteq> CHR ''/'' \<Longrightarrow> strstr (a @ CHR '':'' # b) ''://'' = None"
proof (induction a)
  case Nil
  have "strstr b ''://'' = None" by (rule strstr_None [of "CHR '':''"]) (use Nil in auto)
  then show ?case using Nil by (cases b) (auto simp: strstr.simps [of "_ # _"])
next
  case (Cons x a)
  then show ?case by (auto simp: strstr.simps [of "_ # _"])
qed

text \<open>The text of an address made of a host and a port is read back.\<close>

lemma url_text_roundtrip:
  assumes host: "CHR '':'' \<notin> set host" "host \<noteq> []" "hd host \<noteq> CHR ''/''" "hd host \<noteq> CHR ''[''"
  shows "url_parse (u_url (make_url host port tls sch)) empty_url =
    (True, make_url host port False UNSPECIFIED)"
proof -
  let ?d = "dec (unat port)"
  obtain c cs where h: "host = c # cs" using host(2) by (cases host) auto
  have ns: "CHR ''/'' \<notin> set ?d" by (rule dec_no_char) (simp add: is_digit_def Let_def of_char_def)
  have p: "strchr (host @ '':'' @ ?d) (CHR '':'') = Some ('':'' @ ?d)"
    using strchr_append [OF host(1), of ?d] by simp
  have "unat port < 2 ^ 63" using unsigned_less [where 'a = nat and w = port] by simp
  then have port: "port_of ?d = port" by (simp add: port_of_def strtol_dec)
  have "url_rest (host @ '':'' @ ?d) (host @ '':'' @ ?d) empty_url = (True, make_url host port False UNSPECIFIED)"
    using p host(3,4) port by (simp add: url_rest_def h make_url_def empty_url_def)
  moreover have "strstr (host @ '':'' @ ?d) ''://'' = None"
    using strstr_scheme [OF host(1), of ?d] dec_no_char [of "CHR '':''" "unat port"] dec_nonempty [of "unat port"] ns
    by (cases ?d) (auto simp: is_digit_def Let_def of_char_def)
  ultimately show ?thesis by (simp add: url_parse_def make_url_def)
qed

end
