(* ===== verification/Pool.thy ===== *)
theory Pool
  imports Url Json Algorithm
begin

text \<open>
  The configured pools: \<open>base/crypto/Coin.cpp\<close>, \<open>base/net/stratum/ProxyUrl.cpp\<close>,
  \<open>base/net/stratum/Pool.cpp\<close> and \<open>base/net/stratum/Pools.cpp\<close>, as the proxy is built: with HTTP and TLS,
  without the benchmark, and with \<open>XMRIG_PROXY_PROJECT\<close>. A \<open>std::bitset\<close> of flags is one field per flag.
\<close>

section \<open>Coins\<close>

datatype coin = COIN_INVALID | MONERO | SUMO | ARQMA | GRAFT | RAVEN | WOWNERO | ZEPHYR | TOWNFORGE | YADA

record coin_info =
  ci_algorithm :: algo
  ci_code :: string
  ci_name :: string
  ci_target :: u64
  ci_units :: u64

definition coinInfo :: "(coin \<times> coin_info) list" where
  "coinInfo =
     [(MONERO, \<lparr>ci_algorithm = RX_0, ci_code = ''XMR'', ci_name = ''Monero'', ci_target = 120, ci_units = 1000000000000\<rparr>),
      (SUMO, \<lparr>ci_algorithm = CN_R, ci_code = ''SUMO'', ci_name = ''Sumokoin'', ci_target = 240, ci_units = 1000000000\<rparr>),
      (ARQMA, \<lparr>ci_algorithm = RX_ARQ, ci_code = ''ARQ'', ci_name = ''ArQmA'', ci_target = 120, ci_units = 1000000000\<rparr>),
      (GRAFT, \<lparr>ci_algorithm = RX_GRAFT, ci_code = ''GRFT'', ci_name = ''Graft'', ci_target = 120, ci_units = 10000000000\<rparr>),
      (RAVEN, \<lparr>ci_algorithm = KAWPOW_RVN, ci_code = ''RVN'', ci_name = ''Ravencoin'', ci_target = 0, ci_units = 0\<rparr>),
      (WOWNERO, \<lparr>ci_algorithm = RX_WOW, ci_code = ''WOW'', ci_name = ''Wownero'', ci_target = 300, ci_units = 100000000000\<rparr>),
      (ZEPHYR, \<lparr>ci_algorithm = RX_0, ci_code = ''ZEPH'', ci_name = ''Zephyr'', ci_target = 120, ci_units = 1000000000000\<rparr>),
      (TOWNFORGE, \<lparr>ci_algorithm = RX_0, ci_code = ''Townforge'', ci_name = ''Townforge'', ci_target = 30, ci_units = 100000000\<rparr>),
      (YADA, \<lparr>ci_algorithm = RX_YADA, ci_code = ''YDA'', ci_name = ''YadaCoin'', ci_target = 120, ci_units = 100000000\<rparr>)]"

definition coin_isValid :: "coin \<Rightarrow> bool" where
  "coin_isValid c \<longleftrightarrow> c \<noteq> COIN_INVALID"

definition coin_code :: "coin \<Rightarrow> cstr" where
  "coin_code c = map_option ci_code (map_of coinInfo c)"

definition coin_name :: "coin \<Rightarrow> cstr" where
  "coin_name c = map_option ci_name (map_of coinInfo c)"

definition coin_algorithm :: "coin \<Rightarrow> algo" where
  "coin_algorithm c = (case map_of coinInfo c of None \<Rightarrow> ALGO_INVALID | Some i \<Rightarrow> ci_algorithm i)"

definition coin_target :: "coin \<Rightarrow> u64" where
  "coin_target c = (case map_of coinInfo c of None \<Rightarrow> 0 | Some i \<Rightarrow> ci_target i)"

definition coin_units :: "coin \<Rightarrow> u64" where
  "coin_units c = (case map_of coinInfo c of None \<Rightarrow> 0 | Some i \<Rightarrow> ci_units i)"

definition coin_parse :: "cstr \<Rightarrow> coin" where
  "coin_parse name =
     (case name of None \<Rightarrow> COIN_INVALID
      | Some s \<Rightarrow>
          if length s < 3 then COIN_INVALID
          else (case find (\<lambda>(c, i). strcase_eq s (ci_code i) \<or> strcase_eq s (ci_name i)) coinInfo of
                  None \<Rightarrow> COIN_INVALID | Some (c, i) \<Rightarrow> c))"

definition coin_of_json :: "json \<Rightarrow> coin" where
  "coin_of_json v =
     (case v of JStr s \<Rightarrow> coin_parse (Some (c_string s))
      | JObj ms \<Rightarrow> if ms = [] then COIN_INVALID else coin_parse (getString v ''coin'' None)
      | _ \<Rightarrow> COIN_INVALID)"

definition str_json :: "cstr \<Rightarrow> json" where
  "str_json s = (case s of None \<Rightarrow> JNull | Some t \<Rightarrow> JStr t)"

definition coin_toJSON :: "coin \<Rightarrow> json" where
  "coin_toJSON c = (if coin_isValid c then str_json (coin_code c) else JNull)"

definition algo_toJSON :: "algo \<Rightarrow> json" where
  "algo_toJSON a = (if algo_isValid a then JStr (algo_name a) else JNull)"

section \<open>SOCKS5 proxies\<close>

definition proxy_isValid :: "url \<Rightarrow> bool" where
  "proxy_isValid u \<longleftrightarrow> 0 < u_port u \<and> (u_scheme u = UNSPECIFIED \<or> u_scheme u = SOCKS5)"

definition no_proxy :: url where
  "no_proxy = empty_url\<lparr>u_port := 0\<rparr>"

definition proxy_of_json :: "json \<Rightarrow> url" where
  "proxy_of_json v =
     (case v of JStr s \<Rightarrow> snd (url_parse (Some (c_string s)) no_proxy)
      | JInt i \<Rightarrow> if 0 \<le> i \<and> i < 2 ^ 32 then no_proxy\<lparr>u_port := of_int i\<rparr> else no_proxy
      | _ \<Rightarrow> no_proxy)"

definition proxy_host :: "url \<Rightarrow> cstr" where
  "proxy_host u = (if u_host u = None \<and> proxy_isValid u then Some ''127.0.0.1'' else u_host u)"

definition proxy_toJSON :: "url \<Rightarrow> json" where
  "proxy_toJSON u =
     (if \<not> proxy_isValid u then JNull
      else if u_host u \<noteq> None then str_json (u_url u) else JInt (uint (u_port u)))"

section \<open>A pool\<close>

datatype pool_mode = MODE_POOL | MODE_DAEMON | MODE_SELF_SELECT | MODE_AUTO_ETH

record pool =
  p_algorithm :: algo
  p_submitToOrigin :: bool
  p_coin :: coin
  p_keepAlive :: int
  p_mode :: pool_mode
  p_proxy :: url
  p_flagEnabled :: bool
  p_flagNicehash :: bool
  p_flagTls :: bool
  p_flagSni :: bool
  p_fingerprint :: cstr
  p_password :: cstr
  p_rigId :: cstr
  p_user :: cstr
  p_spendSecretKey :: cstr
  p_pollInterval :: u64
  p_jobTimeout :: u64
  p_daemon :: url
  p_url :: url
  p_zmqPort :: int

definition kKeepAliveTimeout :: int where "kKeepAliveTimeout = 60"
definition kDefaultPollInterval :: u64 where "kDefaultPollInterval = 1000"
definition kDefaultJobTimeout :: u64 where "kDefaultJobTimeout = 15000"
definition kNicehashHost :: string where "kNicehashHost = ''nicehash.com''"

definition empty_pool :: pool where
  "empty_pool =
     \<lparr>p_algorithm = ALGO_INVALID, p_submitToOrigin = False, p_coin = COIN_INVALID, p_keepAlive = 0, p_mode = MODE_POOL,
      p_proxy = no_proxy, p_flagEnabled = False, p_flagNicehash = False, p_flagTls = False, p_flagSni = False,
      p_fingerprint = None, p_password = None, p_rigId = None, p_user = None, p_spendSecretKey = None,
      p_pollInterval = kDefaultPollInterval, p_jobTimeout = kDefaultJobTimeout, p_daemon = empty_url,
      p_url = empty_url, p_zmqPort = -1\<rparr>"

definition pool_of_url :: "cstr \<Rightarrow> pool" where
  "pool_of_url u = empty_pool\<lparr>p_flagEnabled := True, p_url := new_url u\<rparr>"

definition contains :: "cstr \<Rightarrow> string \<Rightarrow> bool" where
  "contains s t = (case s of None \<Rightarrow> False | Some u \<Rightarrow> strstr u t \<noteq> None)"

definition pool_of_host :: "string \<Rightarrow> u16 \<Rightarrow> cstr \<Rightarrow> cstr \<Rightarrow> cstr \<Rightarrow> int \<Rightarrow> bool \<Rightarrow> bool \<Rightarrow> pool_mode \<Rightarrow> pool" where
  "pool_of_host host port user password spendKey keepAlive nicehash tls mode =
     empty_pool\<lparr>p_keepAlive := keepAlive, p_mode := mode, p_flagEnabled := True, p_password := password, p_user := user,
       p_spendSecretKey := spendKey, p_url := make_url host port tls UNSPECIFIED,
       p_flagNicehash := nicehash \<or> contains (Some host) kNicehashHost, p_flagTls := tls\<rparr>"

definition setKeepAlive :: "json \<Rightarrow> pool \<Rightarrow> pool" where
  "setKeepAlive v p =
     (case v of
        JInt i \<Rightarrow> if - (2 ^ 31) \<le> i \<and> i < 2 ^ 31 then p\<lparr>p_keepAlive := (if 0 \<le> i then i else 0)\<rparr> else p
      | JBool b \<Rightarrow> p\<lparr>p_keepAlive := (if b then kKeepAliveTimeout else 0)\<rparr>
      | _ \<Rightarrow> p)"

definition pool_isValid :: "pool \<Rightarrow> bool" where
  "pool_isValid p \<longleftrightarrow> url_isValid (p_url p)"

definition pool_isTLS :: "pool \<Rightarrow> bool" where
  "pool_isTLS p \<longleftrightarrow> p_flagTls p \<or> u_tls (p_url p)"

definition pool_of_json :: "json \<Rightarrow> pool" where
  "pool_of_json obj =
     (let p = pool_of_url (getString obj ''url'' None) in
      if \<not> pool_isValid p then p
      else
        let p1 = p\<lparr>p_user := getString obj ''user'' None,
                   p_spendSecretKey := getString obj ''spend-secret-key'' None,
                   p_password := getString obj ''pass'' None,
                   p_rigId := getString obj ''rig-id'' None,
                   p_fingerprint := getString obj ''tls-fingerprint'' None,
                   p_pollInterval := getUint64 obj ''daemon-poll-interval'' kDefaultPollInterval,
                   p_jobTimeout := getUint64 obj ''daemon-job-timeout'' kDefaultJobTimeout,
                   p_algorithm := algo_parse (getString obj ''algo'' None),
                   p_coin := coin_parse (getString obj ''coin'' None),
                   p_daemon := new_url (getString obj ''self-select'' None),
                   p_proxy := proxy_of_json (getValue obj ''socks5''),
                   p_zmqPort := getInt obj ''daemon-zmq-port'' (p_zmqPort p),
                   p_flagEnabled := getBool obj ''enabled'' True,
                   p_flagNicehash := getBool obj ''nicehash'' False \<or> contains (u_host (p_url p)) kNicehashHost,
                   p_flagTls := getBool obj ''tls'' False \<or> u_tls (p_url p),
                   p_flagSni := getBool obj ''sni'' False\<rparr>;
            p2 = setKeepAlive (getValue obj ''keepalive'') p1
        in if url_isValid (p_daemon p2)
           then p2\<lparr>p_mode := MODE_SELF_SELECT, p_submitToOrigin := getBool obj ''submit-to-origin'' (p_submitToOrigin p2)\<rparr>
           else if getBool obj ''daemon'' False then p2\<lparr>p_mode := MODE_DAEMON\<rparr>
           else p2)"

definition pool_isEnabled :: "pool \<Rightarrow> bool" where
  "pool_isEnabled p \<longleftrightarrow> p_flagEnabled p \<and> pool_isValid p"

definition pool_password :: "pool \<Rightarrow> string" where
  "pool_password p = (case p_password p of None \<Rightarrow> ''x'' | Some s \<Rightarrow> s)"

definition pool_user :: "pool \<Rightarrow> string" where
  "pool_user p = (case p_user p of None \<Rightarrow> ''x'' | Some s \<Rightarrow> s)"

definition pool_toJSON :: "pool \<Rightarrow> json" where
  "pool_toJSON p = JObj
     ([(''algo'', algo_toJSON (p_algorithm p)), (''coin'', coin_toJSON (p_coin p)), (''url'', str_json (u_url (p_url p))),
       (''user'', str_json (p_user p))] @
      (if str_is_empty (p_spendSecretKey p) then [] else [(''spend-secret-key'', str_json (p_spendSecretKey p))]) @
      (if p_mode p \<noteq> MODE_DAEMON
       then [(''pass'', str_json (p_password p)), (''rig-id'', str_json (p_rigId p)),
             (''keepalive'', if p_keepAlive p = 0 \<or> p_keepAlive p = kKeepAliveTimeout then JBool (0 < p_keepAlive p)
                             else JInt (p_keepAlive p))]
       else []) @
      [(''enabled'', JBool (p_flagEnabled p)), (''tls'', JBool (pool_isTLS p)), (''sni'', JBool (p_flagSni p)),
       (''tls-fingerprint'', str_json (p_fingerprint p)), (''daemon'', JBool (p_mode p = MODE_DAEMON)),
       (''socks5'', proxy_toJSON (p_proxy p))] @
      (if p_mode p = MODE_DAEMON
       then [(''daemon-poll-interval'', JInt (uint (p_pollInterval p))), (''daemon-job-timeout'', JInt (uint (p_jobTimeout p))),
             (''daemon-zmq-port'', JInt (p_zmqPort p))]
       else [(''self-select'', str_json (u_url (p_daemon p))), (''submit-to-origin'', JBool (p_submitToOrigin p))]))"

section \<open>The list of pools\<close>

datatype proxy_donate = PROXY_DONATE_NONE | PROXY_DONATE_AUTO | PROXY_DONATE_ALWAYS

record pools =
  pl_donateLevel :: int
  pl_retries :: int
  pl_retryPause :: int
  pl_proxyDonate :: proxy_donate
  pl_data :: "pool list"

definition kDefaultDonateLevel :: int where "kDefaultDonateLevel = 0"
definition kMinimumDonateLevel :: int where "kMinimumDonateLevel = 0"

definition empty_pools :: pools where
  "empty_pools = \<lparr>pl_donateLevel = kDefaultDonateLevel, pl_retries = 2, pl_retryPause = 1,
     pl_proxyDonate = PROXY_DONATE_AUTO, pl_data = []\<rparr>"

definition pools_isEqual :: "pools \<Rightarrow> pools \<Rightarrow> bool" where
  "pools_isEqual a b \<longleftrightarrow> length (pl_data a) = length (pl_data b) \<and> pl_retries a = pl_retries b \<and>
     pl_retryPause a = pl_retryPause b \<and>
     list_all2 (\<lambda>p q. p\<lparr>p_submitToOrigin := False\<rparr> = q\<lparr>p_submitToOrigin := False\<rparr>) (pl_data a) (pl_data b)"

definition pools_active :: "pools \<Rightarrow> nat" where
  "pools_active ps = length (filter pool_isEnabled (pl_data ps))"

datatype strategy_choice = Single_pool pool int int | Failover_pools "pool list" int int

definition createStrategy :: "pools \<Rightarrow> strategy_choice" where
  "createStrategy ps =
     (case (if pools_active ps = 1 then find pool_isEnabled (pl_data ps) else None) of
        Some p \<Rightarrow> Single_pool p (pl_retryPause ps) (pl_retries ps)
      | None \<Rightarrow> Failover_pools (filter pool_isEnabled (pl_data ps)) (pl_retryPause ps) (pl_retries ps))"

definition setDonateLevel :: "int \<Rightarrow> pools \<Rightarrow> pools" where
  "setDonateLevel level ps =
     (if kMinimumDonateLevel \<le> level \<and> level \<le> 99 then ps\<lparr>pl_donateLevel := level\<rparr> else ps)"

definition setProxyDonate :: "int \<Rightarrow> pools \<Rightarrow> pools" where
  "setProxyDonate v ps =
     (if v = 0 then ps\<lparr>pl_proxyDonate := PROXY_DONATE_NONE\<rparr>
      else if v = 1 then ps\<lparr>pl_proxyDonate := PROXY_DONATE_AUTO\<rparr>
      else if v = 2 then ps\<lparr>pl_proxyDonate := PROXY_DONATE_ALWAYS\<rparr> else ps)"

definition setRetries :: "int \<Rightarrow> pools \<Rightarrow> pools" where
  "setRetries r ps = (if 0 < r \<and> r \<le> 1000 then ps\<lparr>pl_retries := r\<rparr> else ps)"

definition setRetryPause :: "int \<Rightarrow> pools \<Rightarrow> pools" where
  "setRetryPause r ps = (if 0 < r \<and> r \<le> 3600 then ps\<lparr>pl_retryPause := r\<rparr> else ps)"

fun is_object :: "json \<Rightarrow> bool" where
  "is_object (JObj ms) = True"
| "is_object _ = False"

definition load_pools :: "json list \<Rightarrow> pool list" where
  "load_pools vs = filter pool_isValid (map pool_of_json (filter is_object vs))"

definition pools_load :: "json \<Rightarrow> pools \<Rightarrow> pools" where
  "pools_load reader ps =
     (let ps1 = ps\<lparr>pl_data := []\<rparr> in
      case getArray reader ''pools'' of
        JArr vs \<Rightarrow>
          setRetryPause (getInt reader ''retry-pause'' 0)
            (setRetries (getInt reader ''retries'' 0)
              (setProxyDonate (getInt reader ''donate-over-proxy'' 1)
                (setDonateLevel (getInt reader ''donate-level'' kDefaultDonateLevel)
                  (ps1\<lparr>pl_data := load_pools vs\<rparr>))))
      | _ \<Rightarrow> ps1)"

definition donate_number :: "proxy_donate \<Rightarrow> int" where
  "donate_number d = (case d of PROXY_DONATE_NONE \<Rightarrow> 0 | PROXY_DONATE_AUTO \<Rightarrow> 1 | PROXY_DONATE_ALWAYS \<Rightarrow> 2)"

definition pools_toJSON :: "pools \<Rightarrow> json" where
  "pools_toJSON ps = JObj
     [(''donate-level'', JInt (pl_donateLevel ps)), (''donate-over-proxy'', JInt (donate_number (pl_proxyDonate ps))),
      (''pools'', JArr (map pool_toJSON (pl_data ps))), (''retries'', JInt (pl_retries ps)),
      (''retry-pause'', JInt (pl_retryPause ps))]"

end
