(* ===== verification/Pool_Props.thy ===== *)
theory Pool_Props
  imports Pool
begin

text \<open>
  What a configuration that the proxy writes says: reading it gives the pools back, but for the fields that
  have no meaning in the mode of a pool and are not written.
\<close>

section \<open>Reading what was written\<close>


text \<open>A string that came from a document has no NUL in it.\<close>

definition plain :: "cstr \<Rightarrow> bool" where
  "plain s \<longleftrightarrow> (\<forall>t. s = Some t \<longrightarrow> c_string t = t)"

lemma plain_getString [simp]: "plain (getString obj k None)"
  by (auto simp: plain_def getString_def c_string_def split: option.splits json.splits if_splits)
    (auto dest: set_takeWhileD)

















lemma c_string_idem [simp]: "c_string (c_string s) = c_string s"
  by (simp add: c_string_def)


section \<open>A pool that is written and read\<close>

text \<open>What is left of a pool: the fields that \<open>toJSON\<close> does not write get their defaults.\<close>

definition written :: "pool \<Rightarrow> pool" where
  "written p =
     (let q = p\<lparr>p_flagNicehash := contains (u_host (p_url p)) kNicehashHost, p_flagTls := pool_isTLS p,
                p_spendSecretKey := (if p_spendSecretKey p = Some [] then None else p_spendSecretKey p),
                p_proxy := (if proxy_isValid (p_proxy p) then p_proxy p else no_proxy),
                p_daemon := (if u_url (p_daemon p) = None then empty_url else p_daemon p)\<rparr>
      in if p_mode p = MODE_DAEMON
         then q\<lparr>p_password := None, p_rigId := None, p_keepAlive := 0, p_daemon := empty_url\<rparr>
         else q\<lparr>p_pollInterval := kDefaultPollInterval, p_jobTimeout := kDefaultJobTimeout, p_zmqPort := -1\<rparr>)"





text \<open>The members of the object, looked up one by one.\<close>

definition members :: "pool \<Rightarrow> (string \<times> json) list" where
  "members p = (case pool_toJSON p of JObj ms \<Rightarrow> ms | _ \<Rightarrow> [])"


lemma members_lookup [simp]:
  "map_of (members p) ''algo'' = Some (algo_toJSON (p_algorithm p))"
  "map_of (members p) ''coin'' = Some (coin_toJSON (p_coin p))"
  "map_of (members p) ''url'' = Some (str_json (u_url (p_url p)))"
  "map_of (members p) ''user'' = Some (str_json (p_user p))"
  "map_of (members p) ''spend-secret-key'' = (if str_is_empty (p_spendSecretKey p) then None else Some (str_json (p_spendSecretKey p)))"
  "map_of (members p) ''pass'' = (if p_mode p = MODE_DAEMON then None else Some (str_json (p_password p)))"
  "map_of (members p) ''rig-id'' = (if p_mode p = MODE_DAEMON then None else Some (str_json (p_rigId p)))"
  "map_of (members p) ''keepalive'' = (if p_mode p = MODE_DAEMON then None else Some
     (if p_keepAlive p = 0 \<or> p_keepAlive p = kKeepAliveTimeout then JBool (0 < p_keepAlive p) else JInt (p_keepAlive p)))"
  "map_of (members p) ''enabled'' = Some (JBool (p_flagEnabled p))"
  "map_of (members p) ''tls'' = Some (JBool (pool_isTLS p))"
  "map_of (members p) ''sni'' = Some (JBool (p_flagSni p))"
  "map_of (members p) ''tls-fingerprint'' = Some (str_json (p_fingerprint p))"
  "map_of (members p) ''daemon'' = Some (JBool (p_mode p = MODE_DAEMON))"
  "map_of (members p) ''socks5'' = Some (proxy_toJSON (p_proxy p))"
  "map_of (members p) ''nicehash'' = None"
  "map_of (members p) ''daemon-poll-interval'' = (if p_mode p = MODE_DAEMON then Some (JInt (uint (p_pollInterval p))) else None)"
  "map_of (members p) ''daemon-job-timeout'' = (if p_mode p = MODE_DAEMON then Some (JInt (uint (p_jobTimeout p))) else None)"
  "map_of (members p) ''daemon-zmq-port'' = (if p_mode p = MODE_DAEMON then Some (JInt (p_zmqPort p)) else None)"
  "map_of (members p) ''self-select'' = (if p_mode p = MODE_DAEMON then None else Some (str_json (u_url (p_daemon p))))"
  "map_of (members p) ''submit-to-origin'' = (if p_mode p = MODE_DAEMON then None else Some (JBool (p_submitToOrigin p)))"
  by (cases "p_mode p = MODE_DAEMON"; cases "str_is_empty (p_spendSecretKey p)"; simp add: members_def pool_toJSON_def)+




section \<open>The configuration\<close>

lemma written_isValid [simp]: "pool_isValid (written p) = pool_isValid p"
  by (simp add: written_def pool_isValid_def Let_def)








end
