(* ===== verification/Login_Rules.thy ===== *)
theory Login_Rules
  imports Miner_Claims Pool Mapper
begin

text \<open>
  What happens to a login before a splitter sees it: the password (\<open>proxy/Login.cpp\<close>), miners that bring
  their own donation pool (\<open>proxy/splitters/donate\<close>) and the difficulty a miner asks for
  (\<open>proxy/CustomDiff.cpp\<close>). The listeners are those of \<open>Proxy\<close>'s constructor, in its order. The build
  defines \<open>NDEBUG\<close>. The clients of the donation splitter are known by the number of their mapper; calls on
  them are outputs. Log lines are left out.
\<close>

section \<open>The event\<close>

record login_event =
  le_loginId :: int
  le_params :: json
  le_rejected :: bool

section \<open>The password\<close>

definition login_reject :: "miner_env \<Rightarrow> string \<Rightarrow> login_event \<Rightarrow> miner \<Rightarrow> login_event \<times> miner" where
  "login_reject env message e m =
     (e\<lparr>le_rejected := True\<rparr>, shutdown env True (replyWithError env (le_loginId e) message m))"

definition login_check :: "miner_env \<Rightarrow> cstr \<Rightarrow> login_event \<Rightarrow> miner \<Rightarrow> login_event \<times> miner" where
  "login_check env password e m =
     (if password \<noteq> None \<and> m_password m \<noteq> password then login_reject env (error_toString Forbidden) e m else (e, m))"

section \<open>The difficulty\<close>

definition INT_MAX :: u64 where "INT_MAX = 2147483647"

definition customDiff_login :: "u64 \<Rightarrow> miner \<Rightarrow> miner" where
  "customDiff_login diff m =
     (if m_routeId m \<noteq> -1 then m
      else
        let m1 = m\<lparr>m_customDiff := diff\<rparr> in
        (case m_user m1 of None \<Rightarrow> m1
         | Some user \<Rightarrow>
             (case strrchr user (CHR ''+'') of None \<Rightarrow> m1
              | Some str \<Rightarrow>
                  let d = strtoul (tl str) in
                  if d < 100 \<or> INT_MAX \<le> d then m1
                  else if w_verifier m1 \<noteq> None \<and> (diff = 0 \<or> d < diff) then m1
                  else m1\<lparr>m_customDiff := d\<rparr>)))"

section \<open>Donation pools of miners\<close>

datatype donate_action =
    Da_connect nat cstr pool
  | Da_submit nat job_result
  | Da_disconnect nat
  | Da_deleteLater nat
  | Da_accept nat int submit_result cstr

record donate_mapper =
  dm_active :: bool
  dm_miner :: int
  dm_algorithms :: "cstr list"
  dm_diff :: u64
  dm_id :: nat

text \<open>An element of the array that is not a string, which the code must not ask for one, is a null pointer here.\<close>

definition dm_algo_list :: "json \<Rightarrow> cstr list" where
  "dm_algo_list params =
     (case find_member params ''algo'' of
        Some (JArr vs) \<Rightarrow> map (\<lambda>v. case v of JStr s \<Rightarrow> Some (c_string s) | _ \<Rightarrow> None) vs
      | _ \<Rightarrow> [])"

definition new_donate_mapper :: "nat \<Rightarrow> login_event \<Rightarrow> pool \<Rightarrow> miner \<Rightarrow> donate_mapper \<times> miner \<times> donate_action list" where
  "new_donate_mapper i e p m =
     (\<lparr>dm_active = True, dm_miner = m_id m, dm_algorithms = dm_algo_list (le_params e), dm_diff = 0, dm_id = i\<rparr>,
      m\<lparr>m_routeId := 0, m_mapperId := int i, m_extNicehash := True\<rparr>, [Da_connect i (m_agent m) p])"

definition dm_submit :: "job_result \<Rightarrow> donate_mapper \<Rightarrow> error_code \<times> donate_action list" where
  "dm_submit q d = (if \<not> dm_active d then (BadGateway, []) else (NoError, [Da_submit (dm_id d) (q\<lparr>q_diff := dm_diff d\<rparr>)]))"

definition dm_onClose :: "miner_env \<Rightarrow> donate_mapper \<Rightarrow> miner \<Rightarrow> donate_mapper \<times> miner \<times> donate_action list" where
  "dm_onClose env d m = (d\<lparr>dm_active := False\<rparr>, shutdown env True m, [Da_disconnect (dm_id d)])"

definition dm_onJobReceived :: "miner_env \<Rightarrow> job \<Rightarrow> json \<Rightarrow> donate_mapper \<Rightarrow> miner \<Rightarrow> donate_mapper \<times> miner" where
  "dm_onJobReceived env j params d m =
     (if \<not> dm_active d then (d, m)
      else (d\<lparr>dm_diff := j_diff j\<rparr>, forwardJob env j (getString params ''algo'' None) m))"

definition dm_onLogin :: "donate_mapper \<Rightarrow> json \<Rightarrow> json" where
  "dm_onLogin d params =
     (case params of JObj ms \<Rightarrow> JObj (ms @ [(''algo'', JArr (map str_json (dm_algorithms d)))]) | v \<Rightarrow> v)"

definition dm_onResultAccepted :: "miner_env \<Rightarrow> submit_result \<Rightarrow> cstr \<Rightarrow> donate_mapper \<Rightarrow> miner \<Rightarrow> miner \<times> donate_action list" where
  "dm_onResultAccepted env r err d m =
     ((case err of Some t \<Rightarrow> replyWithError env (sr_reqId r) t m | None \<Rightarrow> success env (sr_reqId r) ''OK'' m),
      [Da_accept (dm_id d) (dm_miner d) r err])"

record donate_splitter =
  dsp_mappers :: "(nat, donate_mapper) omap"
  dsp_sequence :: nat
  dsp_out :: "donate_action list"

definition new_donate_splitter :: donate_splitter where
  "new_donate_splitter = \<lparr>dsp_mappers = [], dsp_sequence = 0, dsp_out = []\<rparr>"

definition donate_login :: "bool \<Rightarrow> miner_env \<Rightarrow> login_event \<Rightarrow> miner \<Rightarrow> donate_splitter
    \<Rightarrow> login_event \<times> miner \<times> donate_splitter" where
  "donate_login donateOverProxy env e m s =
     (if \<not> donateOverProxy then (e, m, s)
      else
        let m1 = m\<lparr>m_extConnect := True\<rparr> in
        (case getString (le_params e) ''url'' None of
           None \<Rightarrow> (e, m1, s)
         | Some url \<Rightarrow>
             let p = pool_of_url (Some url) in
             if \<not> contains (Some url) ''xmrig.com'' \<or> \<not> pool_isValid p
             then (case login_reject env (error_toString Forbidden) e m1 of (e1, m2) \<Rightarrow> (e1, m2, s))
             else
               (case new_donate_mapper (dsp_sequence s) e
                       (p\<lparr>p_user := m_user m1, p_rigId := m_rigId m1, p_password := Some ''proxy''\<rparr>) m1 of
                  (d, m2, acts) \<Rightarrow>
                    (e, m2, s\<lparr>dsp_mappers := om_put (dm_id d) d (dsp_mappers s), dsp_sequence := dsp_sequence s + 1,
                              dsp_out := dsp_out s @ acts\<rparr>))))"

definition donate_remove :: "miner \<Rightarrow> donate_splitter \<Rightarrow> donate_splitter" where
  "donate_remove m s =
     (let i = nat (m_mapperId m) in
      if m_mapperId m < 0 \<or> m_routeId m \<noteq> 0 \<or> map_of (dsp_mappers s) i = None then s
      else s\<lparr>dsp_mappers := AList.delete i (dsp_mappers s), dsp_out := dsp_out s @ [Da_deleteLater i]\<rparr>)"

text \<open>\<open>m_mappers[id]\<close>: a null pointer is not called.\<close>

definition donate_submit :: "job_result \<Rightarrow> miner \<Rightarrow> donate_splitter \<Rightarrow> error_code \<times> donate_splitter" where
  "donate_submit q m s =
     (if m_mapperId m < 0 \<or> m_routeId m \<noteq> 0 then (NoError, s)
      else (case map_of (dsp_mappers s) (nat (m_mapperId m)) of None \<Rightarrow> (NoError, s)
            | Some d \<Rightarrow> (case dm_submit q d of (err, acts) \<Rightarrow> (err, s\<lparr>dsp_out := dsp_out s @ acts\<rparr>))))"

section \<open>The listeners of a login\<close>

record login_config =
  lc_password :: cstr
  lc_donateOverProxy :: bool
  lc_diff :: u64

text \<open>\<open>'r\<close> is the state of the listeners after these.\<close>

record 'r login_world =
  lw_miner :: miner
  lw_donate :: donate_splitter
  lw_rest :: 'r

type_synonym 'r login_handler = "(login_event, 'r login_world) listener"

definition login_listener :: "miner_env \<Rightarrow> login_config \<Rightarrow> 'r login_handler" where
  "login_listener env cfg =
     \<lparr>l_onEvent = (\<lambda>e s. case login_check env (lc_password cfg) e (lw_miner s) of (e1, m) \<Rightarrow> (e1, s\<lparr>lw_miner := m\<rparr>)),
      l_onRejectedEvent = Pair\<rparr>"

definition donate_listener :: "miner_env \<Rightarrow> login_config \<Rightarrow> 'r login_handler" where
  "donate_listener env cfg =
     \<lparr>l_onEvent = (\<lambda>e s. case donate_login (lc_donateOverProxy cfg) env e (lw_miner s) (lw_donate s) of
        (e1, m, d) \<Rightarrow> (e1, s\<lparr>lw_miner := m, lw_donate := d\<rparr>)),
      l_onRejectedEvent = Pair\<rparr>"

definition customDiff_listener :: "login_config \<Rightarrow> 'r login_handler" where
  "customDiff_listener cfg =
     \<lparr>l_onEvent = (\<lambda>e s. (e, s\<lparr>lw_miner := customDiff_login (lc_diff cfg) (lw_miner s)\<rparr>)), l_onRejectedEvent = Pair\<rparr>"

text \<open>A splitter ignores rejected events (\<open>onRejectedEvent\<close> of the splitters is empty).\<close>

definition splitter_listener :: "(login_event \<Rightarrow> 'r login_world \<Rightarrow> 'r login_world) \<Rightarrow> 'r login_handler" where
  "splitter_listener f = \<lparr>l_onEvent = (\<lambda>e s. (e, f e s)), l_onRejectedEvent = Pair\<rparr>"

definition login_events :: "miner_env \<Rightarrow> login_config \<Rightarrow> (login_event \<Rightarrow> 'r login_world \<Rightarrow> 'r login_world)
    \<Rightarrow> (login_event, 'r login_world) events" where
  "login_events env cfg splitter =
     subscribe LoginType (splitter_listener splitter)
       (subscribe LoginType (customDiff_listener cfg)
         (subscribe LoginType (donate_listener env cfg)
           (subscribe LoginType (login_listener env cfg) init_events)))"

definition login_exec :: "miner_env \<Rightarrow> login_config \<Rightarrow> (login_event \<Rightarrow> 'r login_world \<Rightarrow> 'r login_world)
    \<Rightarrow> login_event \<Rightarrow> 'r login_world \<Rightarrow> bool \<times> login_event \<times> 'r login_world" where
  "login_exec env cfg splitter e s = events_exec (\<lambda>_. LoginType) le_rejected (login_events env cfg splitter) e s"

end
