(* ===== verification/Login_Props.thy ===== *)
theory Login_Props
  imports Login_Rules
begin

text \<open>
  Who gets to a splitter, and with which difficulty.
\<close>

section \<open>The difficulty of a miner\<close>

lemma customDiff_fields:
  "\<exists>d. customDiff_login diff m = m\<lparr>m_customDiff := d\<rparr>"
proof -
  have keep: "\<exists>d. m = m\<lparr>m_customDiff := d\<rparr>" by (rule exI [of _ "m_customDiff m"]) simp
  have set: "\<exists>d. m\<lparr>m_customDiff := x\<rparr> = m\<lparr>m_customDiff := d\<rparr>" for x by blast
  show ?thesis using keep set by (simp add: customDiff_login_def Let_def split: option.split)
qed

text \<open>The difficulty of a miner that the splitter serves is the configured one, or the number after the last
  plus sign of its user name, which is at least 100 and fits into 31 bits; with a verifier it is never below
  the configured one, and zero (the difficulty of the pool) when none is configured.\<close>

theorem custom_diff_floor:
  assumes "m_routeId m = -1"
  shows "(m_customDiff (customDiff_login diff m) = diff \<or>
      (\<exists>user s. m_user m = Some user \<and> strrchr user (CHR ''+'') = Some s \<and>
         m_customDiff (customDiff_login diff m) = strtoul (tl s) \<and>
         100 \<le> m_customDiff (customDiff_login diff m) \<and> m_customDiff (customDiff_login diff m) < INT_MAX)) \<and>
    (w_verifier m \<noteq> None \<longrightarrow> diff \<le> m_customDiff (customDiff_login diff m) \<and>
      (diff = 0 \<longrightarrow> m_customDiff (customDiff_login diff m) = 0)) \<and>
    (\<forall>name n. m_user m = Some (name @ CHR ''+'' # dec n) \<and> 100 \<le> n \<and> n < 2147483647 \<and>
        (w_verifier m \<noteq> None \<longrightarrow> diff \<noteq> 0 \<and> diff \<le> of_nat n) \<longrightarrow>
      m_customDiff (customDiff_login diff m) = of_nat n)"
proof -
  have suffix: "m_customDiff (customDiff_login diff m) = of_nat n"
    if n: "m_user m = Some (name @ CHR ''+'' # dec n)" "100 \<le> n" "n < 2147483647" "w_verifier m \<noteq> None \<longrightarrow> diff \<noteq> 0 \<and> diff \<le> of_nat n"
    for name n
  proof -
    have "strrchr (name @ CHR ''+'' # dec n) (CHR ''+'') = Some (CHR ''+'' # dec n)"
      by (rule strrchr_append, rule dec_no_char) (simp add: is_digit_def Let_def)
    moreover have "strtoul (dec n) = of_nat n" using n(3) by (simp add: strtoul_dec)
    moreover have "\<not> (of_nat n :: u64) < 100" "\<not> INT_MAX \<le> (of_nat n :: u64)"
      using n(2,3) by (simp_all add: word_less_nat_alt word_le_nat_alt unat_of_nat INT_MAX_def)
    ultimately show ?thesis using assms n(1,4) by (auto simp: customDiff_login_def Let_def not_le)
  qed
  have rule: "m_customDiff (customDiff_login diff m) = diff \<or>
      (\<exists>user s. m_user m = Some user \<and> strrchr user (CHR ''+'') = Some s \<and>
         m_customDiff (customDiff_login diff m) = strtoul (tl s) \<and>
         100 \<le> m_customDiff (customDiff_login diff m) \<and> m_customDiff (customDiff_login diff m) < INT_MAX)"
    using assms by (auto simp: customDiff_login_def Let_def not_less not_le split: option.splits)
  moreover have "w_verifier m \<noteq> None \<longrightarrow> diff \<le> m_customDiff (customDiff_login diff m) \<and>
      (diff = 0 \<longrightarrow> m_customDiff (customDiff_login diff m) = 0)"
    using assms by (auto simp: customDiff_login_def Let_def not_less not_le split: option.splits)
  ultimately show ?thesis using suffix by blast
qed

theorem custom_diff_floor_witness:
  "m_customDiff (customDiff_login 1000 ((new_miner sample_env sample_world False 3333 False ''00'' 1 0)\<lparr>m_user := Some ''w+5000''\<rparr>)) = 5000"
proof -
  have "Some (''w'' @ CHR ''+'' # dec 5000) = Some ''w+5000''" by (simp add: dec.simps) code_simp
  then show ?thesis
    using custom_diff_floor [of "(new_miner sample_env sample_world False 3333 False ''00'' 1 0)\<lparr>m_user := Some ''w+5000''\<rparr>" 1000,
        THEN conjunct2, THEN conjunct2, rule_format, of "''w''" 5000]
    by (simp add: new_miner_def sample_world_def)
qed

section \<open>The gate\<close>

definition listen :: "'r login_handler \<Rightarrow> login_event \<times> 'r login_world \<Rightarrow> login_event \<times> 'r login_world" where
  "listen l r = (if le_rejected (fst r) then l_onRejectedEvent l (fst r) (snd r) else l_onEvent l (fst r) (snd r))"

lemma login_exec_steps:
  "login_exec env cfg splitter e s =
     (let r = listen (splitter_listener splitter) (listen (customDiff_listener cfg)
                (listen (donate_listener env cfg) (listen (login_listener env cfg) (e, s))))
      in (\<not> le_rejected (fst r), r))"
proof -
  have lam: "(\<lambda>l (e, s). if le_rejected e then l_onRejectedEvent l e s else l_onEvent l e s) = listen"
    by (simp add: listen_def fun_eq_iff)
  have ls: "ev_ready (login_events env cfg splitter)"
      "map_of (ev_listeners (login_events env cfg splitter)) LoginType =
        Some [login_listener env cfg, donate_listener env cfg, customDiff_listener cfg, splitter_listener splitter]"
    by (simp_all add: login_events_def subscribe_def init_events_def)
  have "login_exec env cfg splitter e s =
      (case fold listen [login_listener env cfg, donate_listener env cfg, customDiff_listener cfg, splitter_listener splitter] (e, s)
       of (e', s') \<Rightarrow> (\<not> le_rejected e', e', s'))"
    unfolding login_exec_def events_exec_def lam ls(2) Let_def option.case using ls(1) by simp
  then show ?thesis by (simp add: Let_def case_prod_beta)
qed

lemma listen_rejected:
  "le_rejected e \<Longrightarrow> listen (donate_listener env cfg) (e, s) = (e, s)"
  "le_rejected e \<Longrightarrow> listen (customDiff_listener cfg) (e, s) = (e, s)"
  "le_rejected e \<Longrightarrow> listen (splitter_listener f) (e, s) = (e, s)"
  by (simp_all add: listen_def donate_listener_def customDiff_listener_def splitter_listener_def)

lemma listen_onEvent: "\<not> le_rejected e \<Longrightarrow> listen l (e, s) = l_onEvent l e s"
  by (simp add: listen_def)

text \<open>A miner that names a pool the donation splitter does not accept.\<close>

definition bad_donor :: "login_config \<Rightarrow> json \<Rightarrow> bool" where
  "bad_donor cfg params \<longleftrightarrow> lc_donateOverProxy cfg \<and>
     (\<exists>url. getString params ''url'' None = Some url \<and>
        (\<not> contains (Some url) ''xmrig.com'' \<or> \<not> pool_isValid (pool_of_url (Some url))))"

definition donor :: "login_config \<Rightarrow> json \<Rightarrow> bool" where
  "donor cfg params \<longleftrightarrow> lc_donateOverProxy cfg \<and> getString params ''url'' None \<noteq> None \<and> \<not> bad_donor cfg params"

definition wrong_password :: "login_config \<Rightarrow> miner \<Rightarrow> bool" where
  "wrong_password cfg m \<longleftrightarrow> lc_password cfg \<noteq> None \<and> m_password m \<noteq> lc_password cfg"

lemma rejected_login:
  "login_reject env t e m = (e1, m1) \<Longrightarrow> le_rejected e1 \<and> m_state m1 = ClosingState"
  by (auto simp: login_reject_def)

lemma login_world_swap: "s\<lparr>lw_donate := d, lw_miner := m\<rparr> = s\<lparr>lw_miner := m, lw_donate := d\<rparr>"
  by (cases s) simp

lemma donate_login_result:
  assumes "\<not> bad_donor cfg (le_params e)"
  shows "\<exists>m' d. donate_login (lc_donateOverProxy cfg) env e m s = (e, m', d) \<and>
    (if donor cfg (le_params e)
     then m_routeId m' = 0 \<and> m_customDiff m' = m_customDiff m \<and> m_mapperId m' = int (dsp_sequence s) \<and>
       (\<exists>dm. dsp_mappers d = om_put (dsp_sequence s) dm (dsp_mappers s) \<and> dm_miner dm = m_id m)
     else d = s \<and> (m' = m \<or> m' = m\<lparr>m_extConnect := True\<rparr>))"
proof (cases "lc_donateOverProxy cfg")
  case False
  then show ?thesis by (simp add: donate_login_def donor_def)
next
  case True
  show ?thesis
  proof (cases "getString (le_params e) ''url'' None")
    case None
    then show ?thesis using True by (simp add: donate_login_def donor_def Let_def)
  next
    case (Some url)
    then have "contains (Some url) ''xmrig.com''" "pool_isValid (pool_of_url (Some url))" "donor cfg (le_params e)"
      using assms True by (auto simp: bad_donor_def donor_def)
    then show ?thesis using True Some by (auto simp: donate_login_def new_donate_mapper_def Let_def)
  qed
qed

text \<open>C19: a login reaches the splitter exactly when the password of the proxy is right and the miner does not ask for
  a donation pool that is refused; otherwise the connection is closed and nothing else changes. The splitter
  then sees either a miner that brings an accepted donation pool, which has a mapper of its own and the
  difficulty it had, or one with the difficulty of the rules for user names.\<close>

theorem login_gate:
  assumes "\<not> le_rejected e" and "m_routeId (lw_miner s) = -1" and "login_exec env cfg splitter e s = (ok, e', s')"
  shows "(ok \<longleftrightarrow> \<not> wrong_password cfg (lw_miner s) \<and> \<not> bad_donor cfg (le_params e)) \<and>
    (\<not> ok \<longrightarrow> m_state (lw_miner s') = ClosingState \<and> lw_donate s' = lw_donate s \<and> lw_rest s' = lw_rest s) \<and>
    (ok \<longrightarrow> (\<exists>m d. s' = splitter e (s\<lparr>lw_miner := m, lw_donate := d\<rparr>) \<and>
       (if donor cfg (le_params e)
        then m_routeId m = 0 \<and> m_customDiff m = m_customDiff (lw_miner s) \<and> m_mapperId m = int (dsp_sequence (lw_donate s)) \<and>
          (\<exists>dm. dsp_mappers d = om_put (dsp_sequence (lw_donate s)) dm (dsp_mappers (lw_donate s)) \<and> dm_miner dm = m_id (lw_miner s))
        else d = lw_donate s \<and> m_routeId m = -1 \<and>
          m_customDiff m = m_customDiff (customDiff_login (lc_diff cfg) (lw_miner s)))))"
proof (cases "wrong_password cfg (lw_miner s)")
  case True
  obtain e1 m1 where r: "login_reject env (error_toString Forbidden) e (lw_miner s) = (e1, m1)" by (metis surj_pair)
  then have "listen (login_listener env cfg) (e, s) = (e1, s\<lparr>lw_miner := m1\<rparr>)"
    using True assms(1) by (simp add: listen_onEvent login_listener_def login_check_def wrong_password_def)
  then show ?thesis using rejected_login [OF r] True assms(3) by (auto simp: login_exec_steps listen_rejected)
next
  case pw: False
  have l: "listen (login_listener env cfg) (e, s) = (e, s)"
    using pw assms(1) by (auto simp: listen_onEvent login_listener_def login_check_def wrong_password_def)
  show ?thesis
  proof (cases "bad_donor cfg (le_params e)")
    case True
    obtain url where url: "lc_donateOverProxy cfg" "getString (le_params e) ''url'' None = Some url"
        "\<not> contains (Some url) ''xmrig.com'' \<or> \<not> pool_isValid (pool_of_url (Some url))"
      using True by (auto simp: bad_donor_def)
    obtain e1 m1 where r: "login_reject env (error_toString Forbidden) e ((lw_miner s)\<lparr>m_extConnect := True\<rparr>) = (e1, m1)"
      by (metis surj_pair)
    have "donate_login True env e (lw_miner s) (lw_donate s) = (e1, m1, lw_donate s)"
      using url(2,3) r by (simp add: donate_login_def Let_def)
    then have "listen (donate_listener env cfg) (e, s) = (e1, s\<lparr>lw_miner := m1\<rparr>)"
      using assms(1) url(1) by (simp add: listen_onEvent donate_listener_def)
    then show ?thesis using rejected_login [OF r] l pw True assms(3) by (auto simp: login_exec_steps listen_rejected)
  next
    case ok: False
    obtain m d where md: "donate_login (lc_donateOverProxy cfg) env e (lw_miner s) (lw_donate s) = (e, m, d)"
        "if donor cfg (le_params e)
        then m_routeId m = 0 \<and> m_customDiff m = m_customDiff (lw_miner s) \<and> m_mapperId m = int (dsp_sequence (lw_donate s)) \<and>
          (\<exists>dm. dsp_mappers d = om_put (dsp_sequence (lw_donate s)) dm (dsp_mappers (lw_donate s)) \<and> dm_miner dm = m_id (lw_miner s))
        else d = lw_donate s \<and> (m = lw_miner s \<or> m = (lw_miner s)\<lparr>m_extConnect := True\<rparr>)"
      using donate_login_result [OF ok, of env "lw_miner s" "lw_donate s"] by blast
    have "listen (donate_listener env cfg) (e, s) = (e, s\<lparr>lw_miner := m, lw_donate := d\<rparr>)"
      using assms(1) md(1) by (simp add: listen_onEvent donate_listener_def)
    then have r: "ok \<and> s' = splitter e (s\<lparr>lw_miner := customDiff_login (lc_diff cfg) m, lw_donate := d\<rparr>)"
      using l assms(1,3) by (auto simp: login_exec_steps listen_onEvent customDiff_listener_def splitter_listener_def login_world_swap)
    have c: "m_customDiff (customDiff_login (lc_diff cfg) m) = (if m_routeId m = -1 then m_customDiff (customDiff_login (lc_diff cfg) (lw_miner s))
        else m_customDiff m)"
      if "m_routeId m = 0 \<or> m = lw_miner s \<or> m = (lw_miner s)\<lparr>m_extConnect := True\<rparr>"
      using that assms(2) by (auto simp: customDiff_login_def Let_def split: option.split)
    obtain x where x: "customDiff_login (lc_diff cfg) m = m\<lparr>m_customDiff := x\<rparr>" using customDiff_fields by blast
    define m' where "m' = customDiff_login (lc_diff cfg) m"
    show ?thesis
    proof (cases "donor cfg (le_params e)")
      case True
      then have "m_routeId m' = 0 \<and> m_customDiff m' = m_customDiff (lw_miner s) \<and> m_mapperId m' = int (dsp_sequence (lw_donate s))"
          "\<exists>dm. dsp_mappers d = om_put (dsp_sequence (lw_donate s)) dm (dsp_mappers (lw_donate s)) \<and> dm_miner dm = m_id (lw_miner s)"
        using md(2) c x by (simp_all add: m'_def)
      then show ?thesis using True r pw ok unfolding m'_def [symmetric] by auto
    next
      case False
      then have m: "d = lw_donate s" "m = lw_miner s \<or> m = (lw_miner s)\<lparr>m_extConnect := True\<rparr>" using md(2) by simp_all
      then have "m_routeId m = -1" using assms(2) by auto
      then have "m_routeId m' = -1 \<and> m_customDiff m' = m_customDiff (customDiff_login (lc_diff cfg) (lw_miner s))"
        using c m(2) x by (simp add: m'_def)
      then show ?thesis using False r m(1) pw ok unfolding m'_def [symmetric] by auto
    qed
  qed
qed

definition login_sample :: "unit login_world" where
  "login_sample = \<lparr>lw_miner = (new_miner sample_env sample_world False 3333 False ''00'' 1 0)\<lparr>m_password := Some ''bad''\<rparr>,
     lw_donate = new_donate_splitter, lw_rest = ()\<rparr>"

theorem login_gate_witness:
  "\<exists>e' s'. login_exec sample_env \<lparr>lc_password = Some ''good'', lc_donateOverProxy = True, lc_diff = 0\<rparr> (\<lambda>e s. s)
     \<lparr>le_loginId = 1, le_params = JObj [], le_rejected = False\<rparr> login_sample = (False, e', s') \<and>
     m_state (lw_miner s') = ClosingState"
proof -
  obtain ok e' s' where r: "login_exec sample_env \<lparr>lc_password = Some ''good'', lc_donateOverProxy = True, lc_diff = 0\<rparr> (\<lambda>e s. s)
     \<lparr>le_loginId = 1, le_params = JObj [], le_rejected = False\<rparr> login_sample = (ok, e', s')"
    by (metis prod_cases3)
  then show ?thesis using login_gate [OF _ _ r] by (simp add: login_sample_def new_miner_def wrong_password_def)
qed

end
