(* ===== verification/Stats.thy ===== *)
theory Stats
  imports Workers "HOL-Library.Multiset"
begin

text \<open>
  The statistics of the proxy (\<open>proxy/Stats.cpp\<close>, \<open>proxy/StatsData.h\<close>), built with the API, and the table of
  connected miners with its timer (\<open>proxy/Miners.cpp\<close>). Hashrates stay quotients as in theory \<open>Workers\<close>;
  the addition of hashrates in \<open>StatsData::operator+=\<close> is left out.
\<close>

section \<open>Statistics\<close>

record stats_data =
  sd_hashrate :: "(u64 \<times> nat) option list"
  sd_topDiff :: "u64 list"
  sd_latency :: "u16 list"
  sd_accepted :: u64
  sd_connections :: u64
  sd_donateHashes :: u64
  sd_expired :: u64
  sd_hashes :: u64
  sd_invalid :: u64
  sd_maxMiners :: u64
  sd_miners :: u64
  sd_rejected :: u64
  sd_startTime :: u64
  sd_upstreams :: upstreams

definition new_stats_data :: "u64 \<Rightarrow> stats_data" where
  "new_stats_data now =
     \<lparr>sd_hashrate = replicate 6 None, sd_topDiff = replicate 10 0, sd_latency = [], sd_accepted = 0, sd_connections = 0,
      sd_donateHashes = 0, sd_expired = 0, sd_hashes = 0, sd_invalid = 0, sd_maxMiners = 0, sd_miners = 0, sd_rejected = 0,
      sd_startTime = now, sd_upstreams = new_upstreams 0 0 0\<rparr>"

definition uptime :: "u64 \<Rightarrow> stats_data \<Rightarrow> u64" where
  "uptime now d = (now - sd_startTime d) div 1000"

definition avgTime :: "u64 \<Rightarrow> stats_data \<Rightarrow> u32" where
  "avgTime now d = (if sd_latency d = [] then 0 else ucast (uptime now d div of_nat (length (sd_latency d))))"

text \<open>The element that \<open>std::nth_element\<close> puts in the middle is the one that sorting puts there.\<close>

definition avgLatency :: "stats_data \<Rightarrow> u32" where
  "avgLatency d = (if sd_latency d = [] then 0 else ucast (sort (sd_latency d) ! (length (sd_latency d) div 2)))"

record stats =
  sx_data :: stats_data
  sx_hashrate :: ticking_counter
  sx_counters :: counters

definition new_stats :: "u64 \<Rightarrow> counters \<Rightarrow> stats" where
  "new_stats now c = \<lparr>sx_data = new_stats_data now, sx_hashrate = new_counter 4, sx_counters = c\<rparr>"

text \<open>\<open>hashrate(int seconds)\<close> with the conversions of its argument.\<close>

definition seconds_of :: "u64 \<Rightarrow> nat" where
  "seconds_of n = unat (signed_take_bit 31 n)"

definition stats_tick :: "u64 \<Rightarrow> u64 \<Rightarrow> upstreams \<Rightarrow> stats \<Rightarrow> stats" where
  "stats_tick now ticks0 ups s =
     (let ticks = ticks0 + 1 in
      if ticks mod of_nat (tc_tickTime (sx_hashrate s)) \<noteq> 0 then s
      else
        let h = tc_tick (sx_hashrate s)
        in s\<lparr>sx_hashrate := h,
             sx_data := (sx_data s)\<lparr>sd_hashrate := [calc 60 h, calc 600 h, calc 3600 h, calc (3600 * 12) h, calc (3600 * 24) h,
                                     calc (seconds_of (uptime now (sx_data s))) h],
                                   sd_upstreams := ups, sd_miners := ct_miners (sx_counters s),
                                   sd_maxMiners := ct_maxMiners (sx_counters s), sd_expired := ct_expired (sx_counters s)\<rparr>\<rparr>)"

text \<open>\<open>std::sort(rbegin, rend)\<close> sorts into descending order.\<close>

definition put_topDiff :: "u64 \<Rightarrow> u64 list \<Rightarrow> u64 list" where
  "put_topDiff d ts =
     (let ln = length ts - 1 in if ts ! ln < d then rev (sort (ts[ln := d])) else ts)"

definition stats_accept :: "bool \<Rightarrow> accept_event \<Rightarrow> stats \<Rightarrow> stats" where
  "stats_accept customDiffStats e s =
     (if ae_customDiff e \<and> \<not> customDiffStats then s
      else
        let r = ae_result e;
            s1 = s\<lparr>sx_hashrate := tc_add (if customDiffStats then statsDiff e else sr_diff r) (sx_hashrate s)\<rparr>
        in if ae_customDiff e then s1
           else
             let d = sx_data s1
             in s1\<lparr>sx_counters := (sx_counters s1)\<lparr>ct_accepted := ct_accepted (sx_counters s1) + 1\<rparr>,
                   sx_data := d\<lparr>sd_accepted := sd_accepted d + 1, sd_hashes := sd_hashes d + sr_diff r,
                     sd_donateHashes := (if ae_donate e then sd_donateHashes d + sr_diff r else sd_donateHashes d),
                     sd_topDiff := put_topDiff (sr_actualDiff r) (sd_topDiff d),
                     sd_latency := sd_latency d @ [if 0xFFFF < sr_elapsed r then 0xFFFF else ucast (sr_elapsed r)]\<rparr>\<rparr>)"

definition stats_reject :: "accept_event \<Rightarrow> stats \<Rightarrow> stats" where
  "stats_reject e s =
     (if ae_donate e \<or> submit_isAmbiguous (ae_result e) then s
      else s\<lparr>sx_data := (sx_data s)\<lparr>sd_rejected := sd_rejected (sx_data s) + 1\<rparr>\<rparr>)"

datatype stats_event = St_connection | St_close | St_accept accept_event | St_submit

definition stats_onEvent :: "bool \<Rightarrow> stats_event \<Rightarrow> stats \<Rightarrow> stats" where
  "stats_onEvent customDiffStats e s =
     (case e of
        St_connection \<Rightarrow> s\<lparr>sx_data := (sx_data s)\<lparr>sd_connections := sd_connections (sx_data s) + 1\<rparr>\<rparr>
      | St_close \<Rightarrow> s\<lparr>sx_data := (sx_data s)\<lparr>sd_connections := sd_connections (sx_data s) - 1\<rparr>\<rparr>
      | St_accept a \<Rightarrow> stats_accept customDiffStats a s
      | St_submit \<Rightarrow> s)"

definition stats_onRejectedEvent :: "stats_event \<Rightarrow> stats \<Rightarrow> stats" where
  "stats_onRejectedEvent e s =
     (case e of
        St_submit \<Rightarrow> s\<lparr>sx_data := (sx_data s)\<lparr>sd_invalid := sd_invalid (sx_data s) + 1\<rparr>\<rparr>
      | St_accept a \<Rightarrow> stats_reject a s
      | _ \<Rightarrow> s)"

section \<open>The best shares\<close>

text \<open>The table of the ten best shares is the sorted list of all accepted shares, cut after the tenth.\<close>

definition best :: "nat \<Rightarrow> u64 list \<Rightarrow> u64 list" where
  "best n ds = take n (rev (sort ds))"

fun ins :: "u64 \<Rightarrow> u64 list \<Rightarrow> u64 list" where
  "ins d [] = [d]"
| "ins d (x # xs) = (if x < d then d # x # xs else x # ins d xs)"

lemma mset_ins [simp]: "mset (ins d xs) = add_mset d (mset xs)"
  by (induction xs) auto

lemma set_ins [simp]: "set (ins d xs) = insert d (set xs)"
  by (induction xs) auto

lemma length_ins [simp]: "length (ins d xs) = Suc (length xs)"
  by (induction xs) auto

lemma sorted_ins: "sorted_wrt (\<ge>) xs \<Longrightarrow> sorted_wrt (\<ge>) (ins d xs)"
  by (induction xs) (auto simp: not_less intro: order.trans less_imp_le)

lemma take_ins: "take n (ins d xs) = take n (ins d (take n xs))"
  by (induction xs arbitrary: n) (auto simp: take_Cons' split: if_splits)

lemma rev_sort: "sorted_wrt (\<ge>) xs \<Longrightarrow> mset xs = mset ys \<Longrightarrow> rev (sort ys) = xs" for xs :: "u64 list"
proof -
  assume xs: "sorted_wrt (\<ge>) xs" "mset xs = mset ys"
  then have "sorted (rev xs)" by (simp add: sorted_wrt_rev)
  then have "sort ys = rev xs" using xs(2) by (intro properties_for_sort) simp_all
  then show ?thesis by simp
qed

lemma best_snoc: "best n (ds @ [d]) = take n (ins d (best n ds))"
proof -
  have "sorted_wrt (\<ge>) (rev (sort ds))" by (simp add: sorted_wrt_rev)
  then have "rev (sort (ds @ [d])) = ins d (rev (sort ds))" by (intro rev_sort sorted_ins) simp_all
  then show ?thesis unfolding best_def by (metis take_ins)
qed

lemma last_ins: "xs \<noteq> [] \<Longrightarrow> last xs < d \<Longrightarrow> last (ins d xs) = last xs"
proof (induction xs)
  case (Cons x xs)
  then show ?case by (cases xs) auto
qed simp

lemma put_topDiff_ins:
  assumes "sorted_wrt (\<ge>) ts" and "ts \<noteq> []"
  shows "put_topDiff d ts = take (length ts) (ins d ts)"
proof -
  have l: "ts ! (length ts - Suc 0) = last ts" using assms(2) by (simp add: last_conv_nth)
  show ?thesis
  proof (cases "last ts < d")
    case True
    have b: "take (length ts) (ins d ts) = butlast (ins d ts)" by (simp add: butlast_conv_take)
    have "mset (butlast (ins d ts)) + {# last ts #} = mset (ins d ts)"
      using last_ins [OF assms(2) True] append_butlast_last_id [of "ins d ts"]
      by (metis length_ins list.size(3) mset.simps(1,2) mset_append nat.distinct(1))
    moreover have "mset (ts[length ts - 1 := d]) + {# last ts #} = mset (ins d ts)"
      using assms(2) l by (simp add: mset_update)
    ultimately have "mset (butlast (ins d ts)) = mset (ts[length ts - 1 := d])" by (metis add_right_cancel)
    moreover have "sorted_wrt (\<ge>) (butlast (ins d ts))"
      using sorted_ins [OF assms(1), of d] by (simp add: butlast_conv_take sorted_wrt_take)
    ultimately have "rev (sort (ts[length ts - 1 := d])) = butlast (ins d ts)" by (intro rev_sort) simp_all
    then show ?thesis using True by (simp add: put_topDiff_def Let_def l b)
  next
    case False
    have ts: "butlast ts @ [last ts] = ts" using assms(2) by simp
    then have "sorted_wrt (\<ge>) (butlast ts @ [last ts])" using assms(1) by simp
    then have "\<forall>x \<in> set (butlast ts @ [last ts]). last ts \<le> x" by (simp add: sorted_wrt_append)
    then have "\<forall>x \<in> set ts. last ts \<le> x" unfolding ts .
    then have "\<forall>x \<in> set ts. \<not> x < d" using False by fastforce
    then have "ins d ts = ts @ [d]" by (induction ts) auto
    then show ?thesis using False by (simp add: put_topDiff_def Let_def l)
  qed
qed

lemma fold_topDiff: "fold put_topDiff ds (replicate 10 0) = best 10 (replicate 10 0 @ ds)"
proof (induction ds rule: rev_induct)
  case Nil
  have "rev (sort (replicate 10 (0 :: u64))) = replicate 10 0" by (rule rev_sort) (simp_all add: sorted_wrt_iff_nth_less)
  then show ?case by (simp add: best_def)
next
  case (snoc d ds)
  let ?t = "best 10 (replicate 10 0 @ ds)"
  have "sorted_wrt (\<ge>) (rev (sort (replicate 10 0 @ ds)))" by (simp add: sorted_wrt_rev)
  then have "sorted_wrt (\<ge>) ?t" by (simp add: best_def sorted_wrt_take)
  moreover have "length ?t = 10" by (simp add: best_def)
  ultimately have "put_topDiff d ?t = take 10 (ins d ?t)" using put_topDiff_ins [of ?t d] by fastforce
  then show ?case using snoc best_snoc [of 10 "replicate 10 0 @ ds" d] by simp
qed

section \<open>Totals\<close>

datatype stats_op = Sx_event bool stats_event | Sx_rejected stats_event | Sx_tick u64 u64 upstreams

fun stats_step :: "stats_op \<Rightarrow> stats \<Rightarrow> stats" where
  "stats_step (Sx_event b e) s = stats_onEvent b e s"
| "stats_step (Sx_rejected e) s = stats_onRejectedEvent e s"
| "stats_step (Sx_tick now ticks ups) s = stats_tick now ticks ups s"

definition stats_run :: "u64 \<Rightarrow> stats_op list \<Rightarrow> stats" where
  "stats_run now ops = fold stats_step ops (new_stats now init_counters)"

text \<open>The results of accepted shares that are not shares of a custom difficulty only.\<close>

fun counted_share :: "stats_op \<Rightarrow> submit_result list" where
  "counted_share (Sx_event b (St_accept e)) = (if ae_customDiff e then [] else [ae_result e])"
| "counted_share _ = []"

definition counted_shares :: "stats_op list \<Rightarrow> submit_result list" where
  "counted_shares ops = concat (map counted_share ops)"

definition opened :: "stats_op list \<Rightarrow> nat" where
  "opened ops = length (filter (\<lambda>op. \<exists>b. op = Sx_event b St_connection) ops)"

definition closed :: "stats_op list \<Rightarrow> nat" where
  "closed ops = length (filter (\<lambda>op. \<exists>b. op = Sx_event b St_close) ops)"

definition totals :: "stats_op list \<Rightarrow> stats_data \<Rightarrow> bool" where
  "totals ops d \<longleftrightarrow> sd_topDiff d = fold put_topDiff (map sr_actualDiff (counted_shares ops)) (replicate 10 0) \<and>
     sd_accepted d = of_nat (length (counted_shares ops)) \<and>
     sd_hashes d = of_nat (sum_list (map (unat \<circ> sr_diff) (counted_shares ops))) \<and>
     length (sd_latency d) = length (counted_shares ops) \<and>
     sd_connections d = of_nat (opened ops) - of_nat (closed ops)"

lemma totals_step: "totals ops (sx_data s) \<Longrightarrow> totals (ops @ [op]) (sx_data (stats_step op s))"
proof -
  assume t: "totals ops (sx_data s)"
  have s: "counted_shares (ops @ [op]) = counted_shares ops @ counted_share op"
      "opened (ops @ [op]) = opened ops + (if \<exists>b. op = Sx_event b St_connection then 1 else 0)"
      "closed (ops @ [op]) = closed ops + (if \<exists>b. op = Sx_event b St_close then 1 else 0)"
    by (simp_all add: counted_shares_def opened_def closed_def)
  show ?thesis
  proof (cases op)
    case (Sx_event b e)
    then show ?thesis using t unfolding totals_def s
      by (cases e) (simp_all add: stats_onEvent_def stats_accept_def Let_def)
  next
    case (Sx_rejected e)
    then show ?thesis using t unfolding totals_def s
      by (cases e) (simp_all add: stats_onRejectedEvent_def stats_reject_def)
  next
    case (Sx_tick now ticks ups)
    then show ?thesis using t unfolding totals_def s by (simp add: stats_tick_def Let_def)
  qed
qed

lemma totals_run: "totals ops (sx_data (stats_run now ops))"
proof (induction ops rule: rev_induct)
  case Nil
  then show ?case
    by (simp add: totals_def stats_run_def new_stats_def new_stats_data_def counted_shares_def opened_def closed_def)
next
  case (snoc op ops)
  then show ?case using totals_step [of ops "stats_run now ops" op] by (simp add: stats_run_def)
qed

text \<open>C39: at any time the table of best shares holds the ten greatest difficulties of the accepted shares in
  descending order (filled up with zeros), and the totals of accepted shares, hashes and connections are
  those of the events so far.\<close>

theorem stats_totals:
  "sd_topDiff (sx_data (stats_run now ops)) = best 10 (replicate 10 0 @ map sr_actualDiff (counted_shares ops)) \<and>
   sd_accepted (sx_data (stats_run now ops)) = of_nat (length (counted_shares ops)) \<and>
   sd_hashes (sx_data (stats_run now ops)) = of_nat (sum_list (map (unat \<circ> sr_diff) (counted_shares ops))) \<and>
   sd_connections (sx_data (stats_run now ops)) = of_nat (opened ops) - of_nat (closed ops)"
  using totals_run [of ops now] unfolding totals_def fold_topDiff by blast

section \<open>The connected miners\<close>

definition kTickInterval :: u64 where "kTickInterval = 1000"

definition miners_add :: "miner \<Rightarrow> (int, miner) omap \<Rightarrow> (int, miner) omap" where
  "miners_add m ms = om_put (m_id m) m ms"

definition miners_remove :: "miner \<Rightarrow> (int, miner) omap \<Rightarrow> (int, miner) omap" where
  "miners_remove m ms = AList.delete (m_id m) ms"

text \<open>The miners that the timer closes, in the order it closes them.\<close>

definition expired_miners :: "u64 \<Rightarrow> (int, miner) omap \<Rightarrow> miner list" where
  "expired_miners now ms = map snd (filter (\<lambda>(i, m). m_expire m < now) ms)"

end
