(* ===== verification/Block_Template.thy ===== *)
theory Block_Template
  imports Pool Hex_Codec
begin

text \<open>
  \<open>base/tools/cryptonote/BlobReader.h\<close> and \<open>base/tools/cryptonote/BlockTemplate.cpp\<close>: the parser of a
  block template, the tree of transaction hashes and the hashing blob.

  The parser is a sequence of small steps on a state, one for each statement \<open>ar(x)\<close>, \<open>setOffset\<close> and
  conditional return of the code. A step goes on, returns from the function, throws, or leaves defined
  behaviour: \<open>Undefined\<close> stands for a read or write outside a buffer and for a shift by 64 bits or more.
  The loop over the extra field has no bound in the code; here it runs on fuel and ends in \<open>Running\<close> when
  the fuel is used up.

  The reader tests \<open>m_index + n > m_size\<close> in 64-bit arithmetic. The test is an argument of the steps, so
  that the test of the code, \<open>past_end\<close>, can be compared with the one that does not wrap, \<open>past_end_exact\<close>.
  The hash function \<open>keccak\<close> and the answer of the allocator are parameters. A buffer of hashes is the list
  of its 32-byte blocks.
\<close>

section \<open>The reader\<close>

record reader =
  r_base :: u64
  r_size :: u64
  r_index :: u64

type_synonym span = "u64 \<times> u64"
type_synonym hash = "u8 list"
type_synonym test = "u64 \<Rightarrow> u64 \<Rightarrow> u64 \<Rightarrow> bool"

definition past_end :: test where
  "past_end index n len \<longleftrightarrow> len < index + n"

definition past_end_exact :: test where
  "past_end_exact index n len \<longleftrightarrow> unat len < unat index + unat n"

definition new_blob_reader :: "u64 \<Rightarrow> u64 \<Rightarrow> reader" where
  "new_blob_reader base n = \<lparr>r_base = base, r_size = n, r_index = 0\<rparr>"

text \<open>The bytes from an address of the blob on, as far as the blob goes.\<close>

definition bytes_at :: "u8 list \<Rightarrow> u64 \<Rightarrow> u64 \<Rightarrow> u8 list option" where
  "bytes_at blob p n =
     (if unat p + unat n \<le> length blob then Some (take (unat n) (drop (unat p) blob)) else None)"

datatype 'a got = Got 'a | Past_end | Bad_access

definition getByte :: "u8 list \<Rightarrow> reader \<Rightarrow> (u8 \<times> reader) got" where
  "getByte blob r =
     (if r_size r \<le> r_index r then Past_end
      else (case bytes_at blob (r_base r + r_index r) 1 of
              Some [b] \<Rightarrow> Got (b, r\<lparr>r_index := r_index r + 1\<rparr>)
            | _ \<Rightarrow> Bad_access))"

text \<open>
  \<open>getVarint\<close>: the loop reads a byte in every round and the shift grows by 7, so that the tenth round
  (shift 63) is the last one that is defined: the fuel of eleven rounds is never used up.
\<close>

fun blob_varint_loop :: "nat \<Rightarrow> u8 list \<Rightarrow> u64 \<Rightarrow> nat \<Rightarrow> reader \<Rightarrow> (u64 \<times> reader) got" where
  "blob_varint_loop 0 blob result shift r = Bad_access"
| "blob_varint_loop (Suc fuel) blob result shift r =
     (case getByte blob r of
        Past_end \<Rightarrow> Past_end
      | Bad_access \<Rightarrow> Bad_access
      | Got (t, r') \<Rightarrow>
          if 64 \<le> shift then Bad_access
          else (let result' = result OR push_bit shift (ucast (t AND 0x7f)) in
                if t AND 0x80 \<noteq> 0 then blob_varint_loop fuel blob result' (shift + 7) r'
                else Got (result', r')))"

definition getVarint :: "u8 list \<Rightarrow> reader \<Rightarrow> (u64 \<times> reader) got" where
  "getVarint blob r = blob_varint_loop 11 blob 0 0 r"

definition skip_bytes :: "test \<Rightarrow> reader \<Rightarrow> u64 \<Rightarrow> reader got" where
  "skip_bytes past r n =
     (if past (r_index r) n (r_size r) then Past_end else Got (r\<lparr>r_index := r_index r + n\<rparr>))"

text \<open>\<open>operator()(T &data, size_t n)\<close>: a span is an address and a length; nothing is read.\<close>

definition getSpan :: "test \<Rightarrow> reader \<Rightarrow> u64 \<Rightarrow> (span \<times> reader) got" where
  "getSpan past r n =
     (if past (r_index r) n (r_size r) then Past_end
      else Got ((r_base r + r_index r, n), r\<lparr>r_index := r_index r + n\<rparr>))"

text \<open>\<open>operator()(uint8_t (&data)[N])\<close>\<close>

definition getBytes :: "test \<Rightarrow> u8 list \<Rightarrow> reader \<Rightarrow> u64 \<Rightarrow> (u8 list \<times> reader) got" where
  "getBytes past blob r n =
     (if past (r_index r) n (r_size r) then Past_end
      else (case bytes_at blob (r_base r + r_index r) n of
              None \<Rightarrow> Bad_access
            | Some bs \<Rightarrow> Got (bs, r\<lparr>r_index := r_index r + n\<rparr>)))"

section \<open>The template\<close>

record block_template =
  t_blob :: "u8 list"
  t_coin :: coin
  t_nonceOffset :: u32
  t_minerTxPrefix :: u32
  t_minerTxPrefixEnd :: u32
  t_ephPublicKeyOffset :: u32
  t_txExtra :: u32
  t_txPubkey :: u32
  t_txExtraNonceOffset :: u32
  t_mergeMiningTagOffset :: u32
  t_majorVersion :: u8
  t_minorVersion :: u8
  t_timestamp :: u64
  t_prevId :: span
  t_minerSignature :: span
  t_vote :: "u8 list"
  t_txVersion :: u64
  t_unlockTime :: u64
  t_numInputs :: u64
  t_inputType :: u8
  t_height :: u64
  t_numOutputs :: u64
  t_amount :: u64
  t_outputType :: u8
  t_ephPublicKey :: span
  t_viewTag :: u8
  t_extraSize :: u64
  t_txExtraNonce :: span
  t_txMergeMiningTag :: span
  t_numHashes :: u64
  t_hashes :: "hash list"
  t_branch :: "hash list"
  t_path :: u32
  t_rootHash :: hash
  t_carrotViewTag :: "u8 list"
  t_janusAnchor :: "u8 list"
  t_treeLayers :: u8
  t_treeRoot :: hash

definition zero_hash :: hash where
  "zero_hash = replicate 32 0"

definition new_template :: block_template where
  "new_template =
     \<lparr>t_blob = [], t_coin = COIN_INVALID, t_nonceOffset = 0, t_minerTxPrefix = 0, t_minerTxPrefixEnd = 0,
      t_ephPublicKeyOffset = 0, t_txExtra = 0, t_txPubkey = 0, t_txExtraNonceOffset = 0,
      t_mergeMiningTagOffset = 0, t_majorVersion = 0, t_minorVersion = 0, t_timestamp = 0,
      t_prevId = (0, 0), t_minerSignature = (0, 0), t_vote = [0, 0], t_txVersion = 0, t_unlockTime = 0,
      t_numInputs = 0, t_inputType = 0, t_height = 0, t_numOutputs = 0, t_amount = 0, t_outputType = 0,
      t_ephPublicKey = (0, 0), t_viewTag = 0, t_extraSize = 0, t_txExtraNonce = (0, 0),
      t_txMergeMiningTag = (0, 0), t_numHashes = 0, t_hashes = [], t_branch = [], t_path = 0,
      t_rootHash = zero_hash, t_carrotViewTag = replicate 3 0, t_janusAnchor = replicate 16 0,
      t_treeLayers = 0, t_treeRoot = zero_hash\<rparr>"

definition blob_size :: "block_template \<Rightarrow> u64" where
  "blob_size t = of_nat (length (t_blob t))"

section \<open>Hashes\<close>

text \<open>The parameter \<open>keccak\<close> gives the 32 bytes of the digest.\<close>

type_synonym digest = "u8 list \<Rightarrow> hash"

definition known_second_hash :: hash where
  "known_second_hash =
     [188,54,120,158,122,30,40,20,54,70,66,41,130,143,129,125,102,18,247,180,119,214,101,145,255,150,169,224,100,188,201,138]"

definition calculateMinerTxHash :: "digest \<Rightarrow> u8 list \<Rightarrow> hash" where
  "calculateMinerTxHash keccak prefix = keccak (keccak prefix @ known_second_hash @ zero_hash)"

text \<open>The bytes between two offsets: \<open>None\<close> when they are not a part of the blob.\<close>

definition blob_range :: "u8 list \<Rightarrow> u32 \<Rightarrow> u32 \<Rightarrow> u8 list option" where
  "blob_range blob a b =
     (if unat a \<le> unat b \<and> unat b \<le> length blob then Some (take (unat b - unat a) (drop (unat a) blob))
      else None)"

definition hash_pair :: "digest \<Rightarrow> hash \<Rightarrow> hash \<Rightarrow> hash" where
  "hash_pair keccak a b = keccak (a @ b)"

text \<open>\<open>calculateRootHash\<close>: one round of the loop for each block of the branch.\<close>

fun root_loop :: "digest \<Rightarrow> hash list \<Rightarrow> u32 \<Rightarrow> hash \<Rightarrow> hash" where
  "root_loop keccak [] path root = root"
| "root_loop keccak (b # bs) path root =
     root_loop keccak bs path
       (if bit path (length bs) then hash_pair keccak b root else hash_pair keccak root b)"

definition calculateRootHash :: "digest \<Rightarrow> u8 list \<Rightarrow> hash list \<Rightarrow> u32 \<Rightarrow> hash" where
  "calculateRootHash keccak prefix branch path =
     root_loop keccak branch path (calculateMinerTxHash keccak prefix)"

section \<open>The tree of hashes\<close>

text \<open>
  What the loops over a level carry: the hash that is looked for, the branch and the path. A level is
  read in pairs; \<open>first\<close> tells the loop that builds the first full level, whose path is set to 1, from
  the others, which shift the path.
\<close>

record tracking =
  k_h2 :: hash
  k_branch :: "hash list"
  k_path :: u32

definition track_pair :: "bool \<Rightarrow> hash \<Rightarrow> hash \<Rightarrow> hash \<Rightarrow> tracking \<Rightarrow> tracking" where
  "track_pair first a b parent k =
     (if a = k_h2 k then
        \<lparr>k_h2 = parent, k_branch = k_branch k @ [b],
         k_path = (if first then k_path k else push_bit 1 (k_path k))\<rparr>
      else if b = k_h2 k then
        \<lparr>k_h2 = parent, k_branch = k_branch k @ [a],
         k_path = (if first then 1 else push_bit 1 (k_path k) OR 1)\<rparr>
      else k)"

fun level_loop :: "digest \<Rightarrow> bool \<Rightarrow> hash list \<Rightarrow> tracking \<Rightarrow> hash list \<times> tracking" where
  "level_loop keccak first (a # b # hs) k =
     (let parent = hash_pair keccak a b;
          (ps, k') = level_loop keccak first hs (track_pair first a b parent k)
      in (parent # ps, k'))"
| "level_loop keccak first _ k = ([], k)"

text \<open>The loop \<open>while (cnt >= 2)\<close> runs on a level of \<open>cnt\<close> hashes, a power of two.\<close>

function levels_loop :: "digest \<Rightarrow> hash list \<Rightarrow> tracking \<Rightarrow> hash list \<times> tracking" where
  "levels_loop keccak hs k =
     (if 2 \<le> length hs then (case level_loop keccak False hs k of (ps, k') \<Rightarrow> levels_loop keccak ps k')
      else (hs, k))"
  by pat_completeness auto

lemma length_level_loop: "length (fst (level_loop keccak first hs k)) = length hs div 2"
  by (induction keccak first hs k rule: level_loop.induct) (auto simp: Let_def split: prod.split)

termination levels_loop
proof (relation "measure (\<lambda>(_, hs, _). length hs)", goal_cases)
  case (2 keccak hs k ps k')
  then have "ps = fst (level_loop keccak False hs k)" by (metis fst_conv)
  then show ?case using 2(1) length_level_loop [of keccak False hs k] by simp
qed simp

declare levels_loop.simps [simp del]

text \<open>The largest power of two that is at most \<open>count\<close>.\<close>

function pow2_loop :: "nat \<Rightarrow> nat \<Rightarrow> nat" where
  "pow2_loop count cnt = (if 2 * cnt \<le> count \<and> 0 < cnt then pow2_loop count (2 * cnt) else cnt)"
  by pat_completeness auto
termination by (relation "measure (\<lambda>(count, cnt). count - cnt)") auto

declare pow2_loop.simps [simp del]

text \<open>
  \<open>calculateMerkleTreeHash\<close> for at least one hash and an index below their number: the root, the branch
  and the path.
\<close>

definition merkle_tree :: "digest \<Rightarrow> hash list \<Rightarrow> nat \<Rightarrow> hash \<times> hash list \<times> u32" where
  "merkle_tree keccak h index =
     (let count = length h in
      if count = 1 then (h ! 0, [], 0)
      else if count = 2 then
        (hash_pair keccak (h ! 0) (h ! 1), [h ! (if index = 0 then 1 else 0)], of_nat index)
      else
        (let cnt = pow2_loop count 1;
             k = cnt * 2 - count;
             (ps, tr) = level_loop keccak True (drop k h) \<lparr>k_h2 = h ! index, k_branch = [], k_path = 0\<rparr>;
             (top, tr') = levels_loop keccak (take k h @ ps) tr
         in (top ! 0, k_branch tr', k_path tr')))"

definition calculateMerkleTreeHash :: "digest \<Rightarrow> nat \<Rightarrow> block_template \<Rightarrow> block_template" where
  "calculateMerkleTreeHash keccak index t =
     (case merkle_tree keccak (t_hashes t) index of
        (root, branch, path) \<Rightarrow> t\<lparr>t_rootHash := root, t_branch := branch, t_path := path\<rparr>)"

section \<open>The hashing blob\<close>

text \<open>The loop that writes the number of transactions; \<open>k\<close> loses seven bits in every round.\<close>

function varint_bytes :: "u64 \<Rightarrow> u8 list" where
  "varint_bytes k =
     (if 0x80 \<le> k then ((ucast k AND 0x7f) OR 0x80) # varint_bytes (drop_bit 7 k) else [ucast k])"
  by pat_completeness auto

termination varint_bytes
proof (relation "measure unat", goal_cases)
  case (2 k)
  then have "128 \<le> unat k" by (simp add: word_le_nat_alt)
  then show ?case by (simp add: unat_drop_bit_eq drop_bit_eq_div unat_div)
qed simp

declare varint_bytes.simps [simp del]

definition generateHashingBlob :: "block_template \<Rightarrow> u8 list" where
  "generateHashingBlob t =
     take (unat (t_minerTxPrefix t)) (t_blob t) @ t_rootHash t @ varint_bytes (t_numHashes t + 1)"

section \<open>The steps of the parser\<close>

record parser =
  ps_t :: block_template
  ps_ar :: reader
  ps_extra :: reader
  ps_number :: u64
  ps_byte :: u8
  ps_pubkeyFirst :: bool

datatype outcome = Next parser | Return bool parser | Throw parser | Undefined | Running

type_synonym step = "parser \<Rightarrow> outcome"

datatype which = AR | AR_EXTRA

definition the_reader :: "which \<Rightarrow> parser \<Rightarrow> reader" where
  "the_reader w s = (case w of AR \<Rightarrow> ps_ar s | AR_EXTRA \<Rightarrow> ps_extra s)"

definition set_reader :: "which \<Rightarrow> reader \<Rightarrow> parser \<Rightarrow> parser" where
  "set_reader w r s = (case w of AR \<Rightarrow> s\<lparr>ps_ar := r\<rparr> | AR_EXTRA \<Rightarrow> s\<lparr>ps_extra := r\<rparr>)"

text \<open>A field of the template as the target of a statement.\<close>

definition fld :: "(('v \<Rightarrow> 'v) \<Rightarrow> block_template \<Rightarrow> block_template) \<Rightarrow> 'v \<Rightarrow> parser \<Rightarrow> parser" where
  "fld upd v s = s\<lparr>ps_t := upd (\<lambda>_. v) (ps_t s)\<rparr>"

definition number :: "u64 \<Rightarrow> parser \<Rightarrow> parser" where
  "number v s = s\<lparr>ps_number := v\<rparr>"

definition byte :: "u8 \<Rightarrow> parser \<Rightarrow> parser" where
  "byte v s = s\<lparr>ps_byte := v\<rparr>"

definition ignored :: "'v \<Rightarrow> parser \<Rightarrow> parser" where
  "ignored v s = s"

fun run :: "step list \<Rightarrow> step" where
  "run [] s = Next s"
| "run (f # fs) s = (case f s of Next s' \<Rightarrow> run fs s' | r \<Rightarrow> r)"

definition receive :: "which \<Rightarrow> ('v \<Rightarrow> parser \<Rightarrow> parser) \<Rightarrow> ('v \<times> reader) got \<Rightarrow> step" where
  "receive w set_value g s =
     (case g of Past_end \<Rightarrow> Throw s | Bad_access \<Rightarrow> Undefined
      | Got (v, r) \<Rightarrow> Next (set_value v (set_reader w r s)))"

definition ar_u8 :: "which \<Rightarrow> (u8 \<Rightarrow> parser \<Rightarrow> parser) \<Rightarrow> step" where
  "ar_u8 w set_value s = receive w set_value (getByte (t_blob (ps_t s)) (the_reader w s)) s"

definition ar_varint :: "which \<Rightarrow> (u64 \<Rightarrow> parser \<Rightarrow> parser) \<Rightarrow> step" where
  "ar_varint w set_value s = receive w set_value (getVarint (t_blob (ps_t s)) (the_reader w s)) s"

definition ar_span :: "test \<Rightarrow> which \<Rightarrow> (parser \<Rightarrow> u64) \<Rightarrow> (span \<Rightarrow> parser \<Rightarrow> parser) \<Rightarrow> step" where
  "ar_span past w n set_value s = receive w set_value (getSpan past (the_reader w s) (n s)) s"

definition ar_bytes :: "test \<Rightarrow> u64 \<Rightarrow> (u8 list \<Rightarrow> parser \<Rightarrow> parser) \<Rightarrow> step" where
  "ar_bytes past n set_value s =
     receive AR set_value (getBytes past (t_blob (ps_t s)) (ps_ar s) n) s"

definition ar_skip :: "test \<Rightarrow> which \<Rightarrow> (parser \<Rightarrow> u64) \<Rightarrow> step" where
  "ar_skip past w n s =
     (case skip_bytes past (the_reader w s) (n s) of
        Past_end \<Rightarrow> Throw s | Bad_access \<Rightarrow> Undefined | Got r \<Rightarrow> Next (set_reader w r s))"

text \<open>\<open>setOffset(..., ar.index())\<close> truncates the position to 32 bits.\<close>

definition set_offset :: "((u32 \<Rightarrow> u32) \<Rightarrow> block_template \<Rightarrow> block_template) \<Rightarrow> step" where
  "set_offset upd s = Next (fld upd (ucast (r_index (ps_ar s))) s)"

definition set_extra_offset :: "((u32 \<Rightarrow> u32) \<Rightarrow> block_template \<Rightarrow> block_template) \<Rightarrow> step" where
  "set_extra_offset upd s = Next (fld upd (ucast (ucast (t_txExtra (ps_t s)) + r_index (ps_extra s))) s)"

definition return_if :: "(parser \<Rightarrow> bool) \<Rightarrow> bool \<Rightarrow> step" where
  "return_if c b s = (if c s then Return b s else Next s)"

definition only_if :: "(parser \<Rightarrow> bool) \<Rightarrow> step list \<Rightarrow> step" where
  "only_if c fs s = (if c s then run fs s else Next s)"

definition has_coin :: "coin \<Rightarrow> parser \<Rightarrow> bool" where
  "has_coin c s \<longleftrightarrow> t_coin (ps_t s) = c"

definition is_fcmp_pp :: "parser \<Rightarrow> bool" where
  "is_fcmp_pp s \<longleftrightarrow> has_coin MONERO s \<and> 17 \<le> t_majorVersion (ps_t s)"

section \<open>The parser\<close>

definition parse_header :: "test \<Rightarrow> step list" where
  "parse_header past =
     [ar_u8 AR (fld t_majorVersion_update),
      ar_u8 AR (fld t_minorVersion_update),
      ar_varint AR (fld t_timestamp_update),
      ar_span past AR (\<lambda>_. 32) (fld t_prevId_update),
      set_offset t_nonceOffset_update,
      ar_skip past AR (\<lambda>_. 4),
      only_if (\<lambda>s. has_coin WOWNERO s \<and> 18 \<le> t_majorVersion (ps_t s))
        [ar_span past AR (\<lambda>_. 64) (fld t_minerSignature_update),
         ar_bytes past 2 (fld t_vote_update)],
      only_if (has_coin ZEPHYR) [ar_bytes past 120 ignored]]"

definition parse_input :: "test \<Rightarrow> step list" where
  "parse_input past =
     [set_offset t_minerTxPrefix_update,
      ar_varint AR (fld t_txVersion_update),
      only_if (\<lambda>s. \<not> has_coin TOWNFORGE s) [ar_varint AR (fld t_unlockTime_update)],
      ar_varint AR (fld t_numInputs_update),
      return_if (\<lambda>s. t_numInputs (ps_t s) \<noteq> 1) False,
      ar_u8 AR (fld t_inputType_update),
      return_if (\<lambda>s. t_inputType (ps_t s) \<noteq> 0xFF) False,
      ar_varint AR (fld t_height_update),
      ar_varint AR (fld t_numOutputs_update),
      return_if (\<lambda>s. if has_coin ZEPHYR s then t_numOutputs (ps_t s) < 2 else t_numOutputs (ps_t s) \<noteq> 1) False]"

text \<open>The outputs of Zephyr after the first one; the loop runs \<open>m_numOutputs - 1\<close> times.\<close>

fun zephyr_outputs :: "test \<Rightarrow> nat \<Rightarrow> step" where
  "zephyr_outputs past 0 s = Next s"
| "zephyr_outputs past (Suc n) s =
     run [ar_varint AR ignored,
          ar_u8 AR byte,
          return_if (\<lambda>s. ps_byte s \<noteq> 2) False,
          ar_span past AR (\<lambda>_. 32) ignored,
          ar_varint AR number,
          ar_skip past AR ps_number,
          ar_u8 AR ignored,
          zephyr_outputs past n] s"

definition parse_output :: "test \<Rightarrow> step list" where
  "parse_output past =
     [ar_varint AR (fld t_amount_update),
      ar_u8 AR (fld t_outputType_update),
      return_if (\<lambda>s. \<not> (is_fcmp_pp s \<and> t_outputType (ps_t s) = 0) \<and> t_outputType (ps_t s) \<noteq> 2
                       \<and> t_outputType (ps_t s) \<noteq> 3) False,
      set_offset t_ephPublicKeyOffset_update,
      ar_span past AR (\<lambda>_. 32) (fld t_ephPublicKey_update),
      only_if is_fcmp_pp
        [ar_bytes past 3 (fld t_carrotViewTag_update), ar_bytes past 16 (fld t_janusAnchor_update)],
      only_if (has_coin ZEPHYR)
        [return_if (\<lambda>s. t_outputType (ps_t s) \<noteq> 2) False,
         ar_varint AR number,
         ar_skip past AR ps_number,
         ar_u8 AR (fld t_viewTag_update),
         (\<lambda>s. zephyr_outputs past (unat (t_numOutputs (ps_t s)) - 1) s)],
      only_if (\<lambda>s. \<not> has_coin ZEPHYR s \<and> t_outputType (ps_t s) = 3) [ar_u8 AR (fld t_viewTag_update)],
      only_if (has_coin TOWNFORGE) [ar_varint AR (fld t_unlockTime_update)]]"

section \<open>The extra field\<close>

definition open_extra :: step where
  "open_extra s =
     Next (s\<lparr>ps_extra := new_blob_reader (ucast (t_txExtra (ps_t s))) (t_extraSize (ps_t s)), ps_pubkeyFirst := True\<rparr>)"

definition extra_pubkey :: "test \<Rightarrow> step list" where
  "extra_pubkey past =
     [only_if ps_pubkeyFirst
        [\<lambda>s. Next (s\<lparr>ps_pubkeyFirst := False\<rparr>), set_extra_offset t_txPubkey_update],
      ar_skip past AR_EXTRA (\<lambda>_. 32)]"

definition extra_nonce :: "test \<Rightarrow> step list" where
  "extra_nonce past =
     [ar_varint AR_EXTRA number,
      set_extra_offset t_txExtraNonceOffset_update,
      ar_span past AR_EXTRA ps_number (fld t_txExtraNonce_update)]"

definition extra_merge_mining :: "test \<Rightarrow> step list" where
  "extra_merge_mining past =
     [ar_varint AR_EXTRA number,
      set_extra_offset t_mergeMiningTagOffset_update,
      ar_span past AR_EXTRA ps_number (fld t_txMergeMiningTag_update)]"

definition extra_field :: "test \<Rightarrow> step" where
  "extra_field past s =
     (if ps_number s = 1 then run (extra_pubkey past) s
      else if ps_number s = 2 then run (extra_nonce past) s
      else if ps_number s = 3 then run (extra_merge_mining past) s
      else Return False s)"

fun extra_loop :: "test \<Rightarrow> nat \<Rightarrow> step" where
  "extra_loop past 0 s = (if r_index (ps_extra s) < t_extraSize (ps_t s) then Running else Next s)"
| "extra_loop past (Suc fuel) s =
     (if r_index (ps_extra s) < t_extraSize (ps_t s)
      then run [ar_varint AR_EXTRA number, extra_field past, extra_loop past fuel] s
      else Next s)"

definition parse_extra :: "test \<Rightarrow> nat \<Rightarrow> step list" where
  "parse_extra past fuel =
     [ar_varint AR (fld t_extraSize_update),
      set_offset t_txExtra_update,
      open_extra,
      ar_skip past AR (\<lambda>s. t_extraSize (ps_t s)),
      extra_loop past fuel]"

section \<open>The end of the miner transaction and the hashes\<close>

definition end_byte_wrong :: "parser \<Rightarrow> bool" where
  "end_byte_wrong s \<longleftrightarrow>
     r_index (ps_ar s) \<noteq> ucast (t_minerTxPrefixEnd (ps_t s)) + 1
     \<or> bytes_at (t_blob (ps_t s)) (ucast (t_minerTxPrefixEnd (ps_t s))) 1 \<noteq> Some [0]"

definition parse_end :: "step list" where
  "parse_end =
     [only_if (has_coin ZEPHYR) [ar_varint AR ignored, ar_varint AR ignored, ar_varint AR ignored],
      set_offset t_minerTxPrefixEnd_update,
      ar_u8 AR byte,
      return_if (\<lambda>s. has_coin TOWNFORGE s \<and> t_height (ps_t s) mod 720 = 0) True,
      return_if (\<lambda>s. ps_byte s \<noteq> 0) False,
      return_if end_byte_wrong False,
      ar_varint AR (fld t_numHashes_update)]"

definition coinbase_tx_index :: "parser \<Rightarrow> nat" where
  "coinbase_tx_index s = (if is_fcmp_pp s then 2 else 0)"

text \<open>\<open>m_hashes.resize(n)\<close> with the size in bytes, computed in 64 bits.\<close>

definition resize_hashes :: "(u64 \<Rightarrow> bool) \<Rightarrow> step" where
  "resize_hashes alloc s =
     (let n = (of_nat (coinbase_tx_index s) + t_numHashes (ps_t s) + 1) * 32 in
      if alloc n then Next (fld t_hashes_update (replicate (unat n div 32) zero_hash) s) else Throw s)"

text \<open>A hash written to the block \<open>i\<close> of the buffer.\<close>

definition put_hash :: "nat \<Rightarrow> hash \<Rightarrow> step" where
  "put_hash i h s =
     (if i < length (t_hashes (ps_t s)) then Next (fld t_hashes_update ((t_hashes (ps_t s))[i := h]) s)
      else Undefined)"

text \<open>The length of the prefix is cast to \<open>int\<close>.\<close>

definition put_miner_hash :: "digest \<Rightarrow> step" where
  "put_miner_hash keccak s =
     (case blob_range (t_blob (ps_t s)) (t_minerTxPrefix (ps_t s)) (t_minerTxPrefixEnd (ps_t s)) of
        None \<Rightarrow> Undefined
      | Some prefix \<Rightarrow>
          if 0x80000000 \<le> (of_nat (length prefix) :: u64) then Undefined
          else put_hash (coinbase_tx_index s) (calculateMinerTxHash keccak prefix) s)"

definition put_span :: "nat \<Rightarrow> span \<Rightarrow> step" where
  "put_span i h s =
     (case bytes_at (t_blob (ps_t s)) (fst h) (snd h) of None \<Rightarrow> Undefined | Some bs \<Rightarrow> put_hash i bs s)"

text \<open>\<open>n\<close> more hashes, the next one at position \<open>i\<close>.\<close>

fun hashes_loop :: "test \<Rightarrow> nat \<Rightarrow> nat \<Rightarrow> step" where
  "hashes_loop past 0 i s = Next s"
| "hashes_loop past (Suc n) i s =
     (case getSpan past (ps_ar s) 32 of
        Past_end \<Rightarrow> Throw s
      | Bad_access \<Rightarrow> Undefined
      | Got (h, r) \<Rightarrow> run [put_span (coinbase_tx_index s + i) h, hashes_loop past n (Suc i)] (set_reader AR r s))"

definition put_tree_root :: step where
  "put_tree_root s =
     run [put_hash 0 ((t_hashes (ps_t s) ! 0)[0 := t_treeLayers (ps_t s)]),
          put_hash 1 (t_treeRoot (ps_t s))] s"

definition parse_hashes :: "test \<Rightarrow> (u64 \<Rightarrow> bool) \<Rightarrow> digest \<Rightarrow> step list" where
  "parse_hashes past alloc keccak =
     [resize_hashes alloc,
      put_miner_hash keccak,
      (\<lambda>s. hashes_loop past (unat (t_numHashes (ps_t s))) 1 s),
      only_if is_fcmp_pp
        [ar_u8 AR (fld t_treeLayers_update), ar_bytes past 32 (fld t_treeRoot_update), put_tree_root],
      (\<lambda>s. Next (s\<lparr>ps_t := calculateMerkleTreeHash keccak (coinbase_tx_index s) (ps_t s)\<rparr>))]"

section \<open>The entry points\<close>

definition new_parser :: "block_template \<Rightarrow> parser" where
  "new_parser t =
     \<lparr>ps_t = t, ps_ar = new_blob_reader 0 (blob_size t), ps_extra = new_blob_reader 0 0, ps_number = 0, ps_byte = 0,
      ps_pubkeyFirst = True\<rparr>"

definition parse_with :: "test \<Rightarrow> (u64 \<Rightarrow> bool) \<Rightarrow> digest \<Rightarrow> nat \<Rightarrow> bool \<Rightarrow> block_template \<Rightarrow> outcome" where
  "parse_with past alloc keccak fuel hashes t =
     run (parse_header past @ parse_input past @ parse_output past @ parse_extra past fuel @ parse_end
          @ [only_if (\<lambda>_. hashes) (parse_hashes past alloc keccak)]) (new_parser t)"

text \<open>
  What a caller sees: the result and the template. \<open>Inl True\<close> stands for undefined behaviour and
  \<open>Inl False\<close> for a parser that is still running when the fuel is used up.
\<close>

definition finished :: "outcome \<Rightarrow> bool + bool \<times> block_template" where
  "finished r =
     (case r of
        Next s \<Rightarrow> Inr (True, ps_t s)
      | Return b s \<Rightarrow> Inr (b, ps_t s)
      | Throw s \<Rightarrow> Inr (False, ps_t s)
      | Undefined \<Rightarrow> Inl True
      | Running \<Rightarrow> Inl False)"

definition parse_template :: "(u64 \<Rightarrow> bool) \<Rightarrow> digest \<Rightarrow> nat \<Rightarrow> bool \<Rightarrow> block_template \<Rightarrow> bool + bool \<times> block_template" where
  "parse_template alloc keccak fuel hashes t = finished (parse_with past_end alloc keccak fuel hashes t)"

definition parse_buffer ::
    "(u64 \<Rightarrow> bool) \<Rightarrow> digest \<Rightarrow> nat \<Rightarrow> u8 list \<Rightarrow> coin \<Rightarrow> bool \<Rightarrow> block_template \<Rightarrow> bool + bool \<times> block_template" where
  "parse_buffer alloc keccak fuel blob coin hashes t =
     (if length blob < 76 then Inr (False, t)
      else parse_template alloc keccak fuel hashes (t\<lparr>t_blob := blob, t_coin := coin\<rparr>))"

text \<open>From hexadecimal text; what a failed decoder leaves in \<open>m_blob\<close> is not modelled.\<close>

definition parse_hex ::
    "(u64 \<Rightarrow> bool) \<Rightarrow> digest \<Rightarrow> nat \<Rightarrow> cstr \<Rightarrow> nat \<Rightarrow> coin \<Rightarrow> bool \<Rightarrow> block_template \<Rightarrow> bool + bool \<times> block_template" where
  "parse_hex alloc keccak fuel hex n coin hashes t =
     (if n < 152 then Inr (False, t)
      else (case fromHex_raw (n div 2) hex n of
              None \<Rightarrow> Inr (False, t)
            | Some blob \<Rightarrow> parse_template alloc keccak fuel hashes (t\<lparr>t_blob := blob, t_coin := coin\<rparr>)))"

definition parse_json ::
    "(u64 \<Rightarrow> bool) \<Rightarrow> digest \<Rightarrow> nat \<Rightarrow> json \<Rightarrow> coin \<Rightarrow> bool \<Rightarrow> block_template \<Rightarrow> bool + bool \<times> block_template" where
  "parse_json alloc keccak fuel v coin hashes t =
     (case v of JStr s \<Rightarrow> parse_hex alloc keccak fuel (Some s) (length s) coin hashes t | _ \<Rightarrow> Inr (False, t))"

definition parse_String ::
    "(u64 \<Rightarrow> bool) \<Rightarrow> digest \<Rightarrow> nat \<Rightarrow> cstr \<Rightarrow> coin \<Rightarrow> bool \<Rightarrow> block_template \<Rightarrow> bool + bool \<times> block_template" where
  "parse_String alloc keccak fuel s coin hashes t =
     parse_hex alloc keccak fuel s (str_size s) coin hashes t"

end
