(* ===== verification/Merkle_Props.thy ===== *)
theory Merkle_Props
  imports Block_Template
begin

text \<open>
  The tree of transaction hashes: the branch and the path that \<open>calculateMerkleTreeHash\<close> records for one
  leaf lead \<open>calculateRootHash\<close> from this leaf to the root, so that a miner that changes the coinbase
  transaction can recompute the root without the other transactions. The code finds the leaf on each
  level by comparing bytes; the claim therefore asks that the nodes of the tree are distinct.
\<close>

section \<open>Reference: the levels of the tree\<close>

fun level_up :: "digest \<Rightarrow> hash list \<Rightarrow> hash list" where
  "level_up keccak (a # b # hs) = hash_pair keccak a b # level_up keccak hs"
| "level_up keccak _ = []"

lemma length_level_up [simp]: "length (level_up keccak hs) = length hs div 2"
  by (induction keccak hs rule: level_up.induct) auto

function upper_nodes :: "digest \<Rightarrow> hash list \<Rightarrow> hash list" where
  "upper_nodes keccak hs =
     (if 2 \<le> length hs then level_up keccak hs @ upper_nodes keccak (level_up keccak hs) else [])"
  by pat_completeness auto
termination by (relation "measure (\<lambda>(_, hs). length hs)") auto

declare upper_nodes.simps [simp del]

definition tree_nodes :: "digest \<Rightarrow> hash list \<Rightarrow> hash list" where
  "tree_nodes keccak h =
     (let k = pow2_loop (length h) 1 * 2 - length h;
          ps = level_up keccak (drop k h)
      in h @ ps @ upper_nodes keccak (take k h @ ps))"

section \<open>The loops build the levels\<close>

lemma fst_level_loop: "fst (level_loop keccak first hs k) = level_up keccak hs"
  by (induction keccak first hs k rule: level_loop.induct) (auto simp: Let_def split: prod.split)

lemma level_loop_absent: "k_h2 k \<notin> set hs \<Longrightarrow> snd (level_loop keccak first hs k) = k"
  by (induction keccak first hs k rule: level_loop.induct)
    (auto simp: Let_def track_pair_def split: prod.split)

lemma level_loop_pair:
  "snd (level_loop keccak first (a # b # hs) k) =
     snd (level_loop keccak first hs (track_pair first a b (hash_pair keccak a b) k))"
  by (auto simp: Let_def split: prod.split)

section \<open>The branch so far leads to the tracked hash\<close>

definition leads :: "digest \<Rightarrow> hash \<Rightarrow> tracking \<Rightarrow> bool" where
  "leads keccak leaf k \<longleftrightarrow> root_loop keccak (k_branch k) (k_path k) leaf = k_h2 k"

lemma root_loop_cong:
  "\<forall>i < length bs. bit p i = bit q i \<Longrightarrow> root_loop keccak bs p r = root_loop keccak bs q r"
  by (induction bs arbitrary: r) auto

lemma root_loop_snoc:
  "root_loop keccak (bs @ [b]) path r =
     (let s = root_loop keccak bs (drop_bit 1 path) r
      in if bit path 0 then hash_pair keccak b s else hash_pair keccak s b)"
  by (induction bs arbitrary: r) (auto simp: Let_def bit_drop_bit_eq)

lemma root_loop_push:
  assumes "length bs \<le> 31"
  shows "root_loop keccak (bs @ [b]) (push_bit 1 path) r = hash_pair keccak (root_loop keccak bs path r) b"
    and "root_loop keccak (bs @ [b]) (push_bit 1 path OR 1) r = hash_pair keccak b (root_loop keccak bs path r)"
proof -
  have "root_loop keccak bs (drop_bit 1 (push_bit 1 path)) r = root_loop keccak bs path r"
    and "root_loop keccak bs (drop_bit 1 (push_bit 1 path OR 1)) r = root_loop keccak bs path r"
    using assms by (auto intro!: root_loop_cong simp: bit_drop_bit_eq bit_or_iff bit_1_iff mult.commute [of path 2] bit_double_iff)
  then show "root_loop keccak (bs @ [b]) (push_bit 1 path) r = hash_pair keccak (root_loop keccak bs path r) b"
    and "root_loop keccak (bs @ [b]) (push_bit 1 path OR 1) r = hash_pair keccak b (root_loop keccak bs path r)"
    by (simp_all add: root_loop_snoc Let_def bit_push_bit_iff bit_or_iff bit_1_iff del: push_bit_Suc)
qed

definition fresh_if :: "bool \<Rightarrow> tracking \<Rightarrow> bool" where
  "fresh_if first k \<longleftrightarrow> (first \<longrightarrow> k_path k = 0)"

lemma track_pair_leads:
  assumes "leads keccak leaf k" and "length (k_branch k) \<le> 31" and "fresh_if first k"
    and "k_h2 k = a \<or> k_h2 k = b"
  shows "leads keccak leaf (track_pair first a b (hash_pair keccak a b) k)"
    and "k_h2 (track_pair first a b (hash_pair keccak a b) k) = hash_pair keccak a b"
    and "length (k_branch (track_pair first a b (hash_pair keccak a b) k)) = Suc (length (k_branch k))"
proof -
  have "first \<Longrightarrow> push_bit 1 (k_path k) = 0" using assms(3) by (simp add: fresh_if_def)
  then show "leads keccak leaf (track_pair first a b (hash_pair keccak a b) k)"
    using assms root_loop_push [OF assms(2), where path = "k_path k" and r = leaf and keccak = keccak]
    by (auto simp: leads_def track_pair_def fresh_if_def)
qed (use assms in \<open>auto simp: track_pair_def\<close>)

lemma level_loop_leads:
  assumes "leads keccak leaf k" and "length (k_branch k) \<le> 31" and "fresh_if first k"
    and "k_h2 k \<in> set hs" and "even (length hs)" and "distinct (hs @ level_up keccak hs)"
  shows "let k' = snd (level_loop keccak first hs k)
    in leads keccak leaf k' \<and> k_h2 k' \<in> set (level_up keccak hs) \<and> length (k_branch k') = Suc (length (k_branch k))"
  using assms
proof (induction keccak hs arbitrary: k rule: level_up.induct)
  case (1 keccak a b hs)
  show ?case
  proof (cases "k_h2 k = a \<or> k_h2 k = b")
    case True
    let ?t = "track_pair first a b (hash_pair keccak a b) k"
    have "k_h2 ?t \<notin> set hs"
      using track_pair_leads(2) [OF 1(2,3,4) True] 1(7) by auto
    then show ?thesis
      using track_pair_leads [OF 1(2,3,4) True] by (simp add: level_loop_pair level_loop_absent del: level_loop.simps)
  next
    case False
    then have "track_pair first a b (hash_pair keccak a b) k = k" by (auto simp: track_pair_def)
    then show ?thesis using 1 False by (auto simp: level_loop_pair Let_def simp del: level_loop.simps)
  qed
qed auto

section \<open>All levels\<close>

lemma level_loop_eq:
  "level_loop keccak first hs k = (level_up keccak hs, snd (level_loop keccak first hs k))"
  using fst_level_loop by (metis prod.collapse)

lemma levels_loop_leads:
  assumes "leads keccak leaf k" and "k_h2 k \<in> set hs" and "length hs = 2 ^ n" and "length (k_branch k) + n \<le> 32"
    and "distinct (hs @ upper_nodes keccak hs)"
  shows "\<exists>top k'. levels_loop keccak hs k = ([top], k') \<and> root_loop keccak (k_branch k') (k_path k') leaf = top"
  using assms
proof (induction n arbitrary: hs k)
  case 0
  then obtain h where "hs = [h]" by (metis length_Suc_conv length_0_conv power_0 One_nat_def)
  then show ?case using 0 by (auto simp: levels_loop.simps leads_def)
next
  case (Suc n)
  let ?l = "level_loop keccak False hs k" and ?u = "level_up keccak hs"
  have two: "2 \<le> length hs" and half: "length hs div 2 = 2 ^ n" and ev: "even (length hs)" using Suc.prems(3) by auto
  have "upper_nodes keccak hs = ?u @ upper_nodes keccak ?u" using two by (simp add: upper_nodes.simps [of keccak hs])
  then have d: "distinct (hs @ ?u)" "distinct (?u @ upper_nodes keccak ?u)" using Suc.prems(5) by auto
  have "leads keccak leaf (snd ?l) \<and> k_h2 (snd ?l) \<in> set ?u \<and> length (k_branch (snd ?l)) = Suc (length (k_branch k))"
    using level_loop_leads [OF Suc.prems(1) _ _ Suc.prems(2) ev d(1), of False] Suc.prems(4)
    by (simp add: fresh_if_def Let_def)
  moreover have "levels_loop keccak hs k = levels_loop keccak ?u (snd ?l)"
    using two level_loop_eq [of keccak False hs k] by (subst levels_loop.simps) (metis case_prod_conv)
  ultimately show ?case using Suc.IH [of "snd ?l" ?u] half Suc.prems(4) d(2) by auto
qed

lemma pow2_loop_bounds:
  assumes "cnt = 2 ^ i" and "cnt \<le> count"
  shows "\<exists>n. pow2_loop count cnt = 2 ^ n \<and> 2 ^ n \<le> count \<and> count < 2 * 2 ^ n"
  using assms
proof (induction count cnt arbitrary: i rule: pow2_loop.induct)
  case (1 count cnt)
  show ?case
  proof (cases "2 * cnt \<le> count \<and> 0 < cnt")
    case True
    then have "pow2_loop count cnt = pow2_loop count (2 * cnt)" by (subst pow2_loop.simps) simp
    then show ?thesis using 1(1) [OF True, of "Suc i"] 1(2) True by simp
  next
    case False
    then have "pow2_loop count cnt = cnt" by (subst pow2_loop.simps) auto
    then show ?thesis using 1(2,3) False by (auto intro!: exI [of _ i])
  qed
qed

text \<open>
  The level below the first full one: either the leaf is already on the full level, or its pair is the
  first step of the branch.
\<close>

lemma first_level_leads:
  assumes i: "index < length h" and k: "k \<le> length h" and ev: "even (length h - k)"
    and d: "distinct (h @ level_up keccak (drop k h))"
  defines "t \<equiv> snd (level_loop keccak True (drop k h) \<lparr>k_h2 = h ! index, k_branch = [], k_path = 0\<rparr>)"
  shows "leads keccak (h ! index) t" and "k_h2 t \<in> set (take k h @ level_up keccak (drop k h))"
    and "length (k_branch t) \<le> 1"
proof -
  let ?t = "\<lparr>k_h2 = h ! index, k_branch = [], k_path = 0\<rparr> :: tracking"
  have l: "leads keccak (h ! index) ?t" by (simp add: leads_def)
  have split: "distinct (take k h @ drop k h)" using d by simp
  have dd: "distinct (drop k h @ level_up keccak (drop k h))"
    using d distinct_append [of h "level_up keccak (drop k h)"] set_drop_subset [of k h]
    by (auto simp: distinct_drop)
  have "leads keccak (h ! index) t \<and> k_h2 t \<in> set (take k h @ level_up keccak (drop k h)) \<and> length (k_branch t) \<le> 1"
  proof (cases "h ! index \<in> set (drop k h)")
    case True
    then show ?thesis
      using level_loop_leads [OF l _ _ _ _ dd, of True] ev by (auto simp: t_def fresh_if_def Let_def)
  next
    case False
    then have "h ! index \<in> set (take k h)"
      using i by (metis UnE append_take_drop_id nth_mem set_append)
    then show ?thesis using l False by (simp add: t_def level_loop_absent)
  qed
  then show "leads keccak (h ! index) t" and "k_h2 t \<in> set (take k h @ level_up keccak (drop k h))"
    and "length (k_branch t) \<le> 1" by auto
qed

lemma merkle_branch_root:
  assumes i: "index < length h" and small: "length h \<le> 2 ^ 31" and d: "distinct (tree_nodes keccak h)"
  shows "case merkle_tree keccak h index of
    (root, branch, path) \<Rightarrow> root_loop keccak branch path (h ! index) = root"
proof -
  consider (one) "length h = 1" | (two) "length h = 2" | (more) "3 \<le> length h" using i by linarith
  then show ?thesis
  proof cases
    case one then show ?thesis using i by (simp add: merkle_tree_def)
  next
    case two then show ?thesis using i by (auto simp: merkle_tree_def less_2_cases_iff)
  next
    case more
    obtain n where n: "pow2_loop (length h) 1 = 2 ^ n" "2 ^ n \<le> length h" "length h < 2 * 2 ^ n"
      using pow2_loop_bounds [of 1 0 "length h"] more by auto
    define k where "k = 2 ^ n * 2 - length h"
    let ?ps = "level_up keccak (drop k h)"
    obtain t where t: "level_loop keccak True (drop k h) \<lparr>k_h2 = h ! index, k_branch = [], k_path = 0\<rparr> = (?ps, t)"
      using level_loop_eq by blast
    have kh: "k \<le> length h" and ev: "even (length h - k)" and len: "length (take k h @ ?ps) = 2 ^ n"
      using n by (auto simp: k_def)
    have dn: "distinct (h @ ?ps @ upper_nodes keccak (take k h @ ?ps))" using d n(1) by (simp add: tree_nodes_def k_def Let_def)
    have d1: "distinct (h @ ?ps)" using dn by auto
    have d2: "distinct ((take k h @ ?ps) @ upper_nodes keccak (take k h @ ?ps))"
      using dn set_take_subset [of k h] by (auto simp: distinct_take)
    have "(2::nat) ^ n \<le> 2 ^ 31" using n(2) small by linarith
    then have "n \<le> 31" by (simp only: power_increasing_iff)
    then have b: "length (k_branch t) + n \<le> 32" using first_level_leads(3) [OF i kh ev d1] t by simp
    obtain top k' where "levels_loop keccak (take k h @ ?ps) t = ([top], k')"
      and "root_loop keccak (k_branch k') (k_path k') (h ! index) = top"
      using levels_loop_leads [OF first_level_leads(1,2) [OF i kh ev d1, unfolded t snd_conv] len b d2] by auto
    then show ?thesis
      using more n(1) t by (simp add: merkle_tree_def Let_def k_def [symmetric])
  qed
qed

end
