(* ===== verification/Template_Layout.thy ===== *)
theory Template_Layout
  imports Template_Props
begin

text \<open>
  The parser of block templates where no length points past the end of the blob. The parser with the exact
  test is the reference: whenever it does not throw, the code does the same, and the offsets it finds
  are in order and inside the blob.
\<close>

section \<open>The code follows the parser with the exact test\<close>

definition agree :: "step \<Rightarrow> step \<Rightarrow> bool" where
  "agree f g \<longleftrightarrow> (\<forall>s. (\<forall>t. f s \<noteq> Throw t) \<longrightarrow> g s = f s)"

lemma agreeI [intro]: "(\<And>s. (\<And>t. f s \<noteq> Throw t) \<Longrightarrow> g s = f s) \<Longrightarrow> agree f g"
  by (simp add: agree_def)


lemma agree_refl [simp]: "agree f f"
  by (simp add: agree_def)














section \<open>How the steps move the reader\<close>



definition layout :: "block_template \<Rightarrow> u8 list \<times> u32 \<times> u32 \<times> u32 \<times> u32 \<times> u32 \<times> u64" where
  "layout t = (t_blob t, t_nonceOffset t, t_minerTxPrefix t, t_minerTxPrefixEnd t, t_ephPublicKeyOffset t,
     t_txExtra t, t_extraSize t)"

definition keeps :: "('v \<Rightarrow> parser \<Rightarrow> parser) \<Rightarrow> bool" where
  "keeps f \<longleftrightarrow> (\<forall>v s. ps_ar (f v s) = ps_ar s \<and> layout (ps_t (f v s)) = layout (ps_t s))"


lemma keeps_simps [simp]:
  "keeps number" "keeps byte" "keeps ignored" "keeps (fld t_majorVersion_update)" "keeps (fld t_minorVersion_update)"
  "keeps (fld t_timestamp_update)" "keeps (fld t_prevId_update)" "keeps (fld t_minerSignature_update)"
  "keeps (fld t_vote_update)" "keeps (fld t_txVersion_update)" "keeps (fld t_unlockTime_update)"
  "keeps (fld t_numInputs_update)" "keeps (fld t_inputType_update)" "keeps (fld t_height_update)"
  "keeps (fld t_numOutputs_update)" "keeps (fld t_amount_update)" "keeps (fld t_outputType_update)"
  "keeps (fld t_ephPublicKey_update)" "keeps (fld t_carrotViewTag_update)" "keeps (fld t_janusAnchor_update)"
  "keeps (fld t_viewTag_update)" "keeps (fld t_txExtraNonce_update)" "keeps (fld t_txMergeMiningTag_update)"
  "keeps (fld t_numHashes_update)" "keeps (fld t_treeLayers_update)" "keeps (fld t_treeRoot_update)"
  by (simp_all add: keeps_def number_def byte_def ignored_def fld_def layout_def)
























text \<open>The steps on the extra field use a reader of their own.\<close>

definition aside :: "step \<Rightarrow> bool" where
  "aside f \<longleftrightarrow> (\<forall>s s'. f s = Next s' \<longrightarrow> ps_ar s' = ps_ar s \<and> layout (ps_t s') = layout (ps_t s))"



lemma aside_receive: "keeps f \<Longrightarrow> receive AR_EXTRA f g s = Next s' \<Longrightarrow> ps_ar s' = ps_ar s \<and> layout (ps_t s') = layout (ps_t s)"
  by (auto simp: receive_def keeps_def set_reader_def split: got.splits)

lemma aside_steps [simp]:
  "keeps f \<Longrightarrow> aside (ar_varint AR_EXTRA f)" "keeps g \<Longrightarrow> aside (ar_span past AR_EXTRA n g)"
  "aside (ar_skip past AR_EXTRA n)"
  "aside (set_extra_offset t_txPubkey_update)" "aside (set_extra_offset t_txExtraNonceOffset_update)"
  "aside (set_extra_offset t_mergeMiningTagOffset_update)"
  by (auto simp: aside_def ar_varint_def ar_span_def ar_skip_def set_reader_def set_extra_offset_def fld_def layout_def
      split: got.splits dest: aside_receive)



lemma aside_hashes [simp]:
  "aside (resize_hashes alloc)" "aside (put_hash i h)" "aside (put_span i sp)" "aside (put_miner_hash keccak)"
  "aside put_tree_root" "aside (\<lambda>s. Next (s\<lparr>ps_t := calculateMerkleTreeHash keccak (coinbase_tx_index s) (ps_t s)\<rparr>))"
  by (auto simp: aside_def resize_hashes_def put_hash_def put_span_def put_miner_hash_def put_tree_root_def Let_def
      fld_def layout_def calculateMerkleTreeHash_def split: if_splits option.splits outcome.splits prod.splits)


section \<open>The offsets\<close>

lemma run_append: "run (fs @ gs) s = (case run fs s of Next s' \<Rightarrow> run gs s' | r \<Rightarrow> r)"
  by (induction fs arbitrary: s) (auto split: outcome.split)









definition sample_template :: block_template where
  "sample_template = new_template\<lparr>t_coin := MONERO, t_blob :=
     [16, 16, 5] @ replicate 32 7 @ [0, 0, 0, 0] @ [2, 60, 1, 0xFF, 9, 1, 10, 3] @ replicate 32 8 @ [77]
     @ [39, 1] @ replicate 32 9 @ [2, 4, 1, 2, 3, 4] @ [0, 1] @ replicate 32 5\<rparr>"

definition toy_keccak :: digest where
  "toy_keccak bs = take 32 (1 # bs @ replicate 32 1)"

lemma sample_parses:
  "case parse_with past_end_exact (\<lambda>_. True) toy_keccak 3 True sample_template of
     Next s \<Rightarrow> t_minerTxPrefix (ps_t s) = 39 \<and> length (t_hashes (ps_t s)) = 2 \<and> distinct (tree_nodes toy_keccak (t_hashes (ps_t s)))
   | _ \<Rightarrow> False"
  by code_simp


section \<open>The root of the tree\<close>

text \<open>The leaf of the coinbase transaction stays where \<open>put_miner_hash\<close> wrote it.\<close>

definition miner_leaf :: "digest \<Rightarrow> parser \<Rightarrow> bool" where
  "miner_leaf keccak s \<longleftrightarrow>
     (\<exists>prefix. blob_range (t_blob (ps_t s)) (t_minerTxPrefix (ps_t s)) (t_minerTxPrefixEnd (ps_t s)) = Some prefix \<and>
        coinbase_tx_index s < length (t_hashes (ps_t s)) \<and>
        t_hashes (ps_t s) ! coinbase_tx_index s = calculateMinerTxHash keccak prefix)"

definition leaf_step :: "digest \<Rightarrow> step \<Rightarrow> bool" where
  "leaf_step keccak f \<longleftrightarrow> (\<forall>s s'. miner_leaf keccak s \<longrightarrow> f s = Next s' \<longrightarrow> miner_leaf keccak s')"

definition spares_leaf :: "('v \<Rightarrow> parser \<Rightarrow> parser) \<Rightarrow> bool" where
  "spares_leaf f \<longleftrightarrow> (\<forall>v s keccak. miner_leaf keccak s \<longrightarrow> miner_leaf keccak (f v s))"

lemma miner_leaf_reader [simp]: "miner_leaf keccak (set_reader AR r s) = miner_leaf keccak s"
  by (simp add: miner_leaf_def set_reader_def coinbase_tx_index_def is_fcmp_pp_def has_coin_def)

lemma spares_leaf_simps [simp]: "spares_leaf (fld t_treeLayers_update)" "spares_leaf (fld t_treeRoot_update)"
  by (simp_all add: spares_leaf_def miner_leaf_def fld_def coinbase_tx_index_def is_fcmp_pp_def has_coin_def)

lemma leaf_receive: "spares_leaf f \<Longrightarrow> miner_leaf keccak s \<Longrightarrow> receive AR f g s = Next s' \<Longrightarrow> miner_leaf keccak s'"
  by (auto simp: receive_def spares_leaf_def split: got.splits)

lemma leaf_put_hash:
  assumes "miner_leaf keccak s" and "i \<noteq> coinbase_tx_index s" and "put_hash i h s = Next s'"
  shows "miner_leaf keccak s'" and "coinbase_tx_index s' = coinbase_tx_index s"
  using assms by (auto simp: put_hash_def miner_leaf_def fld_def coinbase_tx_index_def is_fcmp_pp_def has_coin_def split: if_splits)

lemma leaf_hashes_loop: "0 < i \<Longrightarrow> leaf_step keccak (hashes_loop past n i)"
proof (induction n arbitrary: i)
  case (Suc n)
  show ?case unfolding leaf_step_def
  proof (intro allI impI)
    fix s s' assume l: "miner_leaf keccak s" and r: "hashes_loop past (Suc n) i s = Next s'"
    obtain h q s1 where p: "put_span (coinbase_tx_index s + i) h (set_reader AR q s) = Next s1"
      and rest: "hashes_loop past n (Suc i) s1 = Next s'"
      using r by (auto split: got.splits outcome.splits)
    have "coinbase_tx_index (set_reader AR q s) = coinbase_tx_index s"
      by (simp add: coinbase_tx_index_def is_fcmp_pp_def has_coin_def set_reader_def)
    then have "miner_leaf keccak s1"
      using p leaf_put_hash(1) [of keccak "set_reader AR q s" "coinbase_tx_index s + i" _ s1] l Suc.prems
      by (auto simp: put_span_def split: option.splits)
    then show "miner_leaf keccak s'" using rest Suc.IH [of "Suc i"] by (simp add: leaf_step_def)
  qed
qed (simp add: leaf_step_def)

lemma leaf_tree_root:
  assumes "miner_leaf keccak s" and "is_fcmp_pp s"
    and "run [ar_u8 AR (fld t_treeLayers_update), ar_bytes past 32 (fld t_treeRoot_update), put_tree_root] s = Next s'"
  shows "miner_leaf keccak s'"
proof -
  obtain s1 s2 where s1: "ar_u8 AR (fld t_treeLayers_update) s = Next s1" and s2: "ar_bytes past 32 (fld t_treeRoot_update) s1 = Next s2"
    and r: "put_tree_root s2 = Next s'" using assms(3) by (auto split: outcome.splits)
  have l: "miner_leaf keccak s2"
    using s1 s2 assms(1) by (auto simp: ar_u8_def ar_bytes_def elim!: leaf_receive [rotated 2])
  have "is_fcmp_pp s2"
    using s1 s2 assms(2) by (auto simp: ar_u8_def ar_bytes_def receive_def is_fcmp_pp_def has_coin_def fld_def set_reader_def
        the_reader_def split: got.splits)
  then have c: "coinbase_tx_index s2 = 2" by (simp add: coinbase_tx_index_def)
  obtain s3 where s3: "put_hash 0 ((t_hashes (ps_t s2) ! 0)[0 := t_treeLayers (ps_t s2)]) s2 = Next s3"
    and s4: "put_hash 1 (t_treeRoot (ps_t s2)) s3 = Next s'"
    using r by (auto simp: put_tree_root_def split: outcome.splits)
  show ?thesis using leaf_put_hash [OF l _ s3] leaf_put_hash(1) [OF _ _ s4] c by simp
qed

lemma put_miner_hash_leaf: "put_miner_hash keccak s = Next s' \<Longrightarrow> miner_leaf keccak s'"
  by (auto simp: put_miner_hash_def put_hash_def miner_leaf_def fld_def coinbase_tx_index_def is_fcmp_pp_def has_coin_def
      split: option.splits if_splits)

text \<open>C11: when the parser runs to its end with the hashes, the branch and the path that it records take
  \<open>calculateRootHash\<close> from the bytes of the miner transaction to the root of the tree, so a job that
  carries them can be hashed without the other transactions; the nodes of the tree have to be distinct.\<close>

theorem template_root:
  assumes r: "parse_with past alloc keccak fuel True t = Next s"
  defines "u \<equiv> ps_t s"
  assumes small: "length (t_hashes u) \<le> 2 ^ 31" and d: "distinct (tree_nodes keccak (t_hashes u))"
  shows "\<exists>prefix. blob_range (t_blob u) (t_minerTxPrefix u) (t_minerTxPrefixEnd u) = Some prefix \<and>
    calculateRootHash keccak prefix (t_branch u) (t_path u) = t_rootHash u"
proof -
  let ?m = "\<lambda>s. Next (s\<lparr>ps_t := calculateMerkleTreeHash keccak (coinbase_tx_index s) (ps_t s)\<rparr>)"
  obtain s0 where "run (parse_hashes past alloc keccak) s0 = Next s"
    using r unfolding parse_with_def
    by (auto simp: run_append only_if_def split: outcome.splits)
  then obtain s2 s3 s4 where s2: "miner_leaf keccak s2"
    and s3: "hashes_loop past (unat (t_numHashes (ps_t s2))) 1 s2 = Next s3"
    and s4: "only_if is_fcmp_pp [ar_u8 AR (fld t_treeLayers_update), ar_bytes past 32 (fld t_treeRoot_update), put_tree_root] s3 = Next s4"
    and s5: "?m s4 = Next s"
    by (auto simp: parse_hashes_def split: outcome.splits dest!: put_miner_hash_leaf)
  have "miner_leaf keccak s3" using s2 s3 leaf_hashes_loop [of 1 keccak] by (simp add: leaf_step_def)
  then have "miner_leaf keccak s4" using s4 leaf_tree_root by (auto simp: only_if_def split: if_splits)
  then obtain prefix where p: "blob_range (t_blob (ps_t s4)) (t_minerTxPrefix (ps_t s4)) (t_minerTxPrefixEnd (ps_t s4)) = Some prefix"
    "coinbase_tx_index s4 < length (t_hashes (ps_t s4))"
    "t_hashes (ps_t s4) ! coinbase_tx_index s4 = calculateMinerTxHash keccak prefix"
    by (auto simp: miner_leaf_def)
  have u: "u = calculateMerkleTreeHash keccak (coinbase_tx_index s4) (ps_t s4)" using s5 by (auto simp: u_def)
  then have "t_hashes u = t_hashes (ps_t s4)" by (simp add: calculateMerkleTreeHash_def split: prod.split)
  with merkle_branch_root [OF p(2), of keccak] small d p show ?thesis
    by (auto simp: u calculateMerkleTreeHash_def calculateRootHash_def split: prod.splits)
qed

theorem template_root_witness:
  "\<exists>u prefix. parse_with past_end_exact (\<lambda>_. True) toy_keccak 3 True sample_template = Next u \<and>
     t_minerTxPrefix (ps_t u) = 39 \<and>
     calculateRootHash toy_keccak prefix (t_branch (ps_t u)) (t_path (ps_t u)) = t_rootHash (ps_t u)"
proof -
  obtain s where s: "parse_with past_end_exact (\<lambda>_. True) toy_keccak 3 True sample_template = Next s"
    "t_minerTxPrefix (ps_t s) = 39" "length (t_hashes (ps_t s)) = 2" "distinct (tree_nodes toy_keccak (t_hashes (ps_t s)))"
    using sample_parses by (auto split: outcome.splits)
  show ?thesis using template_root [OF s(1)] s by auto
qed

end
