(* ===== verification/Template_Claims.thy ===== *)
theory Template_Claims
  imports Template_Layout
begin

text \<open>
  When the parser of block templates returns, and what it does with lengths that make its sums wrap.
\<close>

section \<open>The exact test terminates\<close>










text \<open>The reader of the extra field moves forward inside the field.\<close>

definition extra_idx :: "parser \<Rightarrow> nat" where
  "extra_idx s = unat (r_index (ps_extra s))"

definition extra_ok :: "parser \<Rightarrow> bool" where
  "extra_ok s \<longleftrightarrow> r_size (ps_extra s) = t_extraSize (ps_t s) \<and> extra_idx s \<le> unat (t_extraSize (ps_t s))"

definition advances :: "nat \<Rightarrow> step \<Rightarrow> bool" where
  "advances n f \<longleftrightarrow> (\<forall>s s'. extra_ok s \<longrightarrow> f s = Next s' \<longrightarrow>
     extra_ok s' \<and> extra_idx s + n \<le> extra_idx s' \<and> t_extraSize (ps_t s') = t_extraSize (ps_t s))"



definition spares_extra :: "('v \<Rightarrow> parser \<Rightarrow> parser) \<Rightarrow> bool" where
  "spares_extra f \<longleftrightarrow> (\<forall>v s. ps_extra (f v s) = ps_extra s \<and> t_extraSize (ps_t (f v s)) = t_extraSize (ps_t s))"

lemma spares_extra_simps [simp]:
  "spares_extra number" "spares_extra ignored" "spares_extra (fld t_txExtraNonce_update)" "spares_extra (fld t_txMergeMiningTag_update)"
  by (simp_all add: spares_extra_def number_def ignored_def fld_def)




lemma advances_offsets [simp]:
  "advances 0 (set_extra_offset t_txPubkey_update)" "advances 0 (set_extra_offset t_txExtraNonceOffset_update)"
  "advances 0 (set_extra_offset t_mergeMiningTagOffset_update)"
  by (simp_all add: advances_def set_extra_offset_def fld_def extra_ok_def extra_idx_def)








section \<open>Lengths that wrap\<close>

text \<open>The common start: a Monero template up to the size of the extra field.\<close>

definition sample_start :: "u8 list" where
  "sample_start = [16, 16, 5] @ replicate 32 7 @ [0, 0, 0, 0] @ [2, 60, 1, 0xFF, 9, 1, 10, 2] @ replicate 32 8"

text \<open>An extra field of eleven bytes whose nonce claims a length of \<open>2 ^ 64 - 11\<close>.\<close>

definition wrapping_blob :: "u8 list" where
  "wrapping_blob = sample_start @ [11, 2, 0xF5, 0xFF, 0xFF, 0xFF, 0xFF, 0xFF, 0xFF, 0xFF, 0xFF, 1]"

text \<open>A template that announces \<open>2 ^ 59\<close> transactions.\<close>

definition overflow_blob :: "u8 list" where
  "overflow_blob = sample_start @ [0, 0, 0x80, 0x80, 0x80, 0x80, 0x80, 0x80, 0x80, 0x80, 8] @ replicate 32 5"

text \<open>A template whose time stamp has eleven bytes.\<close>

definition long_blob :: "u8 list" where
  "long_blob = [16, 16] @ replicate 10 0x80 @ [1] @ replicate 70 0"

definition as_template :: "u8 list \<Rightarrow> block_template" where
  "as_template blob = new_template\<lparr>t_blob := blob, t_coin := MONERO\<rparr>"

definition wrapped :: "parser \<Rightarrow> bool" where
  "wrapped s \<longleftrightarrow> t_blob (ps_t s) = wrapping_blob \<and> ps_extra s = new_blob_reader 80 11 \<and> t_extraSize (ps_t s) = 11"

lemma wrapping_start:
  "case run (parse_header past_end @ parse_input past_end @ parse_output past_end @ take 4 (parse_extra past_end 0))
      (new_parser (as_template wrapping_blob)) of
     Next s \<Rightarrow> t_blob (ps_t s) = wrapping_blob \<and> r_base (ps_extra s) = 80 \<and> r_size (ps_extra s) = 11
        \<and> r_index (ps_extra s) = 0 \<and> t_extraSize (ps_t s) = 11
   | _ \<Rightarrow> False"
  by code_simp

lemma run_prefix: "run xs s = Next s' \<Longrightarrow> run (xs @ ys) s = run ys s'"
  by (simp add: run_append)

lemma run_undefined: "run (take n xs) s = Undefined \<Longrightarrow> run (xs @ ys) s = Undefined"
  by (subst append_take_drop_id [of n xs, symmetric]) (simp only: append.assoc, simp add: run_append)

lemma run_always: "run (xs @ [only_if (\<lambda>_. True) fs]) s = run (xs @ fs) s"
  by (simp add: run_append only_if_def split: outcome.split)

lemma wrapped_numbers:
  "getVarint wrapping_blob (new_blob_reader 80 11) = Got (2, \<lparr>r_base = 80, r_size = 11, r_index = 1\<rparr>)"
  "getVarint wrapping_blob \<lparr>r_base = 80, r_size = 11, r_index = 1\<rparr> = Got (- 11, \<lparr>r_base = 80, r_size = 11, r_index = 11\<rparr>)"
  by code_simp+

lemma wrapped_round:
  assumes "wrapped s"
  shows "\<exists>s'. wrapped s' \<and> extra_loop past_end (Suc n) s = extra_loop past_end n s'"
proof -
  let ?s1 = "number 2 (set_reader AR_EXTRA \<lparr>r_base = 80, r_size = 11, r_index = 1\<rparr> s)"
  let ?s2 = "number (- 11) (set_reader AR_EXTRA \<lparr>r_base = 80, r_size = 11, r_index = 11\<rparr> ?s1)"
  let ?s3 = "fld t_txExtraNonceOffset_update (ucast (ucast (t_txExtra (ps_t ?s2)) + r_index (ps_extra ?s2))) ?s2"
  let ?s4 = "fld t_txExtraNonce_update (91, - 11) (set_reader AR_EXTRA (new_blob_reader 80 11) ?s3)"
  have 1: "ar_varint AR_EXTRA number s = Next ?s1"
    using assms wrapped_numbers(1) by (simp add: wrapped_def ar_varint_def receive_def the_reader_def)
  have 2: "ar_varint AR_EXTRA number ?s1 = Next ?s2"
    using assms wrapped_numbers(2)
    by (simp add: wrapped_def ar_varint_def receive_def the_reader_def set_reader_def number_def)
  have 3: "set_extra_offset t_txExtraNonceOffset_update ?s2 = Next ?s3" by (simp add: set_extra_offset_def)
  have 4: "ar_span past_end AR_EXTRA ps_number (fld t_txExtraNonce_update) ?s3 = Next ?s4"
    by (simp add: ar_span_def getSpan_def past_end_def receive_def the_reader_def set_reader_def fld_def number_def new_blob_reader_def)
  have "extra_field past_end ?s1 = Next ?s4"
    using 2 3 4 by (simp add: extra_field_def extra_nonce_def) (simp add: number_def)
  then have "extra_loop past_end (Suc n) s = extra_loop past_end n ?s4"
    using 1 assms by (simp add: wrapped_def new_blob_reader_def split: outcome.split)
  moreover have "wrapped ?s4" using assms by (simp add: wrapped_def fld_def set_reader_def number_def new_blob_reader_def)
  ultimately show ?thesis by blast
qed

lemma wrapped_runs: "wrapped s \<Longrightarrow> extra_loop past_end fuel s = Running"
proof (induction fuel arbitrary: s)
  case 0
  then show ?case by (simp add: wrapped_def new_blob_reader_def)
next
  case (Suc fuel)
  obtain s' where "wrapped s'" and "extra_loop past_end (Suc fuel) s = extra_loop past_end fuel s'"
    using wrapped_round [OF Suc.prems, of fuel] by blast
  then show ?case using Suc.IH by (simp only:)
qed

lemma overflow_start:
  "case run (parse_header past_end @ parse_input past_end @ parse_output past_end @ parse_extra past_end 0 @ parse_end
        @ take 2 (parse_hashes past_end (\<lambda>n. n = 32) toy_keccak)) (new_parser (as_template overflow_blob)) of
     Next s \<Rightarrow> t_numHashes (ps_t s) = 2 ^ 59 \<and> length (t_hashes (ps_t s)) = 1 \<and> coinbase_tx_index s = 0
        \<and> bytes_at (t_blob (ps_t s)) (r_base (ps_ar s) + r_index (ps_ar s)) 32 \<noteq> None
        \<and> \<not> past_end (r_index (ps_ar s)) 32 (r_size (ps_ar s))
   | _ \<Rightarrow> False"
  by code_simp

lemma overflow_undefined:
  "parse_with past_end (\<lambda>n. n = 32) toy_keccak 0 True (as_template overflow_blob) = Undefined"
proof -
  obtain s where s: "run (parse_header past_end @ parse_input past_end @ parse_output past_end @ parse_extra past_end 0 @ parse_end
        @ take 2 (parse_hashes past_end (\<lambda>n. n = 32) toy_keccak)) (new_parser (as_template overflow_blob)) = Next s"
    and n: "t_numHashes (ps_t s) = 2 ^ 59" "length (t_hashes (ps_t s)) = 1" "coinbase_tx_index s = 0"
    and b: "bytes_at (t_blob (ps_t s)) (r_base (ps_ar s) + r_index (ps_ar s)) 32 \<noteq> None"
    and e: "\<not> past_end (r_index (ps_ar s)) 32 (r_size (ps_ar s))"
    using overflow_start by (auto split: outcome.splits)
  obtain m where "unat (t_numHashes (ps_t s)) = Suc m" using n(1) by (cases "unat (t_numHashes (ps_t s))") auto
  moreover have "hashes_loop past_end (Suc m) 1 s = Undefined"
    using n(2,3) b e by (auto simp: getSpan_def put_span_def put_hash_def set_reader_def split: option.split)
  ultimately have h: "hashes_loop past_end (unat (t_numHashes (ps_t s))) 1 s = Undefined" by simp
  have split: "parse_hashes past_end (\<lambda>n. n = 32) toy_keccak =
      take 2 (parse_hashes past_end (\<lambda>n. n = 32) toy_keccak) @ drop 2 (parse_hashes past_end (\<lambda>n. n = 32) toy_keccak)"
    by (rule append_take_drop_id [symmetric])
  have "run (parse_header past_end @ parse_input past_end @ parse_output past_end @ parse_extra past_end 0 @ parse_end
        @ parse_hashes past_end (\<lambda>n. n = 32) toy_keccak) (new_parser (as_template overflow_blob)) =
      run (drop 2 (parse_hashes past_end (\<lambda>n. n = 32) toy_keccak)) s"
    using run_prefix [OF s] by (subst split) (simp only: append.assoc)
  also have "\<dots> = Undefined" using h by (simp add: parse_hashes_def)
  finally show ?thesis
    using run_always [of "parse_header past_end @ parse_input past_end @ parse_output past_end @ parse_extra past_end 0 @ parse_end"
        "parse_hashes past_end (\<lambda>n. n = 32) toy_keccak" "new_parser (as_template overflow_blob)"]
    by (simp only: parse_with_def append.assoc)
qed

text \<open>C23: lengths that wrap. With a nonce of length \<open>2 ^ 64 - 11\<close> in an extra field of eleven bytes the
  parser never returns, however long it runs; with \<open>2 ^ 59\<close> announced transactions it allocates 32
  bytes and writes behind them; a number of eleven bytes shifts by 70 bits.\<close>

theorem template_hazards:
  "parse_buffer alloc keccak fuel wrapping_blob MONERO hashes new_template = Inl False \<and>
   parse_buffer (\<lambda>n. n = 32) toy_keccak 0 overflow_blob MONERO True new_template = Inl True \<and>
   parse_buffer alloc keccak fuel long_blob MONERO hashes new_template = Inl True"
proof (intro conjI)
  have swap: "new_template\<lparr>t_blob := b, t_coin := c\<rparr> = as_template b" if "c = MONERO" for b c
    using that by (simp add: as_template_def)
  obtain s where s: "run (parse_header past_end @ parse_input past_end @ parse_output past_end @ take 4 (parse_extra past_end 0))
      (new_parser (as_template wrapping_blob)) = Next s" and w: "wrapped s"
    using wrapping_start by (auto simp: wrapped_def new_blob_reader_def split: outcome.splits)
  have e: "parse_extra past_end fuel = take 4 (parse_extra past_end 0) @ [extra_loop past_end fuel]"
    by (simp add: parse_extra_def)
  have "run (parse_header past_end @ parse_input past_end @ parse_output past_end @ parse_extra past_end fuel @ rest)
      (new_parser (as_template wrapping_blob)) = run (extra_loop past_end fuel # rest) s" for rest
    using run_prefix [OF s, of "extra_loop past_end fuel # rest"] by (simp only: e append.assoc append_Cons append_Nil)
  then have "parse_with past_end alloc keccak fuel hashes (as_template wrapping_blob) = Running"
    unfolding parse_with_def using wrapped_runs [OF w, of fuel] by simp
  moreover have "76 \<le> length wrapping_blob" by (simp add: wrapping_blob_def sample_start_def)
  ultimately show "parse_buffer alloc keccak fuel wrapping_blob MONERO hashes new_template = Inl False"
    by (simp add: parse_buffer_def parse_template_def finished_def swap)
  have "76 \<le> length overflow_blob" by (simp add: overflow_blob_def sample_start_def)
  then show "parse_buffer (\<lambda>n. n = 32) toy_keccak 0 overflow_blob MONERO True new_template = Inl True"
    using overflow_undefined by (simp add: parse_buffer_def parse_template_def finished_def swap)
  have "run (take 3 (parse_header past_end)) (new_parser (as_template long_blob)) = Undefined"
    by code_simp
  then have "parse_with past_end alloc keccak fuel hashes (as_template long_blob) = Undefined"
    unfolding parse_with_def by (rule run_undefined)
  moreover have "76 \<le> length long_blob" by (simp add: long_blob_def)
  ultimately show "parse_buffer alloc keccak fuel long_blob MONERO hashes new_template = Inl True"
    by (simp add: parse_buffer_def parse_template_def finished_def swap)
qed

end
