(* ===== verification/Daemon_Client.thy ===== *)
theory Daemon_Client
  imports Block_Template Job_Result
begin

text \<open>
  The client of a daemon: \<open>base/net/stratum/DaemonClient.cpp\<close>, the policy of
  \<open>base/net/stratum/DaemonReconciliation.cpp\<close> and the part of \<open>base/net/stratum/BaseClient.cpp\<close> it uses.
  It turns a template of the shared source into a job of its own by writing 16 random bytes into the reserve,
  keeps the last jobs, builds the block of a share and sends it with \<open>submitblock\<close> up to four times.

  What the client asks of others goes to an output list, in order. \<open>m_sequence\<close> is shared by all clients;
  a step of its own stands for the numbers that others take. The clock, the random bytes, the answers
  of the verifier and the spend-key functions are in \<open>daemon_env\<close>. The rows of the live event stream and
  the log are left out. Operations that parse a template are \<open>None\<close> where the parser does not return.
\<close>

section \<open>Verdicts of the daemon\<close>

datatype decision_outcome = D_Accepted | D_Rejected | D_Indeterminate

record decision =
  de_outcome :: decision_outcome
  de_blockId :: string
  de_reason :: string

definition kMaxSubmitAttempts :: u32 where "kMaxSubmitAttempts = 4"
definition kRetryDelayMs :: u64 where "kRetryDelayMs = 2000"

definition hasRemainingSubmitAttempts :: "u32 \<Rightarrow> bool" where
  "hasRemainingSubmitAttempts n \<longleftrightarrow> n < kMaxSubmitAttempts"

definition shouldRetrySubmit :: "decision_outcome \<Rightarrow> u32 \<Rightarrow> bool" where
  "shouldRetrySubmit o1 n \<longleftrightarrow> o1 \<noteq> D_Accepted \<and> hasRemainingSubmitAttempts n"

definition nextSubmitAttemptAt :: "u64 \<Rightarrow> u64" where
  "nextSubmitAttemptAt now = now + kRetryDelayMs"

definition isSubmitRetryDue :: "u64 \<Rightarrow> u64 \<Rightarrow> bool" where
  "isSubmitRetryDue retryAt now \<longleftrightarrow> retryAt \<noteq> 0 \<and> retryAt \<le> now"

definition terminalSubmitOutcome :: "decision_outcome \<Rightarrow> bool \<Rightarrow> decision_outcome" where
  "terminalSubmitOutcome lst had = (if had \<and> lst \<noteq> D_Accepted then D_Indeterminate else lst)"

definition is_xdigit :: "char \<Rightarrow> bool" where
  "is_xdigit c \<longleftrightarrow> (let n = of_char c :: nat in 48 \<le> n \<and> n \<le> 57 \<or> 65 \<le> n \<and> n \<le> 70 \<or> 97 \<le> n \<and> n \<le> 102)"

definition normalizedHex :: "json \<Rightarrow> string \<Rightarrow> nat \<Rightarrow> string option" where
  "normalizedHex object key n =
     (case find_member object key of
        Some (JStr s) \<Rightarrow> if length s = n \<and> list_all is_xdigit s then Some (map to_lower s) else None
      | _ \<Rightarrow> None)"

definition classifySubmitResult :: "json \<Rightarrow> decision" where
  "classifySubmitResult result =
     (case result of
        JObj _ \<Rightarrow>
          (case find_member result ''status'' of
             Some (JStr status) \<Rightarrow>
               if status = [] \<or> NUL \<in> set status then
                 \<lparr>de_outcome = D_Indeterminate, de_blockId = [], de_reason = ''Missing or invalid submitblock status''\<rparr>
               else if status \<noteq> ''OK'' then
                 \<lparr>de_outcome = D_Rejected, de_blockId = [], de_reason = ''submitblock status: '' @ status\<rparr>
               else
                 (case find_member result ''block_id'' of
                    None \<Rightarrow> \<lparr>de_outcome = D_Accepted, de_blockId = [],
                             de_reason = ''submitblock returned status OK without block_id''\<rparr>
                  | Some _ \<Rightarrow>
                      (case normalizedHex result ''block_id'' 64 of
                         Some h \<Rightarrow> \<lparr>de_outcome = D_Accepted, de_blockId = h, de_reason = []\<rparr>
                       | None \<Rightarrow> \<lparr>de_outcome = D_Accepted, de_blockId = [],
                                   de_reason = ''submitblock returned status OK with an invalid block_id''\<rparr>))
           | _ \<Rightarrow> \<lparr>de_outcome = D_Indeterminate, de_blockId = [], de_reason = ''Missing or invalid submitblock status''\<rparr>)
      | _ \<Rightarrow> \<lparr>de_outcome = D_Indeterminate, de_blockId = [], de_reason = ''Invalid submitblock response''\<rparr>)"

text \<open>\<open>jsonString\<close> of \<open>DaemonClient.cpp\<close>.\<close>

definition jsonString :: "json \<Rightarrow> string \<Rightarrow> string option" where
  "jsonString object key =
     (case find_member object key of Some (JStr s) \<Rightarrow> if NUL \<in> set s then None else Some s | _ \<Rightarrow> None)"

definition dec_int :: "int \<Rightarrow> string" where
  "dec_int i = (if i < 0 then CHR ''-'' # dec (nat (- i)) else dec (nat i))"

section \<open>State\<close>

datatype socket_state =
  UnconnectedState | HostLookupState | ConnectingState | ConnectedState | ClosingState | ReconnectingState

record snapshot =
  sn_blocktemplateBlob :: cstr
  sn_blockhashingBlob :: cstr
  sn_seedHash :: cstr
  sn_previousSeedHash :: cstr
  sn_nextSeedHash :: cstr
  sn_ip :: cstr
  sn_prevHash :: cstr
  sn_difficulty :: u64
  sn_height :: u64
  sn_reservedOffset :: u64
  sn_reserveSize :: u64
  sn_sourceId :: u64
  sn_generation :: u64
  sn_fetchedSteadyMs :: u64

record job_context =
  jc_blocktemplate :: string
  jc_entropy :: cstr
  jc_hashingBlob :: cstr
  jc_jobId :: cstr
  jc_prevHash :: cstr
  jc_seedHash :: cstr
  jc_hasMinerSignature :: bool
  jc_hasViewTag :: bool
  jc_ephPublicKeyOffset :: nat
  jc_extraNonceOffset :: nat
  jc_nonceOffset :: nat
  jc_nonceSize :: nat
  jc_signatureOffset :: nat
  jc_txPublicKeyOffset :: nat
  jc_createdSteadyMs :: u64
  jc_difficulty :: u64
  jc_generation :: u64
  jc_height :: u64
  jc_sourceId :: u64

record daemon_submission =
  sb_result :: submit_result
  sb_blockBlob :: string
  sb_minerTxHash :: cstr
  sb_lastSubmitError :: string
  sb_hadIndeterminateOutcome :: bool
  sb_attemptStartedMs :: u64
  sb_retryDueMs :: u64
  sb_attempts :: u32

datatype daemon_action =
    DC_result submit_result cstr
  | DC_loginSuccess
  | DC_close int
  | DC_job job
  | DC_post int string u64 u64
  | DC_setSeedRoles u64 string string string
  | DC_prepareSeed string
  | DC_subscribe
  | DC_unsubscribe

record daemon_client =
  dc_id :: int
  dc_state :: socket_state
  dc_failures :: int
  dc_coin :: coin
  dc_wallet :: "bool \<times> coin"
  dc_pool :: pool
  dc_user :: cstr
  dc_contexts :: "job_context list"
  dc_pending :: "(int, daemon_submission) omap"
  dc_results :: "(int, submit_result) omap"
  dc_pendingSnapshot :: "snapshot option"
  dc_source :: bool
  dc_job :: job
  dc_ip :: cstr
  dc_sequence :: int
  dc_out :: "daemon_action list"

record daemon_env =
  dv_now :: u64
  dv_entropy :: "u8 list option"
  dv_ids :: "u8 list option list"
  dv_verifier :: bool
  dv_seedReady :: "string \<Rightarrow> bool"
  dv_acquire :: bool
  dv_keyOk :: "u8 list \<Rightarrow> bool"
  dv_setSpendKey :: "u8 list \<Rightarrow> job \<Rightarrow> job"
  dv_strerror :: "int \<Rightarrow> string"
  dv_alloc :: "u64 \<Rightarrow> bool"
  dv_keccak :: digest
  dv_fuel :: nat

definition dc_act :: "daemon_action \<Rightarrow> daemon_client \<Rightarrow> daemon_client" where
  "dc_act a c = c\<lparr>dc_out := dc_out c @ [a]\<rparr>"

definition kEntropySize :: nat where "kEntropySize = 16"
definition kJobHistorySize_daemon :: nat where "kJobHistorySize_daemon = 6"
definition kJobHistoryMs_daemon :: u64 where "kJobHistoryMs_daemon = 120000"

section \<open>Connection\<close>

definition dc_setState :: "socket_state \<Rightarrow> daemon_client \<Rightarrow> daemon_client" where
  "dc_setState st c =
     (if dc_state c = st then c
      else let c' = c\<lparr>dc_state := st\<rparr>
           in if st = ConnectedState then dc_act DC_loginSuccess (c'\<lparr>dc_failures := 0\<rparr>)
              else if st = UnconnectedState then c'\<lparr>dc_failures := -1\<rparr>
              else c')"

text \<open>The wallet is decoded by a function given as an argument: whether it is valid, and its coin.\<close>

definition dc_setPool :: "(cstr \<Rightarrow> cstr) \<Rightarrow> (cstr \<Rightarrow> (bool \<times> coin) \<Rightarrow> bool \<times> coin) \<Rightarrow> pool \<Rightarrow> daemon_client \<Rightarrow> daemon_client" where
  "dc_setPool expand decode p c =
     (let c1 = (if pool_isValid p then c\<lparr>dc_pool := p, dc_user := expand (p_user p)\<rparr> else c);
          wallet = decode (dc_user c1) (dc_wallet c1);
          coin = (if coin_isValid (p_coin p) then p_coin p else snd wallet)
      in c1\<lparr>dc_wallet := wallet,
            dc_coin := (if \<not> coin_isValid coin \<and> p_algorithm p = RX_WOW then WOWNERO else coin)\<rparr>)"

definition dc_connect :: "daemon_env \<Rightarrow> daemon_client \<Rightarrow> daemon_client" where
  "dc_connect env c =
     (if dc_state c = ConnectedState \<or> dc_state c = ConnectingState then c
      else
        let c1 = dc_setState ConnectingState c
        in if \<not> coin_isValid (dc_coin c1) \<and> \<not> algo_isValid (p_algorithm (dc_pool c1)) then dc_act (DC_close 1) c1
           else
             let c2 = (if algo_isValid (p_algorithm (dc_pool c1)) then c1
                       else c1\<lparr>dc_pool := (dc_pool c1)\<lparr>p_algorithm := coin_algorithm (dc_coin c1)\<rparr>\<rparr>)
             in if \<not> fst (dc_wallet c2) then dc_act (DC_close 1) c2
                else if \<not> dv_acquire env then dc_act (DC_close 1) (c2\<lparr>dc_source := False\<rparr>)
                else dc_act DC_subscribe (c2\<lparr>dc_source := True\<rparr>))"

section \<open>The end of a submission\<close>

text \<open>\<open>BaseClient::handleSubmitResponse\<close>\<close>

definition handleSubmitResponse :: "u64 \<Rightarrow> int \<Rightarrow> cstr \<Rightarrow> daemon_client \<Rightarrow> daemon_client" where
  "handleSubmitResponse now i err c =
     (case map_of (dc_results c) i of
        None \<Rightarrow> c
      | Some r \<Rightarrow>
          let c1 = dc_act (DC_result (submit_done now r) err) c
          in c1\<lparr>dc_results := AList.delete i (dc_results c1)\<rparr>)"

definition finalizeSubmission :: "u64 \<Rightarrow> int \<Rightarrow> submit_outcome \<Rightarrow> cstr \<Rightarrow> daemon_client \<Rightarrow> daemon_client" where
  "finalizeSubmission now i o1 message c =
     (case map_of (dc_pending c) i of
        None \<Rightarrow> c
      | Some s \<Rightarrow>
          let c1 = c\<lparr>dc_pending := AList.delete i (dc_pending c),
                     dc_results := om_put i ((sb_result s)\<lparr>sr_outcome := o1\<rparr>) (dc_results c)\<rparr>;
              minerError = (if o1 = OutcomeAccepted then None
                            else (case message of None \<Rightarrow> Some ''submitblock outcome ambiguous'' | Some m \<Rightarrow> Some m))
          in handleSubmitResponse now i minerError c1)"

definition retryOrFinalizeSubmission :: "u64 \<Rightarrow> int \<Rightarrow> submit_outcome \<Rightarrow> cstr \<Rightarrow> daemon_client \<Rightarrow> daemon_client" where
  "retryOrFinalizeSubmission now i o1 reason c =
     (case map_of (dc_pending c) i of
        None \<Rightarrow> c
      | Some s \<Rightarrow>
          if o1 \<noteq> OutcomeRejected \<and> o1 \<noteq> Ambiguous then c
          else
            let s1 = s\<lparr>sb_lastSubmitError := (case reason of None \<Rightarrow> ''submitblock did not return status OK'' | Some r \<Rightarrow> r),
                       sb_hadIndeterminateOutcome := (sb_hadIndeterminateOutcome s \<or> o1 = Ambiguous)\<rparr>;
                policy = (if o1 = OutcomeRejected then D_Rejected else D_Indeterminate)
            in if shouldRetrySubmit policy (sb_attempts s1)
               then c\<lparr>dc_pending := om_put i (s1\<lparr>sb_retryDueMs := nextSubmitAttemptAt now\<rparr>) (dc_pending c)\<rparr>
               else
                 let final = (if terminalSubmitOutcome policy (sb_hadIndeterminateOutcome s1) = D_Rejected
                              then OutcomeRejected else Ambiguous);
                     message = (if final = OutcomeRejected then ''submitblock rejected after ''
                                else ''submitblock outcome ambiguous after '')
                       @ dec (unat (sb_attempts s1)) @ '' attempts; last response: '' @ sb_lastSubmitError s1
                 in finalizeSubmission now i final (Some message) (c\<lparr>dc_pending := om_put i s1 (dc_pending c)\<rparr>))"

definition parseSubmitResponse :: "u64 \<Rightarrow> int \<Rightarrow> json \<Rightarrow> json \<Rightarrow> daemon_client \<Rightarrow> daemon_client" where
  "parseSubmitResponse now i result err c =
     (case map_of (dc_pending c) i of
        None \<Rightarrow> c
      | Some _ \<Rightarrow>
          (case err of
             JObj _ \<Rightarrow>
               (case jsonString err ''message'' of
                  None \<Rightarrow> retryOrFinalizeSubmission now i Ambiguous
                            (Some ''Missing, invalid, or embedded-NUL submitblock error message'') c
                | Some m \<Rightarrow> retryOrFinalizeSubmission now i OutcomeRejected (Some m) c)
           | _ \<Rightarrow>
               let d = classifySubmitResult result
               in (case de_outcome d of
                     D_Accepted \<Rightarrow> finalizeSubmission now i OutcomeAccepted
                       (if de_reason d = [] then None else Some (de_reason d)) c
                   | D_Rejected \<Rightarrow> retryOrFinalizeSubmission now i OutcomeRejected (Some (de_reason d)) c
                   | D_Indeterminate \<Rightarrow> retryOrFinalizeSubmission now i Ambiguous (Some (de_reason d)) c)))"

text \<open>
  An HTTP response to \<open>submitblock\<close>: the status, the number of the request and the parsed body or the text of
  the parse error.
\<close>

record http_data =
  hd_status :: int
  hd_rpcId :: int
  hd_doc :: "json + string"
  hd_ip :: string

definition dc_onHttpData :: "daemon_env \<Rightarrow> http_data \<Rightarrow> daemon_client \<Rightarrow> daemon_client" where
  "dc_onHttpData env d c =
     (let now = dv_now env;
          c1 = (if 0 < hd_status d then c\<lparr>dc_ip := Some (hd_ip d)\<rparr> else c)
      in if hd_status d \<noteq> 200 then
           retryOrFinalizeSubmission now (hd_rpcId d) Ambiguous
             (Some (if hd_status d < 0 then ''transport error: '' @ dv_strerror env (hd_status d)
                    else ''HTTP '' @ dec (nat (hd_status d)))) c1
         else
           (case hd_doc d of
              Inr e \<Rightarrow> retryOrFinalizeSubmission now (hd_rpcId d) Ambiguous (Some (''JSON decode failed: '' @ e)) c1
            | Inl doc \<Rightarrow>
                if getInt64 doc ''id'' (-1) \<noteq> hd_rpcId d
                then retryOrFinalizeSubmission now (hd_rpcId d) Ambiguous (Some ''Mismatched submitblock response id'') c1
                else parseSubmitResponse now (hd_rpcId d) (getObject doc ''result'') (getObject doc ''error'') c1))"

section \<open>Sending\<close>

definition dc_timeout :: "daemon_client \<Rightarrow> u64" where
  "dc_timeout c = max 5000 (min (p_jobTimeout (dc_pool c)) 60000)"

definition rpcSend :: "string \<Rightarrow> u64 \<Rightarrow> daemon_client \<Rightarrow> int \<times> daemon_client" where
  "rpcSend blob diff c =
     (let i = dc_sequence c
      in (i, dc_act (DC_post i blob (dc_timeout c) diff) (c\<lparr>dc_sequence := i + 1\<rparr>)))"

definition retrySubmission :: "u64 \<Rightarrow> int \<Rightarrow> daemon_client \<Rightarrow> daemon_client" where
  "retrySubmission now i c =
     (case map_of (dc_pending c) i of
        None \<Rightarrow> c
      | Some s \<Rightarrow>
          if sb_retryDueMs s = 0 \<or> \<not> hasRemainingSubmitAttempts (sb_attempts s) then c
          else
            let s' = s\<lparr>sb_attempts := sb_attempts s + 1, sb_retryDueMs := 0, sb_attemptStartedMs := now\<rparr>;
                c1 = c\<lparr>dc_pending := om_put (dc_sequence c) s' (AList.delete i (dc_pending c))\<rparr>
            in snd (rpcSend (sb_blockBlob s') (sr_actualDiff (sb_result s')) c1))"

section \<open>Jobs\<close>

fun trim_old :: "u64 \<Rightarrow> job_context list \<Rightarrow> job_context list" where
  "trim_old now (c # c' # cs) =
     (if jc_createdSteadyMs c + kJobHistoryMs_daemon \<le> now then trim_old now (c' # cs) else c # c' # cs)"
| "trim_old now cs = cs"

text \<open>\<open>trimContexts\<close>: the oldest context is the last one.\<close>

definition trimContexts :: "u64 \<Rightarrow> daemon_client \<Rightarrow> daemon_client" where
  "trimContexts now c = c\<lparr>dc_contexts := rev (trim_old now (rev (take kJobHistorySize_daemon (dc_contexts c))))\<rparr>"

definition findContext :: "cstr \<Rightarrow> daemon_client \<Rightarrow> job_context option" where
  "findContext jobId c = List.find (\<lambda>x. jc_jobId x = jobId) (dc_contexts c)"

definition prepareSpendKey :: "daemon_env \<Rightarrow> pool \<Rightarrow> block_template \<Rightarrow> job \<Rightarrow> job option" where
  "prepareSpendKey env p t j =
     (if snd (t_minerSignature t) = 0 then Some j
      else if str_size (p_spendSecretKey p) \<noteq> 64 then None
      else (case fromHex_raw 32 (p_spendSecretKey p) 64 of
              None \<Rightarrow> None
            | Some key \<Rightarrow> if dv_keyOk env key then Some (dv_setSpendKey env key j) else None))"

text \<open>The first random identifier that is not in use; the fourth collision gives up.\<close>

fun pick_jobId :: "daemon_client \<Rightarrow> nat \<Rightarrow> u8 list option list \<Rightarrow> cstr" where
  "pick_jobId c 0 ids = None"
| "pick_jobId c (Suc n) [] = None"
| "pick_jobId c (Suc n) (None # ids) = None"
| "pick_jobId c (Suc n) (Some i # ids) =
     (if findContext (toHex i) c = None then toHex i else pick_jobId c n ids)"

definition dc_parse :: "daemon_env \<Rightarrow> string \<Rightarrow> coin \<Rightarrow> bool + bool \<times> block_template" where
  "dc_parse env blob coin =
     parse_String (dv_alloc env) (dv_keccak env) (dv_fuel env) (Some blob) coin True new_template"

definition extra_offset :: "block_template \<Rightarrow> nat" where
  "extra_offset t = unat (t_txExtraNonceOffset t)"

text \<open>A difference of offsets, in \<open>size_t\<close>.\<close>

definition rel_offset :: "u32 \<Rightarrow> u32 \<Rightarrow> nat" where
  "rel_offset a b = unat (ucast a - ucast b :: u64)"

text \<open>The job and its context from the template with the entropy written into it.\<close>

definition derive_job ::
    "daemon_env \<Rightarrow> snapshot \<Rightarrow> string \<Rightarrow> cstr \<Rightarrow> nat \<Rightarrow> block_template \<Rightarrow> u8 list \<Rightarrow> daemon_client \<Rightarrow> (job \<times> job_context) option" where
  "derive_job env sn blocktemplate entropyHex xoff t prefix c =
     (let hashingBlob = toHex (generateHashingBlob t);
          j0 = setMinerTx prefix (rel_offset (t_ephPublicKeyOffset t) (t_minerTxPrefix t))
                 (rel_offset (t_txPubkey t) (t_minerTxPrefix t)) (rel_offset (t_txExtraNonceOffset t) (t_minerTxPrefix t))
                 (unat (snd (t_txExtraNonce t))) (concat (t_branch t)) (t_path t) (t_outputType t = 3)
                 (new_job False (p_algorithm (dc_pool c)) (Some (dec_int (dc_id c))))
      in (case prepareSpendKey env (dc_pool c) t j0 of
            None \<Rightarrow> None
          | Some j1 \<Rightarrow>
              let j2 = (if coin_isValid (dc_coin c) then j1\<lparr>j_algorithm := coin_algorithm (dc_coin c)\<rparr> else j1)
              in (case setBlob hashingBlob j2 of
                    (False, _) \<Rightarrow> None
                  | (True, j3) \<Rightarrow>
                      (case setSeedHash (sn_seedHash sn) j3 of
                         (False, _) \<Rightarrow> None
                       | (True, j4) \<Rightarrow>
                           let j5 = setDiff (sn_difficulty sn) (j4\<lparr>j_height := sn_height sn\<rparr>);
                               jobId = pick_jobId c 4 (dv_ids env)
                           in if str_is_empty jobId \<or> \<not> fst (setId jobId j5) then None
                              else
                                let j6 = setTemplateMetadata (sn_sourceId sn) (sn_generation sn) (sn_fetchedSteadyMs sn)
                                           entropyHex (sn_prevHash sn) (snd (setId jobId j5))
                                in Some (j6,
                                  \<lparr>jc_blocktemplate = blocktemplate, jc_entropy = entropyHex, jc_hashingBlob = hashingBlob,
                                   jc_jobId = jobId, jc_prevHash = sn_prevHash sn, jc_seedHash = sn_seedHash sn,
                                   jc_hasMinerSignature = (snd (t_minerSignature t) \<noteq> 0),
                                   jc_hasViewTag = (t_outputType t = 3),
                                   jc_ephPublicKeyOffset = unat (t_ephPublicKeyOffset t), jc_extraNonceOffset = xoff,
                                   jc_nonceOffset = nonceOffset j6, jc_nonceSize = nonceSize j6,
                                   jc_signatureOffset = nonceOffset j6 + nonceSize j6,
                                   jc_txPublicKeyOffset = unat (t_txPubkey t), jc_createdSteadyMs = dv_now env,
                                   jc_difficulty = sn_difficulty sn, jc_generation = sn_generation sn,
                                   jc_height = sn_height sn, jc_sourceId = sn_sourceId sn\<rparr>)))))"

definition publish_job :: "daemon_env \<Rightarrow> snapshot \<Rightarrow> job \<Rightarrow> job_context \<Rightarrow> daemon_client \<Rightarrow> daemon_client" where
  "publish_job env sn j ctx c =
     (let c1 = trimContexts (dv_now env) (c\<lparr>dc_contexts := ctx # dc_contexts c\<rparr>);
          c2 = c1\<lparr>dc_job := j, dc_ip := sn_ip sn\<rparr>;
          c3 = (if dc_state c2 = ConnectingState then dc_setState ConnectedState c2 else c2)
      in dc_act (DC_job j) c3)"

definition installTemplate :: "daemon_env \<Rightarrow> snapshot \<Rightarrow> daemon_client \<Rightarrow> (bool \<times> daemon_client) option" where
  "installTemplate env sn c =
     (case sn_blocktemplateBlob sn of
        None \<Rightarrow> Some (False, c)
      | Some blob \<Rightarrow>
          if unat (sn_reserveSize sn) \<noteq> kEntropySize \<or> blob = [] then Some (False, c)
          else (case dc_parse env blob (dc_coin c) of
                  Inl _ \<Rightarrow> None
                | Inr (False, _) \<Rightarrow> Some (False, c)
                | Inr (True, t0) \<Rightarrow>
                    let xoff = extra_offset t0
                    in if dc_coin c = MONERO \<and> toHex (generateHashingBlob t0) \<noteq> sn_blockhashingBlob sn then Some (False, c)
                       else if unat (snd (t_txExtraNonce t0)) \<noteq> kEntropySize \<or> unat (sn_reservedOffset sn) \<noteq> xoff
                            \<or> length (t_blob t0) < xoff + kEntropySize then Some (False, c)
                       else (case dv_entropy env of
                               None \<Rightarrow> Some (False, c)
                             | Some entropy \<Rightarrow>
                                 let entropyHex = toHex entropy;
                                     mutated = blit blob (xoff * 2) (the entropyHex)
                                 in (case dc_parse env mutated (dc_coin c) of
                                       Inl _ \<Rightarrow> None
                                     | Inr (False, _) \<Rightarrow> Some (False, c)
                                     | Inr (True, t) \<Rightarrow>
                                         if unat (snd (t_txExtraNonce t)) \<noteq> kEntropySize \<or> extra_offset t \<noteq> xoff
                                         then Some (False, c)
                                         else (case blob_range (t_blob t) (t_minerTxPrefix t) (t_minerTxPrefixEnd t) of
                                                 None \<Rightarrow> None
                                               | Some prefix \<Rightarrow>
                                                   (case derive_job env sn mutated entropyHex xoff t prefix c of
                                                      None \<Rightarrow> Some (False, c)
                                                    | Some (j, ctx) \<Rightarrow> Some (True, publish_job env sn j ctx c)))))))"

definition text_of :: "cstr \<Rightarrow> string" where
  "text_of s = (case s of None \<Rightarrow> [] | Some t \<Rightarrow> t)"

definition dc_onDaemonTemplate :: "daemon_env \<Rightarrow> snapshot \<Rightarrow> daemon_client \<Rightarrow> daemon_client option" where
  "dc_onDaemonTemplate env sn c =
     (if dc_state c = UnconnectedState then Some c
      else
        let c1 = (if dv_verifier env then
                    dc_act (DC_prepareSeed (text_of (sn_nextSeedHash sn)))
                      (dc_act (DC_prepareSeed (text_of (sn_seedHash sn)))
                        (dc_act (DC_setSeedRoles (sn_sourceId sn) (text_of (sn_previousSeedHash sn))
                           (text_of (sn_seedHash sn)) (text_of (sn_nextSeedHash sn))) c))
                  else c)
        in if dv_verifier env \<and> \<not> dv_seedReady env (text_of (sn_seedHash sn)) then Some (c1\<lparr>dc_pendingSnapshot := Some sn\<rparr>)
           else map_option snd (installTemplate env sn (c1\<lparr>dc_pendingSnapshot := None\<rparr>)))"

definition dc_tick :: "daemon_env \<Rightarrow> u64 \<Rightarrow> daemon_client \<Rightarrow> daemon_client option" where
  "dc_tick env now c =
     (let r = (case dc_pendingSnapshot c of
                 Some sn \<Rightarrow>
                   if dv_verifier env \<and> dv_seedReady env (text_of (sn_seedHash sn))
                   then map_option snd (installTemplate env sn (c\<lparr>dc_pendingSnapshot := None\<rparr>))
                   else Some c
               | None \<Rightarrow> Some c)
      in map_option (\<lambda>c1. fold (retrySubmission (dv_now env))
           (map fst (filter (\<lambda>(i, s). isSubmitRetryDue (sb_retryDueMs s) now) (dc_pending c1))) c1) r)"

section \<open>Shares\<close>

text \<open>The block of a share: the template of its job with the nonce, and for a signed template the signature and the keys.\<close>

definition block_of :: "job_context \<Rightarrow> job_result \<Rightarrow> string \<Rightarrow> string option" where
  "block_of ctx q nonce =
     (let b1 = blit (jc_blocktemplate ctx) (jc_nonceOffset ctx * 2) nonce;
          b2 = (if \<not> jc_hasMinerSignature ctx then Some b1
                else (case (q_sig q, q_sig_data q) of
                        (Some sg, Some sd) \<Rightarrow>
                          if length sg \<noteq> 128 \<or> length sd < 128 then None
                          else
                            let b = blit (blit (blit b1 (jc_signatureOffset ctx * 2) sg)
                                       (jc_txPublicKeyOffset ctx * 2) (take 64 sd))
                                     (jc_ephPublicKeyOffset ctx * 2) (take 64 (drop 64 sd))
                            in Some (if jc_hasViewTag ctx
                                     then blit b (jc_ephPublicKeyOffset ctx * 2 + 64) (bin2hex_loop [q_view_tag q]) else b)
                      | _ \<Rightarrow> None))
      in map_option (\<lambda>b. if 0 \<le> q_extra_nonce q
                          then blit b (jc_extraNonceOffset ctx * 2) (bin2hex_loop (take 4 (le_bytes (of_int (q_extra_nonce q)))))
                          else b) b2)"

definition dc_submit :: "daemon_env \<Rightarrow> job_result \<Rightarrow> daemon_client \<Rightarrow> (int \<times> daemon_client) option" where
  "dc_submit env q c0 =
     (let c = trimContexts (dv_now env) c0
      in (case (findContext (q_jobId q) c, q_nonce q) of
            (Some ctx, Some nonce) \<Rightarrow>
              if length nonce \<noteq> 8 then Some (-1, c)
              else (case block_of ctx q nonce of
                      None \<Rightarrow> Some (-1, c)
                    | Some block \<Rightarrow>
                        (case dc_parse env block (dc_coin c) of
                           Inl _ \<Rightarrow> None
                         | Inr (False, _) \<Rightarrow> Some (-1, c)
                         | Inr (True, t) \<Rightarrow>
                             (case blob_range (t_blob t) (t_minerTxPrefix t) (t_minerTxPrefixEnd t) of
                                None \<Rightarrow> None
                              | Some prefix \<Rightarrow>
                                  let i = dc_sequence c;
                                      r = \<lparr>sr_reqId = q_id q, sr_seq = i, sr_backend = 0, sr_shareId = q_shareId q,
                                           sr_actualDiff = q_actualDiff q, sr_diff = jc_difficulty ctx, sr_elapsed = 0,
                                           sr_height = jc_height ctx, sr_entropy = jc_entropy ctx, sr_jobId = q_jobId q,
                                           sr_templateGeneration = jc_generation ctx, sr_templateSourceId = jc_sourceId ctx,
                                           sr_minerDiff = q_minerDiff q, sr_outcome = Unspecified, sr_start = dv_now env\<rparr>;
                                      s = \<lparr>sb_result = r, sb_blockBlob = block,
                                           sb_minerTxHash = toHex (calculateMinerTxHash (dv_keccak env) prefix),
                                           sb_lastSubmitError = [], sb_hadIndeterminateOutcome = False,
                                           sb_attemptStartedMs = dv_now env, sb_retryDueMs = 0, sb_attempts = 1\<rparr>
                                  in Some (rpcSend block (q_actualDiff q) (c\<lparr>dc_pending := om_put i s (dc_pending c)\<rparr>)))))
          | _ \<Rightarrow> Some (-1, c)))"

section \<open>Disconnecting\<close>

text \<open>The loop of \<open>disconnect\<close> ends every pending submission, the one with the smallest number first.\<close>

definition finalize_all :: "u64 \<Rightarrow> daemon_client \<Rightarrow> daemon_client" where
  "finalize_all now c =
     fold (\<lambda>i. finalizeSubmission now i Ambiguous (Some ''daemon client disconnected before submitblock outcome was known''))
       (map fst (dc_pending c)) c"

definition dc_close_all :: "daemon_client \<Rightarrow> daemon_client" where
  "dc_close_all c =
     (let c1 = (if dc_source c then dc_act DC_unsubscribe (c\<lparr>dc_source := False\<rparr>) else c)
      in dc_setState UnconnectedState
           (c1\<lparr>dc_contexts := [], dc_pendingSnapshot := None, dc_pending := [], dc_results := [],
               dc_job := job_reset (dc_job c1)\<rparr>))"

definition dc_disconnect :: "daemon_env \<Rightarrow> daemon_client \<Rightarrow> daemon_client" where
  "dc_disconnect env c = dc_close_all (finalize_all (dv_now env) c)"

text \<open>The destructor: pending submissions are dropped without telling the listener.\<close>

definition dc_destroy :: "daemon_client \<Rightarrow> daemon_client" where
  "dc_destroy c = dc_close_all c"

definition new_daemon_client :: "int \<Rightarrow> pool \<Rightarrow> daemon_client" where
  "new_daemon_client i p =
     \<lparr>dc_id = i, dc_state = UnconnectedState, dc_failures = 0, dc_coin = COIN_INVALID, dc_wallet = (False, COIN_INVALID),
      dc_pool = p, dc_user = None, dc_contexts = [], dc_pending = [], dc_results = [], dc_pendingSnapshot = None,
      dc_source = False, dc_job = empty_job, dc_ip = None, dc_sequence = 1, dc_out = []\<rparr>"

end
