(* ===== verification/Daemon_Props.thy ===== *)
theory Daemon_Props
  imports Daemon_Client "HOL-Library.Multiset"
begin

text \<open>
  The book-keeping of the daemon client: every submission that was accepted from a miner is pending once or
  has been reported once, under the number its \<open>submit\<close> returned, and costs at most four requests.
\<close>

section \<open>Runs\<close>





section \<open>Accounts\<close>

fun reported_seq :: "daemon_action \<Rightarrow> int list" where
  "reported_seq (DC_result r e) = [sr_seq r]"
| "reported_seq _ = []"

fun is_post :: "daemon_action \<Rightarrow> bool" where
  "is_post (DC_post i b t d) = True"
| "is_post _ = False"

definition open_seqs :: "daemon_client \<Rightarrow> int multiset" where
  "open_seqs c = image_mset (\<lambda>(i, s). sr_seq (sb_result s)) (mset (dc_pending c))"

definition reported_seqs :: "daemon_client \<Rightarrow> int multiset" where
  "reported_seqs c = mset (concat (map reported_seq (dc_out c)))"

definition posts :: "daemon_client \<Rightarrow> nat" where
  "posts c = length (filter is_post (dc_out c))"

definition attempts_open :: "daemon_client \<Rightarrow> nat" where
  "attempts_open c = sum_mset (image_mset (\<lambda>(i, s). unat (sb_attempts s)) (mset (dc_pending c)))"

definition submission_ok :: "daemon_client \<Rightarrow> int \<times> daemon_submission \<Rightarrow> bool" where
  "submission_ok c e \<longleftrightarrow> (case e of (i, s) \<Rightarrow> i < dc_sequence c \<and> sr_seq (sb_result s) < dc_sequence c
     \<and> 1 \<le> unat (sb_attempts s) \<and> unat (sb_attempts s) \<le> 4)"

definition dc_ok :: "daemon_client \<Rightarrow> bool" where
  "dc_ok c \<longleftrightarrow> om_ok (dc_pending c) \<and> dc_results c = [] \<and> 1 \<le> dc_sequence c
     \<and> (\<forall>e \<in># mset (dc_pending c). submission_ok c e)
     \<and> posts c \<le> attempts_open c + 4 * size (reported_seqs c)"

definition balanced :: "daemon_client \<Rightarrow> daemon_client \<Rightarrow> bool" where
  "balanced c c' \<longleftrightarrow> (dc_ok c \<longrightarrow> dc_ok c' \<and> open_seqs c' + reported_seqs c' = open_seqs c + reported_seqs c
     \<and> dc_sequence c \<le> dc_sequence c')"

lemma balanced_refl [simp]: "balanced c c"
  by (simp add: balanced_def)










text \<open>Steps that leave the accounts alone.\<close>

definition quiet :: "daemon_client \<Rightarrow> daemon_client \<Rightarrow> bool" where
  "quiet c c' \<longleftrightarrow> dc_pending c' = dc_pending c \<and> dc_results c' = dc_results c \<and> dc_sequence c \<le> dc_sequence c'
     \<and> reported_seqs c' = reported_seqs c \<and> posts c' = posts c"


lemma quiet_refl [simp]: "quiet c c" by (simp add: quiet_def)


lemma quiet_act [simp]: "reported_seq a = [] \<Longrightarrow> \<not> is_post a \<Longrightarrow> quiet c (dc_act a c)"
  by (simp add: quiet_def dc_act_def reported_seqs_def posts_def)




















section \<open>What a response decides\<close>

text \<open>The verdict of a response, read off the protocol: only an answer to this very request counts.\<close>

definition body_verdict :: "json \<Rightarrow> json \<Rightarrow> decision_outcome" where
  "body_verdict result err =
     (case err of
        JObj ms \<Rightarrow> if jsonString (JObj ms) ''message'' = None then D_Indeterminate else D_Rejected
      | _ \<Rightarrow> de_outcome (classifySubmitResult result))"

definition verdict :: "http_data \<Rightarrow> decision_outcome" where
  "verdict d =
     (case hd_doc d of
        Inl doc \<Rightarrow>
          if hd_status d \<noteq> 200 \<or> getInt64 doc ''id'' (-1) \<noteq> hd_rpcId d then D_Indeterminate
          else body_verdict (getObject doc ''result'') (getObject doc ''error'')
      | Inr _ \<Rightarrow> D_Indeterminate)"

definition outcome_of :: "decision_outcome \<Rightarrow> submit_outcome" where
  "outcome_of v = (case v of D_Accepted \<Rightarrow> OutcomeAccepted | D_Rejected \<Rightarrow> OutcomeRejected | D_Indeterminate \<Rightarrow> Ambiguous)"

definition act_on :: "u64 \<Rightarrow> int \<Rightarrow> decision_outcome \<Rightarrow> cstr \<Rightarrow> daemon_client \<Rightarrow> daemon_client" where
  "act_on now i v reason c =
     (if v = D_Accepted then finalizeSubmission now i OutcomeAccepted reason c
      else retryOrFinalizeSubmission now i (outcome_of v) reason c)"

lemma parse_acts:
  assumes "map_of (dc_pending c) i = Some s"
  shows "\<exists>reason. parseSubmitResponse now i result err c = act_on now i (body_verdict result err) reason c"
proof (cases "\<exists>ms. err = JObj ms")
  case True
  then show ?thesis
    by (auto simp: parseSubmitResponse_def assms body_verdict_def act_on_def outcome_of_def split: option.split)
next
  case False
  then have b: "body_verdict result err = de_outcome (classifySubmitResult result)"
    by (simp add: body_verdict_def split: json.split)
  have "parseSubmitResponse now i result err c =
      (let d = classifySubmitResult result
       in (case de_outcome d of
             D_Accepted \<Rightarrow> finalizeSubmission now i OutcomeAccepted (if de_reason d = [] then None else Some (de_reason d)) c
           | D_Rejected \<Rightarrow> retryOrFinalizeSubmission now i OutcomeRejected (Some (de_reason d)) c
           | D_Indeterminate \<Rightarrow> retryOrFinalizeSubmission now i Ambiguous (Some (de_reason d)) c))"
    using False by (simp add: parseSubmitResponse_def assms split: json.split)
  then show ?thesis
    unfolding b act_on_def outcome_of_def Let_def by (cases "de_outcome (classifySubmitResult result)") auto
qed

lemma http_acts:
  assumes "map_of (dc_pending c) (hd_rpcId d) = Some s"
  shows "\<exists>ip reason. dc_onHttpData env d c = act_on (dv_now env) (hd_rpcId d) (verdict d) reason (c\<lparr>dc_ip := ip\<rparr>)"
proof -
  let ?c = "c\<lparr>dc_ip := if 0 < hd_status d then Some (hd_ip d) else dc_ip c\<rparr>"
  have ip: "(if 0 < hd_status d then c\<lparr>dc_ip := Some (hd_ip d)\<rparr> else c) = ?c" by simp
  have s: "map_of (dc_pending ?c) (hd_rpcId d) = Some s" using assms by simp
  have amb: "retryOrFinalizeSubmission (dv_now env) (hd_rpcId d) Ambiguous r ?c =
      act_on (dv_now env) (hd_rpcId d) D_Indeterminate r ?c" for r
    by (simp add: act_on_def outcome_of_def)
  have "\<exists>reason. dc_onHttpData env d c = act_on (dv_now env) (hd_rpcId d) (verdict d) reason ?c"
  proof (cases "hd_doc d")
    case (Inr e)
    then show ?thesis unfolding dc_onHttpData_def Let_def ip verdict_def amb by (cases "hd_status d = 200") auto
  next
    case (Inl doc)
    show ?thesis
    proof (cases "hd_status d = 200 \<and> getInt64 doc ''id'' (-1) = hd_rpcId d")
      case True
      then show ?thesis
        using Inl parse_acts [OF s, of "dv_now env" "getObject doc ''result''" "getObject doc ''error''"]
        unfolding dc_onHttpData_def Let_def ip verdict_def by simp
    next
      case False
      then show ?thesis using Inl unfolding dc_onHttpData_def Let_def ip verdict_def amb
        by (cases "hd_status d = 200") auto
    qed
  qed
  then show ?thesis by blast
qed

lemma finalize_reports:
  assumes "map_of (dc_pending c) i = Some s" and "dc_results c = []"
  shows "\<exists>e. finalizeSubmission now i o1 msg c =
    c\<lparr>dc_pending := AList.delete i (dc_pending c),
      dc_out := dc_out c @ [DC_result (submit_done now ((sb_result s)\<lparr>sr_outcome := o1\<rparr>)) e]\<rparr> \<and> (e = None \<longleftrightarrow> o1 = OutcomeAccepted)"
  using assms
  by (intro exI [of _ "if o1 = OutcomeAccepted then None
        else (case msg of None \<Rightarrow> Some ''submitblock outcome ambiguous'' | Some m \<Rightarrow> Some m)"])
    (auto simp: finalizeSubmission_def handleSubmitResponse_def dc_act_def Let_def split: option.split)

text \<open>C3: what a response to a pending submission does. Status OK ends it at once as accepted; anything else
  is tried again two seconds later while fewer than four attempts were made; the fourth failure ends it,
  as rejected when every attempt was explicitly rejected and as ambiguous otherwise.\<close>

theorem daemon_verdict:
  fixes env :: daemon_env
  assumes s: "map_of (dc_pending c) (hd_rpcId d) = Some s" and r: "dc_results c = []" and om: "om_ok (dc_pending c)"
  defines "c' \<equiv> dc_onHttpData env d c"
  shows "if verdict d \<noteq> D_Accepted \<and> sb_attempts s < 4 then
      dc_out c' = dc_out c \<and> (\<exists>e. map_of (dc_pending c') (hd_rpcId d) =
        Some (s\<lparr>sb_lastSubmitError := e, sb_retryDueMs := dv_now env + 2000,
               sb_hadIndeterminateOutcome := (sb_hadIndeterminateOutcome s \<or> verdict d = D_Indeterminate)\<rparr>))
    else map_of (dc_pending c') (hd_rpcId d) = None \<and>
      (\<exists>e. dc_out c' = dc_out c @ [DC_result (submit_done (dv_now env) ((sb_result s)\<lparr>sr_outcome :=
         (if verdict d = D_Accepted then OutcomeAccepted
          else if verdict d = D_Rejected \<and> \<not> sb_hadIndeterminateOutcome s then OutcomeRejected else Ambiguous)\<rparr>)) e])"
proof -
  obtain ip reason where c': "c' =
     (if verdict d = D_Accepted then finalizeSubmission (dv_now env) (hd_rpcId d) OutcomeAccepted reason (c\<lparr>dc_ip := ip\<rparr>)
      else retryOrFinalizeSubmission (dv_now env) (hd_rpcId d) (outcome_of (verdict d)) reason (c\<lparr>dc_ip := ip\<rparr>))"
    using http_acts [OF s] unfolding c'_def act_on_def by blast
  let ?i = "hd_rpcId d" and ?c = "c\<lparr>dc_ip := ip\<rparr>"
  show ?thesis
  proof (cases "verdict d = D_Accepted")
    case True
    then show ?thesis
      using finalize_reports [of ?c ?i s "dv_now env" OutcomeAccepted reason] s r c' by (auto simp: delete_conv')
  next
    case False
    let ?s = "s\<lparr>sb_lastSubmitError := (case reason of None \<Rightarrow> ''submitblock did not return status OK'' | Some x \<Rightarrow> x),
               sb_hadIndeterminateOutcome := (sb_hadIndeterminateOutcome s \<or> outcome_of (verdict d) = Ambiguous)\<rparr>"
    have o: "outcome_of (verdict d) = OutcomeRejected \<or> outcome_of (verdict d) = Ambiguous"
      and amb: "outcome_of (verdict d) = Ambiguous \<longleftrightarrow> verdict d = D_Indeterminate"
      and rej: "outcome_of (verdict d) = OutcomeRejected \<longleftrightarrow> verdict d = D_Rejected"
      using False by (cases "verdict d"; simp add: outcome_of_def)+
    show ?thesis
    proof (cases "sb_attempts s < 4")
      case True
      then have "c' = ?c\<lparr>dc_pending := om_put ?i (?s\<lparr>sb_retryDueMs := dv_now env + 2000\<rparr>) (dc_pending c)\<rparr>"
        using c' False o s
        by (auto simp: retryOrFinalizeSubmission_def Let_def shouldRetrySubmit_def hasRemainingSubmitAttempts_def
            kMaxSubmitAttempts_def nextSubmitAttemptAt_def kRetryDelayMs_def)
      then show ?thesis using True False amb om
        by (auto simp: map_of_om_put intro!: exI [of _ "case reason of None \<Rightarrow> ''submitblock did not return status OK'' | Some x \<Rightarrow> x"])
    next
      case few: False
      let ?d = "?c\<lparr>dc_pending := om_put ?i ?s (dc_pending c)\<rparr>"
      let ?o = "if verdict d = D_Rejected \<and> \<not> sb_hadIndeterminateOutcome s then OutcomeRejected else Ambiguous"
      obtain m where "c' = finalizeSubmission (dv_now env) ?i ?o (Some m) ?d"
        using c' False o s few rej amb
        by (cases "verdict d"; cases "sb_hadIndeterminateOutcome s")
          (auto simp: retryOrFinalizeSubmission_def Let_def shouldRetrySubmit_def hasRemainingSubmitAttempts_def
            kMaxSubmitAttempts_def terminalSubmitOutcome_def outcome_of_def)
      moreover have "map_of (dc_pending ?d) ?i = Some ?s" "dc_results ?d = []" using om r by (simp_all add: map_of_om_put)
      ultimately show ?thesis
        using finalize_reports [of ?d ?i ?s "dv_now env" ?o "Some m"] False few by (auto simp: delete_conv')
    qed
  qed
qed

definition sample_submission :: submit_result where
  "sample_submission = \<lparr>sr_reqId = 7, sr_seq = 4, sr_backend = 0, sr_shareId = 1, sr_actualDiff = 5, sr_diff = 3, sr_elapsed = 0,
     sr_height = 9, sr_entropy = None, sr_jobId = None, sr_templateGeneration = 1, sr_templateSourceId = 1,
     sr_minerDiff = 2, sr_outcome = Unspecified, sr_start = 10\<rparr>"

definition sample_daemon :: daemon_client where
  "sample_daemon = (new_daemon_client 0 empty_pool)\<lparr>dc_pending :=
     [(6, \<lparr>sb_result = sample_submission, sb_blockBlob = [], sb_minerTxHash = None, sb_lastSubmitError = [],
           sb_hadIndeterminateOutcome = True, sb_attemptStartedMs = 0, sb_retryDueMs = 0, sb_attempts = 4\<rparr>)]\<rparr>"

definition sample_rejection :: http_data where
  "sample_rejection = \<lparr>hd_status = 200, hd_rpcId = 6,
     hd_doc = Inl (JObj [(''id'', JInt 6), (''error'', JObj [(''code'', JInt (-7)), (''message'', JStr ''Block not accepted'')])]),
     hd_ip = []\<rparr>"

text \<open>The fourth attempt is rejected, but an earlier response was lost: the outcome stays ambiguous.\<close>

theorem daemon_verdict_witness:
  "\<forall>env. \<exists>e. dc_out (dc_onHttpData env sample_rejection sample_daemon) =
     [DC_result (submit_done (dv_now env) (sample_submission\<lparr>sr_outcome := Ambiguous\<rparr>)) e]"
proof -
  have v: "verdict sample_rejection = D_Rejected" by code_simp
  have "\<exists>e. dc_out (dc_onHttpData env sample_rejection sample_daemon) =
      [DC_result (submit_done (dv_now env) (sample_submission\<lparr>sr_outcome := Ambiguous\<rparr>)) e]" for env
    using daemon_verdict [of sample_daemon sample_rejection _ env] v
    by (simp add: sample_daemon_def sample_rejection_def new_daemon_client_def om_ok_def)
  then show ?thesis by blast
qed

end
