(* ===== verification/Template_Source.thy ===== *)
theory Template_Source
  imports Daemon_Client
begin

text \<open>
  The shared source of block templates, \<open>base/net/stratum/DaemonTemplateSource.cpp\<close>: it polls a daemon with
  \<open>getblocktemplate\<close>, is woken by the daemon's ZMQ publications, asks \<open>getheight\<close> before it believes one, and
  delivers every new template to its subscribers.

  Requests, notices to the observer and the subscribers, timers and calls of the share cache go to an output
  list. A subscriber may shut the source down while it is notified: \<open>te_shut\<close> says after which notice this
  happens; other calls back into the source are steps of their own. The clock, the answers of the network
  library and the result of the resolver are in \<open>source_env\<close>. A timer is the interval it was armed with.
  The log and the fields for TLS are left out.
\<close>

section \<open>State\<close>

datatype refresh_reason = R_Initial | R_Timer | R_Zmq
datatype request_kind = K_BlockTemplate | K_Height

record request_meta =
  rm_kind :: request_kind
  rm_reason :: refresh_reason
  rm_sourceId :: u64
  rm_requestId :: u64
  rm_generation :: u64
  rm_startedUnixMs :: u64
  rm_completedUnixMs :: u64
  rm_latencyMs :: u64
  rm_startedSteadyMs :: u64

datatype zmq_state = ZmqDisconnected | ZmqConnecting | ZmqGreeting1 | ZmqGreeting2 | ZmqHandshake | ZmqConnected

datatype source_action =
    TS_request request_meta "nat list"
  | TS_error request_meta "nat list"
  | TS_template snapshot "nat list"
  | TS_zmq u64 "nat list"
  | TS_tip u64 u64 string
  | TS_fetchTemplate u64 u64
  | TS_fetchHeight u64 u64
  | TS_observeHeight u64 u64
  | TS_removeSource u64
  | TS_resolve
  | TS_openSocket
  | TS_closeSocket
  | TS_write "u8 list"
  | TS_replay nat snapshot

record source =
  ts_heightInFlight :: bool
  ts_heightFollowup :: bool
  ts_heightPending :: bool
  ts_heightRetryFollowup :: bool
  ts_shutdown :: bool
  ts_started :: bool
  ts_templateInFlight :: bool
  ts_templatePending :: bool
  ts_zmqResolving :: bool
  ts_zmqState :: zmq_state
  ts_pool :: pool
  ts_pendingReason :: refresh_reason
  ts_heightRequest :: request_meta
  ts_templateRequest :: request_meta
  ts_listeners :: "nat list"
  ts_latest :: "snapshot option"
  ts_wallet :: cstr
  ts_previousSeedHash :: cstr
  ts_observedTipHash :: cstr
  ts_timer :: "u64 option"
  ts_zmqTimer :: "u64 option"
  ts_generation :: u64
  ts_interval :: u64
  ts_lastSuccessSteadyMs :: u64
  ts_notificationSequence :: u64
  ts_requestSequence :: u64
  ts_sourceId :: u64
  ts_zmqHeightRetries :: u32
  ts_zmqSocket :: bool
  ts_zmqRecvBuf :: "u8 list"
  ts_out :: "source_action list"

text \<open>A resolver that answers at once gives \<open>Some\<close>: whether there is an address.\<close>

record source_env =
  te_now :: u64
  te_unix :: u64
  te_shut :: "source_action \<Rightarrow> bool"
  te_dns :: "bool option"
  te_socketOk :: bool
  te_connectOk :: bool
  te_readOk :: bool
  te_writeOk :: "u8 list \<Rightarrow> bool"

definition no_request :: request_meta where
  "no_request = \<lparr>rm_kind = K_BlockTemplate, rm_reason = R_Initial, rm_sourceId = 0, rm_requestId = 0, rm_generation = 0,
     rm_startedUnixMs = 0, rm_completedUnixMs = 0, rm_latencyMs = 0, rm_startedSteadyMs = 0\<rparr>"

definition new_source :: "pool \<Rightarrow> cstr \<Rightarrow> u64 \<Rightarrow> source" where
  "new_source p wallet sourceId =
     \<lparr>ts_heightInFlight = False, ts_heightFollowup = False, ts_heightPending = False, ts_heightRetryFollowup = False,
      ts_shutdown = False, ts_started = False, ts_templateInFlight = False, ts_templatePending = False,
      ts_zmqResolving = False, ts_zmqState = ZmqDisconnected, ts_pool = p, ts_pendingReason = R_Timer,
      ts_heightRequest = no_request, ts_templateRequest = no_request, ts_listeners = [], ts_latest = None,
      ts_wallet = wallet, ts_previousSeedHash = None, ts_observedTipHash = None, ts_timer = None, ts_zmqTimer = None,
      ts_generation = 0, ts_interval = max 1000 (p_pollInterval p), ts_lastSuccessSteadyMs = 0,
      ts_notificationSequence = 0, ts_requestSequence = 0, ts_sourceId = sourceId, ts_zmqHeightRetries = 0,
      ts_zmqSocket = False, ts_zmqRecvBuf = [], ts_out = []\<rparr>"

definition kReserveSize :: u64 where "kReserveSize = 16"
definition kMaxZmqMessage :: nat where "kMaxZmqMessage = 64 * 1024"
definition kMaxZmqHeightRetries :: u32 where "kMaxZmqHeightRetries = 10"

definition requestTimeout :: "u64 \<Rightarrow> u64" where
  "requestTimeout interval = max 5000 (min interval 60000)"

definition ts_act :: "source_action \<Rightarrow> source \<Rightarrow> source" where
  "ts_act a s = s\<lparr>ts_out := ts_out s @ [a]\<rparr>"

definition reasonPriority :: "refresh_reason \<Rightarrow> nat" where
  "reasonPriority r = (case r of R_Zmq \<Rightarrow> 3 | R_Initial \<Rightarrow> 2 | R_Timer \<Rightarrow> 1)"

definition kindName :: "request_kind \<Rightarrow> string" where
  "kindName k = (case k of K_BlockTemplate \<Rightarrow> ''block_template'' | K_Height \<Rightarrow> ''height'')"

definition reasonName :: "refresh_reason \<Rightarrow> string" where
  "reasonName r = (case r of R_Initial \<Rightarrow> ''initial'' | R_Timer \<Rightarrow> ''timer'' | R_Zmq \<Rightarrow> ''zmq'')"

section \<open>The end of a source and its notices\<close>

definition closeZmq :: "source \<Rightarrow> source" where
  "closeZmq s =
     (let s' = s\<lparr>ts_zmqSocket := False, ts_zmqState := ZmqDisconnected, ts_zmqRecvBuf := []\<rparr>
      in if ts_zmqSocket s then ts_act TS_closeSocket s' else s')"

definition ts_stop :: "source \<Rightarrow> source" where
  "ts_stop s =
     (if ts_shutdown s then s
      else ts_act (TS_removeSource (ts_sourceId s))
        ((closeZmq (s\<lparr>ts_shutdown := True, ts_started := False, ts_heightFollowup := False, ts_heightPending := False,
             ts_heightRetryFollowup := False, ts_templatePending := False, ts_zmqResolving := False,
             ts_timer := None, ts_zmqTimer := None\<rparr>))\<lparr>ts_listeners := [], ts_latest := None\<rparr>))"

text \<open>A notice goes to the observer and then to every subscriber; the source may be shut down in between.\<close>

definition notify :: "source_env \<Rightarrow> (nat list \<Rightarrow> source_action) \<Rightarrow> source \<Rightarrow> source" where
  "notify env a s =
     (let s' = ts_act (a (ts_listeners s)) s
      in if te_shut env (a (ts_listeners s)) then ts_stop s' else s')"

definition ts_subscribe :: "nat \<Rightarrow> bool \<Rightarrow> source \<Rightarrow> source" where
  "ts_subscribe l replay s =
     (if ts_shutdown s then s
      else let s' = s\<lparr>ts_listeners := List.insert l (ts_listeners s)\<rparr>
           in (case ts_latest s' of Some sn \<Rightarrow> if replay then ts_act (TS_replay l sn) s' else s' | None \<Rightarrow> s'))"

definition ts_unsubscribe :: "nat \<Rightarrow> source \<Rightarrow> source" where
  "ts_unsubscribe l s = s\<lparr>ts_listeners := remove1 l (ts_listeners s)\<rparr>"

section \<open>Requests\<close>

definition requestTemplate :: "source_env \<Rightarrow> refresh_reason \<Rightarrow> source \<Rightarrow> source" where
  "requestTemplate env reason s =
     (if ts_shutdown s then s
      else if ts_templateInFlight s then
        s\<lparr>ts_pendingReason := (if \<not> ts_templatePending s \<or> reasonPriority (ts_pendingReason s) < reasonPriority reason
                              then reason else ts_pendingReason s),
          ts_templatePending := True\<rparr>
      else
        let i = ts_requestSequence s + 1;
            m = no_request\<lparr>rm_reason := reason, rm_sourceId := ts_sourceId s, rm_requestId := i,
                  rm_generation := ts_generation s + 1, rm_startedSteadyMs := te_now env, rm_startedUnixMs := te_unix env\<rparr>;
            s1 = notify env (TS_request m)
                   (s\<lparr>ts_templateInFlight := True, ts_requestSequence := i, ts_templateRequest := m\<rparr>)
        in if ts_shutdown s1 then s1\<lparr>ts_templateInFlight := False\<rparr>
           else ts_act (TS_fetchTemplate i (requestTimeout (p_jobTimeout (ts_pool s1)))) s1)"

definition requestHeight :: "source_env \<Rightarrow> bool \<Rightarrow> source \<Rightarrow> source" where
  "requestHeight env followup s =
     (if ts_shutdown s then s
      else if ts_heightInFlight s \<or> ts_templateInFlight s then s\<lparr>ts_heightPending := True\<rparr>
      else
        let i = ts_requestSequence s + 1;
            m = no_request\<lparr>rm_kind := K_Height, rm_reason := R_Zmq, rm_sourceId := ts_sourceId s, rm_requestId := i,
                  rm_generation := ts_generation s, rm_startedSteadyMs := te_now env, rm_startedUnixMs := te_unix env\<rparr>;
            s1 = notify env (TS_request m)
                   (s\<lparr>ts_heightInFlight := True, ts_heightFollowup := followup, ts_requestSequence := i, ts_heightRequest := m\<rparr>)
        in if ts_shutdown s1 then s1\<lparr>ts_heightInFlight := False, ts_heightFollowup := False\<rparr>
           else ts_act (TS_fetchHeight i (requestTimeout (p_jobTimeout (ts_pool s1)))) s1)"

definition complete :: "source_env \<Rightarrow> request_meta \<Rightarrow> request_meta" where
  "complete env m =
     m\<lparr>rm_completedUnixMs := te_unix env,
       rm_latencyMs := (if rm_startedSteadyMs m \<le> te_now env then te_now env - rm_startedSteadyMs m else 0)\<rparr>"

definition drainTemplateQueue :: "source_env \<Rightarrow> source \<Rightarrow> source" where
  "drainTemplateQueue env s =
     (if ts_shutdown s \<or> \<not> ts_templatePending s \<or> ts_templateInFlight s then s
      else
        let reason = ts_pendingReason s; s1 = s\<lparr>ts_templatePending := False, ts_pendingReason := R_Timer\<rparr>
        in if reason = R_Timer \<and> ts_latest s1 \<noteq> None \<and> te_now env < ts_lastSuccessSteadyMs s1 + ts_interval s1 then s1
           else requestTemplate env reason s1)"

definition drainHeightQueue :: "source_env \<Rightarrow> bool \<Rightarrow> source \<Rightarrow> source" where
  "drainHeightQueue env covered s =
     (if ts_shutdown s \<or> \<not> ts_heightPending s \<or> ts_heightInFlight s \<or> ts_templateInFlight s then s
      else requestHeight env covered (s\<lparr>ts_heightPending := False\<rparr>))"

section \<open>Responses\<close>

definition failTemplate :: "source_env \<Rightarrow> source \<Rightarrow> source" where
  "failTemplate env s =
     (let s1 = s\<lparr>ts_templateRequest := complete env (ts_templateRequest s), ts_templateInFlight := False\<rparr>;
          s2 = notify env (TS_error (ts_templateRequest s1)) s1;
          s3 = drainHeightQueue env False (drainTemplateQueue env s2)
      in if \<not> ts_shutdown s3 \<and> \<not> ts_templateInFlight s3 \<and> \<not> ts_templatePending s3
         then s3\<lparr>ts_timer := Some (min (ts_interval s3) 5000)\<rparr> else s3)"

definition failHeight :: "source_env \<Rightarrow> source \<Rightarrow> source" where
  "failHeight env s =
     (let followup = ts_heightFollowup s;
          s1 = s\<lparr>ts_heightRequest := complete env (ts_heightRequest s), ts_heightInFlight := False, ts_heightFollowup := False\<rparr>;
          s2 = (notify env (TS_error (ts_heightRequest s1)) s1)\<lparr>ts_heightPending := False\<rparr>
      in if ts_shutdown s2 then s2
         else if ts_zmqHeightRetries s2 + 1 \<le> kMaxZmqHeightRetries
         then s2\<lparr>ts_zmqHeightRetries := ts_zmqHeightRetries s2 + 1, ts_heightRetryFollowup := followup,
                 ts_zmqTimer := Some (min (ts_interval s2) 1000)\<rparr>
         else s2\<lparr>ts_zmqHeightRetries := 0, ts_heightRetryFollowup := False\<rparr>)"

text \<open>The template of a \<open>getblocktemplate\<close> result, when it is complete.\<close>

definition read_snapshot :: "string \<Rightarrow> u64 \<Rightarrow> json \<Rightarrow> snapshot option" where
  "read_snapshot ip sourceId result =
     (let sn = \<lparr>sn_blocktemplateBlob = getString result ''blocktemplate_blob'' None,
                sn_blockhashingBlob = getString result ''blockhashing_blob'' None,
                sn_seedHash = getString result ''seed_hash'' None, sn_previousSeedHash = None,
                sn_nextSeedHash = getString result ''next_seed_hash'' None, sn_ip = Some ip,
                sn_prevHash = getString result ''prev_hash'' None, sn_difficulty = getUint64 result ''difficulty'' 0,
                sn_height = getUint64 result ''height'' 0, sn_reservedOffset = getUint64 result ''reserved_offset'' 0,
                sn_reserveSize = kReserveSize, sn_sourceId = sourceId, sn_generation = 0, sn_fetchedSteadyMs = 0\<rparr>;
          n = str_size (sn_blocktemplateBlob sn)
      in if str_is_empty (sn_blocktemplateBlob sn) \<or> str_is_empty (sn_blockhashingBlob sn) \<or> str_is_empty (sn_prevHash sn)
            \<or> sn_difficulty sn = 0 \<or> sn_height sn = 0 \<or> sn_reservedOffset sn = 0 \<or> n mod 2 \<noteq> 0
            \<or> of_nat (n div 2) < sn_reservedOffset sn + kReserveSize
         then None else Some sn)"

definition install_snapshot :: "source_env \<Rightarrow> snapshot \<Rightarrow> source \<Rightarrow> source" where
  "install_snapshot env sn0 s =
     (let advanced = (case ts_latest s of None \<Rightarrow> True | Some l \<Rightarrow> sn_prevHash sn0 \<noteq> sn_prevHash l);
          prev = (case ts_latest s of
                    Some l \<Rightarrow> if sn_seedHash sn0 \<noteq> sn_seedHash l then sn_seedHash l else ts_previousSeedHash s
                  | None \<Rightarrow> ts_previousSeedHash s);
          g = ts_generation s + 1;
          sn = sn0\<lparr>sn_previousSeedHash := prev, sn_generation := g, sn_fetchedSteadyMs := te_now env\<rparr>;
          s1 = s\<lparr>ts_templateRequest := (complete env (ts_templateRequest s))\<lparr>rm_generation := g\<rparr>,
                 ts_previousSeedHash := prev, ts_generation := g, ts_templateInFlight := False,
                 ts_lastSuccessSteadyMs := te_now env, ts_observedTipHash := sn_prevHash sn, ts_latest := Some sn,
                 ts_timer := Some (ts_interval s)\<rparr>;
          s2 = notify env (TS_template sn) s1;
          s3 = (if ts_shutdown s2 then s2 else ts_act (TS_observeHeight (ts_sourceId s2) (sn_height sn)) s2)
      in drainHeightQueue env advanced (drainTemplateQueue env s3))"

definition template_response :: "source_env \<Rightarrow> http_data \<Rightarrow> source \<Rightarrow> source" where
  "template_response env d s =
     (if ts_shutdown s \<or> \<not> ts_templateInFlight s \<or> hd_rpcId d \<noteq> uint (rm_requestId (ts_templateRequest s)) then s
      else if hd_status d \<noteq> 200 then failTemplate env s
      else (case hd_doc d of
              Inr _ \<Rightarrow> failTemplate env s
            | Inl doc \<Rightarrow>
                if getInt64 doc ''id'' (-1) \<noteq> sint (rm_requestId (ts_templateRequest s)) then failTemplate env s
                else (case getObject doc ''error'' of
                        JObj _ \<Rightarrow> failTemplate env s
                      | _ \<Rightarrow>
                          (case getObject doc ''result'' of
                             JObj ms \<Rightarrow> (case read_snapshot (hd_ip d) (ts_sourceId s) (JObj ms) of
                                           None \<Rightarrow> failTemplate env s
                                         | Some sn \<Rightarrow> install_snapshot env sn s)
                           | _ \<Rightarrow> failTemplate env s))))"

definition height_same_tip :: "bool \<Rightarrow> bool \<Rightarrow> source \<Rightarrow> source" where
  "height_same_tip followup pending s =
     (if followup then
        let s1 = s\<lparr>ts_zmqTimer := None, ts_zmqHeightRetries := 0, ts_heightRetryFollowup := False\<rparr>
        in if pending then s1\<lparr>ts_heightRetryFollowup := True, ts_zmqTimer := Some 100\<rparr> else s1
      else if ts_zmqHeightRetries s + 1 \<le> kMaxZmqHeightRetries
      then s\<lparr>ts_zmqHeightRetries := ts_zmqHeightRetries s + 1, ts_heightRetryFollowup := False, ts_zmqTimer := Some 100\<rparr>
      else s\<lparr>ts_zmqHeightRetries := 0, ts_heightRetryFollowup := False\<rparr>)"

definition height_new_tip :: "source_env \<Rightarrow> bool \<Rightarrow> u64 \<Rightarrow> string \<Rightarrow> source \<Rightarrow> source" where
  "height_new_tip env pending height hash s =
     (let s1 = ts_act (TS_tip (ts_sourceId s) height hash)
                 (s\<lparr>ts_zmqTimer := None, ts_zmqHeightRetries := 0, ts_heightRetryFollowup := False,
                    ts_observedTipHash := Some hash\<rparr>)
      in requestTemplate env R_Zmq (s1\<lparr>ts_heightPending := pending\<rparr>))"

definition height_response :: "source_env \<Rightarrow> http_data \<Rightarrow> source \<Rightarrow> source" where
  "height_response env d s =
     (if ts_shutdown s \<or> \<not> ts_heightInFlight s \<or> hd_rpcId d \<noteq> uint (rm_requestId (ts_heightRequest s)) then s
      else if hd_status d \<noteq> 200 then failHeight env s
      else (case hd_doc d of
              Inr _ \<Rightarrow> failHeight env s
            | Inl doc \<Rightarrow>
                (case getString doc ''hash'' None of
                   None \<Rightarrow> failHeight env s
                 | Some hash \<Rightarrow>
                     if getUint64 doc ''height'' 0 = 0 \<or> hash = [] then failHeight env s
                     else
                       let followup = ts_heightFollowup s; pending = ts_heightPending s;
                           s1 = s\<lparr>ts_heightRequest := complete env (ts_heightRequest s), ts_heightInFlight := False,
                                  ts_heightFollowup := False, ts_heightPending := False\<rparr>
                       in if (case ts_latest s1 of Some l \<Rightarrow> sn_prevHash l = Some hash | None \<Rightarrow> False)
                          then height_same_tip followup pending s1
                          else height_new_tip env pending (getUint64 doc ''height'' 0) hash s1)))"

section \<open>ZMQ\<close>

definition chars :: "string \<Rightarrow> u8 list" where
  "chars s = map of_char s"

definition kZmqGreeting :: "u8 list" where
  "kZmqGreeting = [255, 0, 0, 0, 0, 0, 0, 0, 0, 127, 3, 0] @ chars ''NULL'' @ replicate 48 0"

definition kZmqGreetingSize1 :: nat where "kZmqGreetingSize1 = 11"

definition kZmqHandshake :: "u8 list" where
  "kZmqHandshake = [4, 0x19, 5] @ chars ''READY'' @ [11] @ chars ''Socket-Type'' @ [0, 0, 0, 3] @ chars ''SUB''"

definition kZmqSubscribe :: "u8 list" where
  "kZmqSubscribe = [0, 0x18, 1] @ chars ''json-minimal-chain_main''"

definition notifyZmq :: "source_env \<Rightarrow> source \<Rightarrow> source" where
  "notifyZmq env s =
     (let n = ts_notificationSequence s + 1;
          s1 = notify env (TS_zmq n) (s\<lparr>ts_notificationSequence := n\<rparr>)
      in if ts_shutdown s1 then s1
         else requestHeight env False (s1\<lparr>ts_zmqTimer := None, ts_zmqHeightRetries := 0, ts_heightRetryFollowup := False\<rparr>))"

definition startZmqSocket :: "source_env \<Rightarrow> source \<Rightarrow> source" where
  "startZmqSocket env s =
     (if ts_shutdown s \<or> ts_zmqSocket s \<or> \<not> te_socketOk env then s
      else let s1 = ts_act TS_openSocket (s\<lparr>ts_zmqSocket := True, ts_zmqState := ZmqConnecting\<rparr>)
           in if te_connectOk env then s1 else closeZmq s1)"

definition ts_onResolved :: "source_env \<Rightarrow> bool \<Rightarrow> source \<Rightarrow> source" where
  "ts_onResolved env found s =
     (let s1 = s\<lparr>ts_zmqResolving := False\<rparr>
      in if ts_shutdown s1 \<or> \<not> found then s1 else startZmqSocket env s1)"

definition startZmq :: "source_env \<Rightarrow> source \<Rightarrow> source" where
  "startZmq env s =
     (if ts_shutdown s \<or> p_zmqPort (ts_pool s) \<le> 0 \<or> ts_zmqResolving s \<or> ts_zmqSocket s then s
      else let s1 = ts_act TS_resolve (s\<lparr>ts_zmqResolving := True\<rparr>)
           in (case te_dns env of None \<Rightarrow> s1 | Some found \<Rightarrow> ts_onResolved env found s1))"

definition writeZmq :: "source_env \<Rightarrow> u8 list \<Rightarrow> source \<Rightarrow> bool \<times> source" where
  "writeZmq env bs s =
     (if \<not> ts_zmqSocket s then (False, s)
      else if te_writeOk env bs then (True, ts_act (TS_write bs) s)
      else (False, closeZmq s))"

definition onZmqConnect :: "source_env \<Rightarrow> bool \<Rightarrow> source \<Rightarrow> source" where
  "onZmqConnect env ok s =
     (if ts_shutdown s \<or> \<not> ts_zmqSocket s then s
      else if \<not> ok then closeZmq s
      else (case writeZmq env (take kZmqGreetingSize1 kZmqGreeting) (s\<lparr>ts_zmqState := ZmqGreeting1\<rparr>) of
              (False, s1) \<Rightarrow> s1
            | (True, s1) \<Rightarrow> if te_readOk env then s1 else closeZmq s1))"

text \<open>
  The frames of one message at the start of the buffer: the bytes of the message and the size of its data,
  \<open>Some None\<close> when it is too large, \<open>None\<close> when more bytes are needed. \<open>used\<close> and \<open>dataSize\<close> are the loop
  variables.
\<close>

definition be_word :: "u8 list \<Rightarrow> nat" where
  "be_word bs = foldl (\<lambda>v b. v * 256 + unat b) 0 bs"

definition frame_head :: "u8 list \<Rightarrow> (nat \<times> nat) option" where
  "frame_head buf =
     (if length buf < 2 then None
      else if bit (buf ! 0) 1 then
        (if length buf < 9 then None else Some (9, be_word (take 8 (drop 1 buf))))
      else Some (2, unat (buf ! 1)))"

function zmq_scan :: "nat \<Rightarrow> nat \<Rightarrow> u8 list \<Rightarrow> (nat \<times> nat) option option" where
  "zmq_scan used dataSize buf =
     (case frame_head buf of
        None \<Rightarrow> None
      | Some (h, n) \<Rightarrow>
          if kMaxZmqMessage < n \<or> kMaxZmqMessage - n < dataSize then Some None
          else if length buf < h + n then None
          else
            let dataSize' = (if bit (buf ! 0) 2 then dataSize else dataSize + n)
            in if bit (buf ! 0) 0 then zmq_scan (used + h + n) dataSize' (drop (h + n) buf)
               else Some (Some (used + h + n, dataSize')))"
  by pat_completeness auto

termination zmq_scan
  by (relation "measure (\<lambda>(used, dataSize, buf). length buf)") (auto simp: frame_head_def split: if_splits)

declare zmq_scan.simps [simp del]

definition parseZmqMessage :: "source_env \<Rightarrow> source \<Rightarrow> bool \<times> source" where
  "parseZmqMessage env s =
     (case zmq_scan 0 0 (ts_zmqRecvBuf s) of
        None \<Rightarrow> (False, s)
      | Some None \<Rightarrow> (False, closeZmq s)
      | Some (Some (used, dataSize)) \<Rightarrow>
          let s1 = s\<lparr>ts_zmqRecvBuf := drop used (ts_zmqRecvBuf s)\<rparr>
          in (True, if 0 < dataSize then notifyZmq env s1 else s1))"

text \<open>One round of the loop of \<open>readZmq\<close>: whether it goes on.\<close>

definition read_round :: "source_env \<Rightarrow> source \<Rightarrow> bool \<times> source" where
  "read_round env s =
     (let buf = ts_zmqRecvBuf s
      in case ts_zmqState s of
           ZmqGreeting1 \<Rightarrow>
             if length buf < kZmqGreetingSize1 then (False, s)
             else if buf ! 0 \<noteq> 255 \<or> buf ! 9 \<noteq> 127 \<or> buf ! 10 \<noteq> 3 then (False, closeZmq s)
             else (case writeZmq env (drop kZmqGreetingSize1 kZmqGreeting) s of
                     (False, s1) \<Rightarrow> (False, s1)
                   | (True, s1) \<Rightarrow> (True, s1\<lparr>ts_zmqState := ZmqGreeting2\<rparr>))
         | ZmqGreeting2 \<Rightarrow>
             if length buf < length kZmqGreeting then (False, s)
             else if take 20 (drop 12 buf) \<noteq> take 20 (drop 12 kZmqGreeting) then (False, closeZmq s)
             else writeZmq env kZmqHandshake
                    (s\<lparr>ts_zmqRecvBuf := drop (length kZmqGreeting) buf, ts_zmqState := ZmqHandshake\<rparr>)
         | ZmqHandshake \<Rightarrow>
             if length buf < 2 then (False, s)
             else if buf ! 0 \<noteq> 4 then (False, closeZmq s)
             else
               let n = unat (buf ! 1)
               in if n < 18 then (False, closeZmq s)
                  else if length buf < n + 2 then (False, s)
                  else if take 18 (drop 2 buf) \<noteq> take 18 (drop 2 kZmqHandshake) then (False, closeZmq s)
                  else (case writeZmq env kZmqSubscribe (s\<lparr>ts_zmqRecvBuf := drop (n + 2) buf\<rparr>) of
                          (False, s1) \<Rightarrow> (False, s1)
                        | (True, s1) \<Rightarrow> (True, s1\<lparr>ts_zmqState := ZmqConnected\<rparr>))
         | ZmqConnected \<Rightarrow> parseZmqMessage env s
         | _ \<Rightarrow> (False, s))"

text \<open>The rounds that are left: a state is left for a later one or the buffer shrinks.\<close>

definition zmq_rank :: "zmq_state \<Rightarrow> nat" where
  "zmq_rank z = (case z of ZmqGreeting1 \<Rightarrow> 4 | ZmqGreeting2 \<Rightarrow> 3 | ZmqHandshake \<Rightarrow> 2 | ZmqConnected \<Rightarrow> 1 | _ \<Rightarrow> 0)"

lemma zmq_scan_uses: "zmq_scan used dataSize buf = Some (Some (used', d)) \<Longrightarrow> used + 2 \<le> used' \<and> used' \<le> used + length buf"
proof (induction used dataSize buf rule: zmq_scan.induct)
  case (1 used dataSize buf)
  obtain h n where f: "frame_head buf = Some (h, n)" using 1(2) by (cases "frame_head buf") (auto simp: zmq_scan.simps)
  then have h: "2 \<le> h" "h \<le> length buf" by (auto simp: frame_head_def split: if_splits)
  show ?case
  proof (cases "bit (buf ! 0) 0")
    case True
    then show ?thesis
      using 1(2) f h 1(1) [OF f refl] by (fastforce simp: zmq_scan.simps [of used dataSize buf] Let_def split: if_splits)
  next
    case False
    then show ?thesis
      using 1(2) f h by (auto simp: zmq_scan.simps [of used dataSize buf] Let_def split: if_splits)
  qed
qed

text \<open>Notices and requests leave the connection alone or close it.\<close>

definition zmq_kept :: "source \<Rightarrow> source \<Rightarrow> bool" where
  "zmq_kept s s' \<longleftrightarrow> ts_zmqState s' = ZmqDisconnected \<and> \<not> ts_zmqSocket s' \<and> ts_zmqRecvBuf s' = []
     \<or> ts_zmqState s' = ts_zmqState s \<and> ts_zmqRecvBuf s' = ts_zmqRecvBuf s \<and> ts_zmqSocket s' = ts_zmqSocket s"

lemma zmq_kept_closeZmq: "zmq_kept s (closeZmq s)"
  by (simp add: zmq_kept_def closeZmq_def Let_def ts_act_def)

lemma zmq_kept_stop: "zmq_kept s (ts_stop s)"
  by (auto simp: zmq_kept_def ts_stop_def closeZmq_def Let_def ts_act_def)

lemma zmq_kept_notify: "zmq_kept s (notify env a s)"
  using zmq_kept_stop [of "ts_act (a (ts_listeners s)) s"]
  by (auto simp: notify_def Let_def zmq_kept_def ts_act_def)

lemma zmq_kept_requestHeight: "zmq_kept s (requestHeight env f s)"
proof -
  have "zmq_kept s (notify env a (s\<lparr>ts_heightInFlight := h, ts_heightFollowup := f, ts_requestSequence := i, ts_heightRequest := m\<rparr>))" for a h i m
    using zmq_kept_notify [of "s\<lparr>ts_heightInFlight := h, ts_heightFollowup := f, ts_requestSequence := i, ts_heightRequest := m\<rparr>" env a]
    by (simp add: zmq_kept_def)
  then show ?thesis by (auto simp: requestHeight_def Let_def zmq_kept_def ts_act_def)
qed

lemma zmq_kept_notifyZmq: "zmq_kept s (notifyZmq env s)"
proof -
  have k: "zmq_kept s (notify env a (s\<lparr>ts_notificationSequence := n\<rparr>))" for a n
    using zmq_kept_notify [of "s\<lparr>ts_notificationSequence := n\<rparr>" env a] by (simp add: zmq_kept_def)
  have "zmq_kept s (requestHeight env False (s1\<lparr>ts_zmqTimer := None, ts_zmqHeightRetries := 0, ts_heightRetryFollowup := False\<rparr>))"
    if "zmq_kept s s1" for s1
    using zmq_kept_requestHeight [of "s1\<lparr>ts_zmqTimer := None, ts_zmqHeightRetries := 0, ts_heightRetryFollowup := False\<rparr>" env False] that
    by (auto simp: zmq_kept_def)
  with k show ?thesis by (simp add: notifyZmq_def Let_def)
qed

lemma read_round_progress:
  assumes "read_round env s = (True, s')"
  shows "zmq_rank (ts_zmqState s') < zmq_rank (ts_zmqState s) \<or>
    zmq_rank (ts_zmqState s') = zmq_rank (ts_zmqState s) \<and> length (ts_zmqRecvBuf s') < length (ts_zmqRecvBuf s)"
proof (cases "ts_zmqState s = ZmqConnected")
  case True
  then obtain used d where z: "zmq_scan 0 0 (ts_zmqRecvBuf s) = Some (Some (used, d))"
    and s': "s' = (if 0 < d then notifyZmq env (s\<lparr>ts_zmqRecvBuf := drop used (ts_zmqRecvBuf s)\<rparr>)
                   else s\<lparr>ts_zmqRecvBuf := drop used (ts_zmqRecvBuf s)\<rparr>)"
    using assms by (auto simp: read_round_def parseZmqMessage_def Let_def split: option.splits)
  have "0 < used" "used \<le> length (ts_zmqRecvBuf s)" using zmq_scan_uses [OF z] by simp_all
  then show ?thesis
    using s' True zmq_kept_notifyZmq [of "s\<lparr>ts_zmqRecvBuf := drop used (ts_zmqRecvBuf s)\<rparr>" env]
    by (auto simp: zmq_kept_def zmq_rank_def split: if_splits)
next
  case False
  then show ?thesis
    using assms
    by (auto simp: read_round_def writeZmq_def zmq_rank_def Let_def ts_act_def split: zmq_state.splits if_splits)
qed

function read_loop :: "source_env \<Rightarrow> source \<Rightarrow> source" where
  "read_loop env s = (case read_round env s of (True, s') \<Rightarrow> read_loop env s' | (False, s') \<Rightarrow> s')"
  by pat_completeness auto

termination read_loop
proof (relation "measures [\<lambda>(env, s). zmq_rank (ts_zmqState s), \<lambda>(env, s). length (ts_zmqRecvBuf s)]", goal_cases)
  case (2 env s b s')
  then have "read_round env s = (True, s')" by simp
  from read_round_progress [OF this] show ?case by auto
qed simp

declare read_loop.simps [simp del]

text \<open>\<open>onZmqRead\<close> and \<open>readZmq\<close>: bytes that arrive on the current socket, its end, and an error.\<close>

definition readZmq :: "source_env \<Rightarrow> u8 list \<Rightarrow> source \<Rightarrow> source" where
  "readZmq env bs s =
     (if \<not> ts_zmqSocket s \<or> bs = [] then s else read_loop env (s\<lparr>ts_zmqRecvBuf := ts_zmqRecvBuf s @ bs\<rparr>))"

definition readZmq_end :: "source \<Rightarrow> source" where
  "readZmq_end s = (if ts_zmqSocket s then closeZmq s else s)"

section \<open>Timers and start\<close>

definition ts_timerFires :: "source_env \<Rightarrow> source \<Rightarrow> source" where
  "ts_timerFires env s =
     (if ts_timer s = None \<or> ts_shutdown s then s
      else
        let s1 = s\<lparr>ts_timer := None\<rparr>;
            s2 = (if 0 < p_zmqPort (ts_pool s1) \<and> \<not> ts_zmqSocket s1 \<and> \<not> ts_zmqResolving s1 then startZmq env s1 else s1)
        in requestTemplate env R_Timer s2)"

definition ts_zmqTimerFires :: "source_env \<Rightarrow> source \<Rightarrow> source" where
  "ts_zmqTimerFires env s =
     (if ts_zmqTimer s = None \<or> ts_shutdown s then s
      else requestHeight env (ts_heightRetryFollowup s) (s\<lparr>ts_zmqTimer := None\<rparr>))"

definition ts_start :: "source_env \<Rightarrow> source \<Rightarrow> source" where
  "ts_start env s =
     (if ts_started s \<or> ts_shutdown s then s
      else startZmq env (requestTemplate env R_Initial (s\<lparr>ts_started := True, ts_timer := Some (ts_interval s)\<rparr>)))"

section \<open>The registry\<close>

text \<open>
  The sources by their pool and wallet. A source of the registry is found again while somebody holds it
  (its weak pointer is not expired); the key is the text of a JSON document, made by the writer.
\<close>

record registry =
  rg_entries :: "(string \<times> nat) list"
  rg_sources :: "(nat, source) umap"
  rg_next :: nat

definition rg_usable :: "(nat \<Rightarrow> bool) \<Rightarrow> registry \<Rightarrow> nat \<Rightarrow> bool" where
  "rg_usable held r i \<longleftrightarrow> held i \<and> (case map_of (rg_sources r) i of None \<Rightarrow> False | Some s \<Rightarrow> \<not> ts_shutdown s)"

definition acquire ::
    "(pool \<Rightarrow> cstr \<Rightarrow> string) \<Rightarrow> (nat \<Rightarrow> bool) \<Rightarrow> source_env \<Rightarrow> pool \<Rightarrow> cstr \<Rightarrow> registry \<Rightarrow> nat option \<times> registry" where
  "acquire key_of held env p wallet r =
     (if \<not> pool_isValid p \<or> p_mode p \<noteq> MODE_DAEMON \<or> str_is_empty wallet then (None, r)
      else
        let es = filter (\<lambda>(k, i). held i) (rg_entries r); key = key_of p wallet
        in (case map_of es key of
              Some i \<Rightarrow>
                if rg_usable held r i then (Some i, r\<lparr>rg_entries := es\<rparr>)
                else
                  let n = rg_next r
                  in (Some n, r\<lparr>rg_entries := AList.update key n (AList.delete key es),
                               rg_sources := AList.update n (ts_start env (new_source p wallet (of_nat (n + 1)))) (rg_sources r),
                               rg_next := n + 1\<rparr>)
            | None \<Rightarrow>
                let n = rg_next r
                in (Some n, r\<lparr>rg_entries := AList.update key n es,
                             rg_sources := AList.update n (ts_start env (new_source p wallet (of_nat (n + 1)))) (rg_sources r),
                             rg_next := n + 1\<rparr>)))"

definition shutdownAll :: "(nat \<Rightarrow> bool) \<Rightarrow> registry \<Rightarrow> registry" where
  "shutdownAll held r =
     r\<lparr>rg_entries := [],
       rg_sources := map (\<lambda>(i, s). (i, if held i \<and> i \<in> snd ` set (rg_entries r) then ts_stop s else s)) (rg_sources r)\<rparr>"

end
