(* ===== verification/Source_Props.thy ===== *)
theory Source_Props
  imports Template_Source
begin

text \<open>
  The shared template source: it never stalls, and how the ZMQ stream is cut into reads does not matter.
\<close>

section \<open>Runs\<close>

datatype source_op =
    SO_start
  | SO_timer
  | SO_zmqTimer
  | SO_template http_data
  | SO_height http_data
  | SO_resolved bool
  | SO_connected bool
  | SO_read "u8 list"
  | SO_readEnd
  | SO_subscribe nat bool
  | SO_unsubscribe nat
  | SO_stop

definition ts_step :: "source_env \<Rightarrow> source_op \<Rightarrow> source \<Rightarrow> source" where
  "ts_step env op s =
     (case op of
        SO_start \<Rightarrow> ts_start env s
      | SO_timer \<Rightarrow> ts_timerFires env s
      | SO_zmqTimer \<Rightarrow> ts_zmqTimerFires env s
      | SO_template d \<Rightarrow> template_response env d s
      | SO_height d \<Rightarrow> height_response env d s
      | SO_resolved found \<Rightarrow> ts_onResolved env found s
      | SO_connected ok \<Rightarrow> onZmqConnect env ok s
      | SO_read bs \<Rightarrow> readZmq env bs s
      | SO_readEnd \<Rightarrow> readZmq_end s
      | SO_subscribe l r \<Rightarrow> ts_subscribe l r s
      | SO_unsubscribe l \<Rightarrow> ts_unsubscribe l s
      | SO_stop \<Rightarrow> ts_stop s)"

inductive ts_run :: "source \<Rightarrow> bool" where
  ts_new: "ts_run (new_source p wallet i)"
| ts_more: "ts_run s \<Longrightarrow> ts_run (ts_step env op s)"

section \<open>The shape of the steps\<close>

lemma notify_cases: "ts_shutdown (notify env a s) \<or> notify env a s = ts_act (a (ts_listeners s)) s"
  by (auto simp: notify_def Let_def ts_stop_def closeZmq_def ts_act_def)

lemma stop_shutdown [simp]: "ts_shutdown (ts_stop s)"
  by (auto simp: ts_stop_def closeZmq_def Let_def ts_act_def)

text \<open>The flags the liveness of a source rests on.\<close>

definition flags :: "source \<Rightarrow> bool \<times> bool \<times> bool \<times> bool \<times> bool \<times> u32 \<times> bool" where
  "flags s = (ts_started s, ts_templateInFlight s, ts_templatePending s, ts_heightInFlight s, ts_heightPending s,
     ts_zmqHeightRetries s, ts_timer s = None)"

definition live :: "source \<Rightarrow> bool" where
  "live s \<longleftrightarrow> ts_shutdown s \<or>
     (ts_started s \<longrightarrow> ts_timer s \<noteq> None \<or> ts_templateInFlight s) \<and>
     (ts_templatePending s \<longrightarrow> ts_templateInFlight s) \<and>
     (ts_heightPending s \<longrightarrow> ts_heightInFlight s \<or> ts_templateInFlight s) \<and> ts_zmqHeightRetries s \<le> 10"

lemma live_shutdown [simp]: "ts_shutdown s \<Longrightarrow> live s"
  by (simp add: live_def)

lemma live_act [simp]: "live (ts_act a s) = live s"
  by (simp add: live_def ts_act_def)

lemma live_flags: "flags s' = flags s \<Longrightarrow> ts_shutdown s' = ts_shutdown s \<Longrightarrow> live s' = live s"
  by (simp add: flags_def live_def)

lemma live_notify: "live s \<Longrightarrow> live (notify env a s)"
  using notify_cases [of env a s] by auto

text \<open>A template request ends in a source that is shut down or has a request in flight.\<close>

lemma requestTemplate_cases:
  "ts_shutdown (requestTemplate env r s) \<or>
   ts_templateInFlight (requestTemplate env r s) \<and> ts_timer (requestTemplate env r s) = ts_timer s \<and>
   ts_heightInFlight (requestTemplate env r s) = ts_heightInFlight s \<and>
   ts_heightPending (requestTemplate env r s) = ts_heightPending s \<and>
   ts_zmqHeightRetries (requestTemplate env r s) = ts_zmqHeightRetries s \<and>
   ts_started (requestTemplate env r s) = ts_started s"
proof -
  consider "ts_shutdown s" | "\<not> ts_shutdown s" "ts_templateInFlight s" | "\<not> ts_shutdown s" "\<not> ts_templateInFlight s" by blast
  then show ?thesis
  proof cases
    case 3
    define i where "i = ts_requestSequence s + 1"
    define m where "m = no_request\<lparr>rm_reason := r, rm_sourceId := ts_sourceId s, rm_requestId := i,
        rm_generation := ts_generation s + 1, rm_startedSteadyMs := te_now env, rm_startedUnixMs := te_unix env\<rparr>"
    define s0 where "s0 = s\<lparr>ts_templateInFlight := True, ts_requestSequence := i, ts_templateRequest := m\<rparr>"
    have e: "requestTemplate env r s = (let s1 = notify env (TS_request m) s0
        in if ts_shutdown s1 then s1\<lparr>ts_templateInFlight := False\<rparr>
           else ts_act (TS_fetchTemplate i (requestTimeout (p_jobTimeout (ts_pool s1)))) s1)"
      using 3 by (simp add: requestTemplate_def i_def m_def s0_def Let_def)
    show ?thesis
      using notify_cases [of env "TS_request m" s0] unfolding e Let_def
      by (auto simp: ts_act_def s0_def)
  qed (simp_all add: requestTemplate_def)
qed

lemma requestHeight_cases:
  "ts_shutdown (requestHeight env f s) \<or>
   (ts_heightInFlight (requestHeight env f s) \<or> ts_templateInFlight (requestHeight env f s)) \<and>
   ts_templateInFlight (requestHeight env f s) = ts_templateInFlight s \<and>
   ts_templatePending (requestHeight env f s) = ts_templatePending s \<and> ts_timer (requestHeight env f s) = ts_timer s \<and>
   ts_zmqHeightRetries (requestHeight env f s) = ts_zmqHeightRetries s \<and>
   ts_started (requestHeight env f s) = ts_started s"
proof -
  consider "ts_shutdown s" | "\<not> ts_shutdown s" "ts_heightInFlight s \<or> ts_templateInFlight s"
    | "\<not> ts_shutdown s" "\<not> ts_heightInFlight s" "\<not> ts_templateInFlight s" by blast
  then show ?thesis
  proof cases
    case 3
    define i where "i = ts_requestSequence s + 1"
    define m where "m = no_request\<lparr>rm_kind := K_Height, rm_reason := R_Zmq, rm_sourceId := ts_sourceId s, rm_requestId := i,
        rm_generation := ts_generation s, rm_startedSteadyMs := te_now env, rm_startedUnixMs := te_unix env\<rparr>"
    define s0 where "s0 = s\<lparr>ts_heightInFlight := True, ts_heightFollowup := f, ts_requestSequence := i, ts_heightRequest := m\<rparr>"
    have e: "requestHeight env f s = (let s1 = notify env (TS_request m) s0
        in if ts_shutdown s1 then s1\<lparr>ts_heightInFlight := False, ts_heightFollowup := False\<rparr>
           else ts_act (TS_fetchHeight i (requestTimeout (p_jobTimeout (ts_pool s1)))) s1)"
      using 3 by (simp add: requestHeight_def i_def m_def s0_def Let_def)
    show ?thesis
      using notify_cases [of env "TS_request m" s0] unfolding e Let_def
      by (auto simp: ts_act_def s0_def)
  qed (simp_all add: requestHeight_def)
qed

lemma live_requestTemplate:
  "ts_zmqHeightRetries s \<le> 10 \<Longrightarrow> live (requestTemplate env r s)"
  using requestTemplate_cases [of env r s] by (auto simp: live_def)

lemma live_requestHeight:
  "(ts_started s \<longrightarrow> ts_timer s \<noteq> None \<or> ts_templateInFlight s) \<Longrightarrow> (ts_templatePending s \<longrightarrow> ts_templateInFlight s) \<Longrightarrow>
   ts_zmqHeightRetries s \<le> 10 \<Longrightarrow> live (requestHeight env f s)"
  using requestHeight_cases [of env f s] by (auto simp: live_def)

lemma drainTemplate_cases:
  "ts_shutdown (drainTemplateQueue env s) \<or>
   (ts_templateInFlight s \<longrightarrow> ts_templateInFlight (drainTemplateQueue env s)) \<and>
   (ts_templatePending (drainTemplateQueue env s) \<longrightarrow> ts_templateInFlight (drainTemplateQueue env s)) \<and>
   ts_timer (drainTemplateQueue env s) = ts_timer s \<and> ts_heightInFlight (drainTemplateQueue env s) = ts_heightInFlight s \<and>
   ts_heightPending (drainTemplateQueue env s) = ts_heightPending s \<and>
   ts_zmqHeightRetries (drainTemplateQueue env s) = ts_zmqHeightRetries s \<and> ts_started (drainTemplateQueue env s) = ts_started s"
proof (cases "ts_shutdown s \<or> \<not> ts_templatePending s \<or> ts_templateInFlight s")
  case False
  then show ?thesis
    using requestTemplate_cases [of env "ts_pendingReason s" "s\<lparr>ts_templatePending := False, ts_pendingReason := R_Timer\<rparr>"]
    by (auto simp: drainTemplateQueue_def Let_def)
qed (auto simp: drainTemplateQueue_def)

lemma drainHeight_cases:
  "ts_shutdown (drainHeightQueue env f s) \<or>
   (ts_heightPending (drainHeightQueue env f s) \<longrightarrow>
      ts_heightInFlight (drainHeightQueue env f s) \<or> ts_templateInFlight (drainHeightQueue env f s)) \<and>
   ts_templateInFlight (drainHeightQueue env f s) = ts_templateInFlight s \<and>
   ts_templatePending (drainHeightQueue env f s) = ts_templatePending s \<and> ts_timer (drainHeightQueue env f s) = ts_timer s \<and>
   ts_zmqHeightRetries (drainHeightQueue env f s) = ts_zmqHeightRetries s \<and> ts_started (drainHeightQueue env f s) = ts_started s"
proof (cases "ts_shutdown s \<or> \<not> ts_heightPending s \<or> ts_heightInFlight s \<or> ts_templateInFlight s")
  case False
  then show ?thesis
    using requestHeight_cases [of env f "s\<lparr>ts_heightPending := False\<rparr>"] by (auto simp: drainHeightQueue_def)
qed (auto simp: drainHeightQueue_def)

text \<open>Both queues together: nothing is left pending without a request in flight.\<close>

lemma drain_both:
  fixes env f s
  defines "s' \<equiv> drainHeightQueue env f (drainTemplateQueue env s)"
  shows "ts_shutdown s' \<or> (ts_templatePending s' \<longrightarrow> ts_templateInFlight s') \<and>
    (ts_heightPending s' \<longrightarrow> ts_heightInFlight s' \<or> ts_templateInFlight s') \<and>
    ts_timer s' = ts_timer s \<and> ts_zmqHeightRetries s' = ts_zmqHeightRetries s \<and> ts_started s' = ts_started s"
proof -
  define t where "t = drainTemplateQueue env s"
  show ?thesis
  proof (cases "ts_shutdown t \<or> ts_shutdown s'")
    case True
    then have "ts_shutdown s'" by (auto simp: s'_def t_def [symmetric] drainHeightQueue_def)
    then show ?thesis by simp
  next
    case False
    then have "(ts_templatePending t \<longrightarrow> ts_templateInFlight t) \<and> ts_timer t = ts_timer s \<and>
        ts_zmqHeightRetries t = ts_zmqHeightRetries s \<and> ts_started t = ts_started s"
      using drainTemplate_cases [of env s, folded t_def] by simp
    moreover have "(ts_heightPending s' \<longrightarrow> ts_heightInFlight s' \<or> ts_templateInFlight s') \<and>
        ts_templateInFlight s' = ts_templateInFlight t \<and> ts_templatePending s' = ts_templatePending t \<and>
        ts_timer s' = ts_timer t \<and> ts_zmqHeightRetries s' = ts_zmqHeightRetries t \<and> ts_started s' = ts_started t"
      using drainHeight_cases [of env f t] False unfolding s'_def t_def by blast
    ultimately show ?thesis by argo
  qed
qed

lemma notify_frame:
  "ts_shutdown (notify env a s) \<or> ts_timer (notify env a s) = ts_timer s \<and> ts_zmqHeightRetries (notify env a s) = ts_zmqHeightRetries s"
  using notify_cases [of env a s] by (auto simp: ts_act_def)

lemma live_failTemplate: "ts_zmqHeightRetries s \<le> 10 \<Longrightarrow> live (failTemplate env s)"
proof -
  assume r: "ts_zmqHeightRetries s \<le> 10"
  define s1 where "s1 = s\<lparr>ts_templateRequest := complete env (ts_templateRequest s), ts_templateInFlight := False\<rparr>"
  define s2 where "s2 = notify env (TS_error (ts_templateRequest s1)) s1"
  define s3 where "s3 = drainHeightQueue env False (drainTemplateQueue env s2)"
  have e: "failTemplate env s = (if \<not> ts_shutdown s3 \<and> \<not> ts_templateInFlight s3 \<and> \<not> ts_templatePending s3
      then s3\<lparr>ts_timer := Some (min (ts_interval s3) 5000)\<rparr> else s3)"
    by (simp add: failTemplate_def s3_def s2_def s1_def Let_def)
  show ?thesis
  proof (cases "ts_shutdown s2")
    case True
    then have "ts_shutdown s3" by (simp add: s3_def drainHeightQueue_def drainTemplateQueue_def)
    then show ?thesis by (simp add: e)
  next
    case False
    then have "ts_zmqHeightRetries s2 \<le> 10"
      using notify_frame [of env "TS_error (ts_templateRequest s1)" s1] r by (simp add: s2_def s1_def)
    then show ?thesis
      using drain_both [of env False s2] unfolding e s3_def [symmetric] by (auto simp: live_def)
  qed
qed

lemma live_install: "ts_zmqHeightRetries s \<le> 10 \<Longrightarrow> live (install_snapshot env sn0 s)"
proof -
  assume r: "ts_zmqHeightRetries s \<le> 10"
  define adv where "adv = (case ts_latest s of None \<Rightarrow> True | Some l \<Rightarrow> sn_prevHash sn0 \<noteq> sn_prevHash l)"
  define prev where "prev = (case ts_latest s of
      Some l \<Rightarrow> if sn_seedHash sn0 \<noteq> sn_seedHash l then sn_seedHash l else ts_previousSeedHash s
    | None \<Rightarrow> ts_previousSeedHash s)"
  define g where "g = ts_generation s + 1"
  define sn where "sn = sn0\<lparr>sn_previousSeedHash := prev, sn_generation := g, sn_fetchedSteadyMs := te_now env\<rparr>"
  define s1 where "s1 = s\<lparr>ts_templateRequest := (complete env (ts_templateRequest s))\<lparr>rm_generation := g\<rparr>,
      ts_previousSeedHash := prev, ts_generation := g, ts_templateInFlight := False,
      ts_lastSuccessSteadyMs := te_now env, ts_observedTipHash := sn_prevHash sn, ts_latest := Some sn,
      ts_timer := Some (ts_interval s)\<rparr>"
  define s2 where "s2 = notify env (TS_template sn) s1"
  define s3 where "s3 = (if ts_shutdown s2 then s2 else ts_act (TS_observeHeight (ts_sourceId s2) (sn_height sn)) s2)"
  define s4 where "s4 = drainHeightQueue env adv (drainTemplateQueue env s3)"
  have e: "install_snapshot env sn0 s = s4"
    by (simp add: install_snapshot_def Let_def adv_def prev_def g_def sn_def s1_def s2_def s3_def s4_def)
  show ?thesis
  proof (cases "ts_shutdown s2")
    case True
    then have "ts_shutdown s4" by (simp add: s4_def s3_def drainHeightQueue_def drainTemplateQueue_def)
    then show ?thesis by (simp add: e)
  next
    case False
    then have "ts_timer s3 = ts_timer s1 \<and> ts_zmqHeightRetries s3 = ts_zmqHeightRetries s1"
      using notify_frame [of env "TS_template sn" s1] by (simp add: s3_def s2_def ts_act_def)
    then have "ts_timer s3 \<noteq> None" "ts_zmqHeightRetries s3 \<le> 10" using r by (simp_all add: s1_def)
    then show ?thesis using drain_both [of env adv s3] unfolding e s4_def [symmetric] by (auto simp: live_def)
  qed
qed

lemma live_upd: "ts_shutdown s' = ts_shutdown s \<Longrightarrow> ts_started s' = ts_started s \<Longrightarrow> ts_timer s' = ts_timer s \<Longrightarrow>
  ts_templateInFlight s' = ts_templateInFlight s \<Longrightarrow> ts_templatePending s' = ts_templatePending s \<Longrightarrow>
  \<not> ts_heightPending s' \<or> ts_heightPending s' = ts_heightPending s \<and> ts_heightInFlight s' = ts_heightInFlight s \<Longrightarrow>
  ts_zmqHeightRetries s' \<le> 10 \<Longrightarrow> live s \<Longrightarrow> live s'"
  by (auto simp: live_def)

lemma retry_bound: "r + 1 \<le> kMaxZmqHeightRetries \<Longrightarrow> r + 1 \<le> (10::u32)"
  by (simp add: kMaxZmqHeightRetries_def)

lemma live_retries: "live s \<Longrightarrow> ts_shutdown s \<or> ts_zmqHeightRetries s \<le> 10"
  by (auto simp: live_def)

lemma live_failHeight: "live s \<Longrightarrow> live (failHeight env s)"
proof -
  assume l: "live s"
  define s1 where "s1 = s\<lparr>ts_heightRequest := complete env (ts_heightRequest s), ts_heightInFlight := False, ts_heightFollowup := False\<rparr>"
  define a where "a = TS_error (ts_heightRequest s1)"
  define s2 where "s2 = (notify env a s1)\<lparr>ts_heightPending := False\<rparr>"
  have s2: "ts_shutdown s2 \<or> live s2"
    using notify_cases [of env a s1] l unfolding s2_def live_def by (auto simp: ts_act_def s1_def)
  have e: "failHeight env s = (if ts_shutdown s2 then s2
      else if ts_zmqHeightRetries s2 + 1 \<le> kMaxZmqHeightRetries
      then s2\<lparr>ts_zmqHeightRetries := ts_zmqHeightRetries s2 + 1, ts_heightRetryFollowup := ts_heightFollowup s,
              ts_zmqTimer := Some (min (ts_interval s2) 1000)\<rparr>
      else s2\<lparr>ts_zmqHeightRetries := 0, ts_heightRetryFollowup := False\<rparr>)"
    by (simp add: failHeight_def s2_def s1_def a_def Let_def)
  show ?thesis unfolding e using s2
    by (auto simp: live_def intro: retry_bound)
qed

lemma live_height_same: "live s \<Longrightarrow> \<not> ts_heightPending s \<Longrightarrow> live (height_same_tip f p s)"
  unfolding height_same_tip_def Let_def by (auto intro!: live_upd [of _ s] intro: retry_bound)

lemma live_height_new: "live (height_new_tip env p h hash s)"
  unfolding height_new_tip_def Let_def by (rule live_requestTemplate) (simp add: ts_act_def)

lemma live_template_response: "live s \<Longrightarrow> live (template_response env d s)"
proof (cases "ts_shutdown s")
  case False
  moreover assume "live s"
  ultimately have r: "ts_zmqHeightRetries s \<le> 10" using live_retries by blast
  show ?thesis
    unfolding template_response_def using live_failTemplate [OF r] live_install [OF r] \<open>live s\<close>
    by (auto split: sum.splits json.splits option.splits)
qed (simp add: template_response_def)

lemma live_height_response: "live s \<Longrightarrow> live (height_response env d s)"
proof -
  assume l: "live s"
  have s1: "live (s\<lparr>ts_heightRequest := complete env (ts_heightRequest s), ts_heightInFlight := False,
      ts_heightFollowup := False, ts_heightPending := False\<rparr>)" (is "live ?s1")
    using l by (auto simp: live_def)
  show ?thesis
    unfolding height_response_def Let_def
    using live_height_same [OF s1] live_height_new live_failHeight [OF l] l
    by (auto split: sum.splits option.splits)
qed

section \<open>ZMQ steps keep the flags\<close>

lemma live_zmqParts:
  "live s \<Longrightarrow> live (s\<lparr>ts_zmqState := z\<rparr>)" "live s \<Longrightarrow> live (s\<lparr>ts_zmqRecvBuf := b\<rparr>)"
  "live s \<Longrightarrow> live (s\<lparr>ts_zmqResolving := f\<rparr>)" "live s \<Longrightarrow> live (s\<lparr>ts_zmqSocket := f\<rparr>)"
  "live s \<Longrightarrow> live (s\<lparr>ts_zmqTimer := t\<rparr>)" "live s \<Longrightarrow> live (s\<lparr>ts_listeners := ls\<rparr>)"
  "live s \<Longrightarrow> live (s\<lparr>ts_notificationSequence := n\<rparr>)" "live s \<Longrightarrow> live (s\<lparr>ts_heightRetryFollowup := f\<rparr>)"
  by (simp_all add: live_def)

lemma live_closeZmq: "live s \<Longrightarrow> live (closeZmq s)"
  by (simp add: closeZmq_def Let_def live_zmqParts)

lemma live_again: "live s \<Longrightarrow> live (requestHeight env f s)"
proof (cases "ts_shutdown s")
  case True
  then show ?thesis by (simp add: requestHeight_def)
next
  case False
  moreover assume "live s"
  ultimately show ?thesis by (intro live_requestHeight) (auto simp: live_def)
qed

lemma live_again_t: "live s \<Longrightarrow> live (requestTemplate env r s)"
proof (cases "ts_shutdown s")
  case True
  then show ?thesis by (simp add: requestTemplate_def)
next
  case False
  moreover assume "live s"
  ultimately show ?thesis using live_requestTemplate live_retries by blast
qed

lemma live_notifyZmq: "live s \<Longrightarrow> live (notifyZmq env s)"
proof -
  assume "live s"
  then have "live (notify env (TS_zmq n) (s\<lparr>ts_notificationSequence := n\<rparr>))" for n
    by (intro live_notify live_zmqParts)
  moreover have "live (s1\<lparr>ts_zmqTimer := None, ts_zmqHeightRetries := 0, ts_heightRetryFollowup := False\<rparr>)" if "live s1" for s1
    using that by (auto simp: live_def)
  ultimately show ?thesis unfolding notifyZmq_def Let_def by (simp add: live_again)
qed

lemma live_startZmqSocket: "live s \<Longrightarrow> live (startZmqSocket env s)"
  unfolding startZmqSocket_def Let_def by (auto intro!: live_closeZmq live_zmqParts)

lemma live_onResolved: "live s \<Longrightarrow> live (ts_onResolved env found s)"
  unfolding ts_onResolved_def Let_def by (auto intro!: live_startZmqSocket live_zmqParts)

lemma live_startZmq: "live s \<Longrightarrow> live (startZmq env s)"
  unfolding startZmq_def Let_def by (auto intro!: live_onResolved live_zmqParts split: option.split)

lemma live_writeZmq: "live s \<Longrightarrow> live (snd (writeZmq env bs s))"
  by (auto simp: writeZmq_def intro: live_closeZmq)

lemma live_writeZmq': "live s \<Longrightarrow> writeZmq env bs s = (b, s') \<Longrightarrow> live s'"
  using live_writeZmq [of s env bs] by simp

lemma live_onZmqConnect: "live s \<Longrightarrow> live (onZmqConnect env ok s)"
proof -
  assume l: "live s"
  obtain b s1 where w: "writeZmq env (take kZmqGreetingSize1 kZmqGreeting) (s\<lparr>ts_zmqState := ZmqGreeting1\<rparr>) = (b, s1)"
    by fastforce
  have "live s1" using live_writeZmq' [OF live_zmqParts(1) [OF l] w] .
  then show ?thesis using l unfolding onZmqConnect_def w by (cases b) (simp_all add: live_closeZmq)
qed

lemma live_written:
  "live s \<Longrightarrow> live (snd (case writeZmq env bs s of (False, s1) \<Rightarrow> (False, s1) | (True, s1) \<Rightarrow> (True, s1\<lparr>ts_zmqState := z\<rparr>)))"
  using live_writeZmq [of s env bs] by (cases "writeZmq env bs s") (auto split: bool.split intro: live_zmqParts)

lemma live_parse: "live s \<Longrightarrow> live (snd (parseZmqMessage env s))"
  unfolding parseZmqMessage_def Let_def
  by (auto split: option.split intro: live_closeZmq live_notifyZmq live_zmqParts)

lemma live_read_round: "live s \<Longrightarrow> live (snd (read_round env s))"
proof -
  assume l: "live s"
  have u: "live (s\<lparr>ts_zmqRecvBuf := b, ts_zmqState := z\<rparr>)" for b z using l by (simp add: live_def)
  show ?thesis
  proof (cases "ts_zmqState s")
    case ZmqGreeting1
    then show ?thesis
      using l live_written [OF l] live_closeZmq [OF l] unfolding read_round_def Let_def by (simp del: prod.case bool.case)
  next
    case ZmqGreeting2
    then show ?thesis
      using l live_writeZmq [OF u] live_closeZmq [OF l] unfolding read_round_def Let_def by simp
  next
    case ZmqHandshake
    then show ?thesis
      using l live_written [OF live_zmqParts(2) [OF l]] live_closeZmq [OF l] unfolding read_round_def Let_def by simp
  qed (simp_all add: read_round_def Let_def l live_parse)
qed

lemma live_read_loop: "live s \<Longrightarrow> live (read_loop env s)"
proof (induction env s rule: read_loop.induct)
  case (1 env s)
  then show ?case
    using live_read_round [of s env] by (cases "read_round env s") (auto simp: read_loop.simps [of env s] split: bool.split)
qed

lemma live_step: "live s \<Longrightarrow> live (ts_step env op s)"
proof (cases op)
  case SO_start
  assume "live s"
  then show ?thesis
    using SO_start
    by (auto simp: ts_step_def ts_start_def live_retries intro!: live_startZmq live_requestTemplate dest: live_retries)
next
  case SO_timer
  assume l: "live s"
  define s1 where "s1 = s\<lparr>ts_timer := None\<rparr>"
  define s2 where "s2 = (if 0 < p_zmqPort (ts_pool s1) \<and> \<not> ts_zmqSocket s1 \<and> \<not> ts_zmqResolving s1 then startZmq env s1 else s1)"
  have e: "ts_timerFires env s = (if ts_timer s = None \<or> ts_shutdown s then s else requestTemplate env R_Timer s2)"
    by (simp add: ts_timerFires_def s1_def s2_def Let_def)
  show ?thesis
  proof (cases "ts_timer s = None \<or> ts_shutdown s")
    case True
    then show ?thesis using l SO_timer by (simp add: ts_step_def e)
  next
    case False
    then have "ts_zmqHeightRetries s \<le> 10" using l by (simp add: live_def)
    moreover have "ts_zmqHeightRetries (startZmq env s1) = ts_zmqHeightRetries s1"
      by (auto simp: startZmq_def ts_onResolved_def startZmqSocket_def closeZmq_def ts_act_def Let_def split: option.split)
    ultimately have "ts_zmqHeightRetries s2 \<le> 10" by (simp add: s2_def s1_def)
    then show ?thesis using SO_timer by (simp add: ts_step_def e live_requestTemplate l)
  qed
next
  case SO_zmqTimer
  assume "live s"
  then show ?thesis using SO_zmqTimer by (simp add: ts_step_def ts_zmqTimerFires_def live_again live_zmqParts)
next
  case (SO_read bs)
  assume "live s"
  then show ?thesis using SO_read by (simp add: ts_step_def readZmq_def live_read_loop live_zmqParts)
next
  case (SO_subscribe l r)
  assume "live s"
  then show ?thesis
    using SO_subscribe by (auto simp: ts_step_def ts_subscribe_def Let_def live_zmqParts split: option.split)
qed (simp_all add: ts_step_def live_template_response live_height_response live_onResolved live_onZmqConnect
  readZmq_end_def live_closeZmq ts_unsubscribe_def live_zmqParts)

text \<open>C13: A source that was started and is not shut down never stalls: whatever happened so far, its timer is armed
  or a template request is in flight; a postponed template or height request always waits for a request that is
  in flight and takes it up at its end; the retries of a height are bounded.
\<close>

theorem source_never_stalls:
  assumes "ts_run s" "ts_started s" "\<not> ts_shutdown s"
  shows "(ts_timer s \<noteq> None \<or> ts_templateInFlight s) \<and> (ts_templatePending s \<longrightarrow> ts_templateInFlight s) \<and>
    (ts_heightPending s \<longrightarrow> ts_heightInFlight s \<or> ts_templateInFlight s) \<and> ts_zmqHeightRetries s \<le> kMaxZmqHeightRetries"
proof -
  have n: "live (new_source p wallet i)" for p wallet i by (simp add: live_def new_source_def)
  have "live s" using assms(1) by (induction rule: ts_run.induct) (simp_all add: live_step n)
  then show ?thesis using assms(2,3) by (simp add: live_def kMaxZmqHeightRetries_def)
qed

text \<open>A source that was just started: its first template request is in flight.\<close>

definition quiet_env :: source_env where
  "quiet_env = \<lparr>te_now = 1000, te_unix = 5000, te_shut = (\<lambda>_. False), te_dns = None, te_socketOk = True, te_connectOk = True,
     te_readOk = True, te_writeOk = (\<lambda>_. True)\<rparr>"

definition started_source :: source where
  "started_source = ts_step quiet_env (SO_timer) (ts_step quiet_env SO_start (new_source empty_pool None 1))"

theorem source_never_stalls_witness:
  "ts_templatePending started_source \<and> ts_templateInFlight started_source \<and>
   ts_zmqHeightRetries started_source \<le> kMaxZmqHeightRetries"
proof -
  have "ts_run started_source" unfolding started_source_def by (intro ts_run.intros)
  moreover have "ts_started started_source" "\<not> ts_shutdown started_source" and p: "ts_templatePending started_source"
    by code_simp+
  ultimately show ?thesis using source_never_stalls [of started_source] by simp
qed

section \<open>The cut of the ZMQ stream\<close>

abbreviation more :: "u8 list \<Rightarrow> source \<Rightarrow> source" where
  "more x s \<equiv> s\<lparr>ts_zmqRecvBuf := ts_zmqRecvBuf s @ x\<rparr>"

definition ext :: "u8 list \<Rightarrow> source \<Rightarrow> source" where
  "ext x s = (if ts_zmqSocket s then more x s else s)"

lemma frame_head_more: "frame_head buf = Some hn \<Longrightarrow> frame_head (buf @ x) = Some hn"
  by (auto simp: frame_head_def nth_append split: if_splits)

lemma frame_head_size: "frame_head buf = Some (h, n) \<Longrightarrow> 2 \<le> length buf"
  by (auto simp: frame_head_def split: if_splits)

lemma zmq_scan_more: "zmq_scan u d buf = Some r \<Longrightarrow> zmq_scan u d (buf @ x) = Some r"
proof (induction u d buf rule: zmq_scan.induct)
  case (1 u d buf)
  obtain h n where f: "frame_head buf = Some (h, n)" using 1(2) by (cases "frame_head buf") (auto simp: zmq_scan.simps)
  have b: "(buf @ x) ! 0 = buf ! 0" using frame_head_size [OF f] by (auto simp: nth_append)
  show ?case
    using 1(2) 1(1) [OF f refl] f frame_head_more [OF f, of x] b
    by (auto simp: zmq_scan.simps [of u d buf] zmq_scan.simps [of u d "buf @ x"] Let_def split: if_splits)
qed

lemma closeZmq_more: "closeZmq (s\<lparr>ts_zmqRecvBuf := b\<rparr>) = closeZmq s"
  by (simp add: closeZmq_def Let_def ts_act_def)

lemma ts_stop_more: "ts_stop (ext x s) = ext x (ts_stop s)"
  by (simp add: ext_def ts_stop_def closeZmq_def Let_def ts_act_def)

lemma ext_act: "ext x (ts_act a s) = ts_act a (ext x s)"
  by (simp add: ext_def ts_act_def)

lemma ext_frame [simp]:
  "ts_shutdown (ext x s) = ts_shutdown s" "ts_listeners (ext x s) = ts_listeners s" "ts_zmqSocket (ext x s) = ts_zmqSocket s"
  "ts_zmqState (ext x s) = ts_zmqState s" "ts_heightInFlight (ext x s) = ts_heightInFlight s"
  "ts_templateInFlight (ext x s) = ts_templateInFlight s" "ts_requestSequence (ext x s) = ts_requestSequence s"
  "ts_sourceId (ext x s) = ts_sourceId s" "ts_generation (ext x s) = ts_generation s" "ts_pool (ext x s) = ts_pool s"
  "ts_notificationSequence (ext x s) = ts_notificationSequence s"
  by (simp_all add: ext_def)

lemma notify_ext: "notify env a (ext x s) = ext x (notify env a s)"
  by (simp add: notify_def Let_def ext_act [symmetric] ts_stop_more)

lemma ext_upd:
  "ext x (s\<lparr>ts_heightInFlight := f\<rparr>) = (ext x s)\<lparr>ts_heightInFlight := f\<rparr>"
  "ext x (s\<lparr>ts_heightFollowup := f\<rparr>) = (ext x s)\<lparr>ts_heightFollowup := f\<rparr>"
  "ext x (s\<lparr>ts_heightPending := f\<rparr>) = (ext x s)\<lparr>ts_heightPending := f\<rparr>"
  "ext x (s\<lparr>ts_heightRetryFollowup := f\<rparr>) = (ext x s)\<lparr>ts_heightRetryFollowup := f\<rparr>"
  "ext x (s\<lparr>ts_requestSequence := i\<rparr>) = (ext x s)\<lparr>ts_requestSequence := i\<rparr>"
  "ext x (s\<lparr>ts_notificationSequence := i\<rparr>) = (ext x s)\<lparr>ts_notificationSequence := i\<rparr>"
  "ext x (s\<lparr>ts_heightRequest := m\<rparr>) = (ext x s)\<lparr>ts_heightRequest := m\<rparr>"
  "ext x (s\<lparr>ts_zmqTimer := t\<rparr>) = (ext x s)\<lparr>ts_zmqTimer := t\<rparr>"
  "ext x (s\<lparr>ts_zmqHeightRetries := n\<rparr>) = (ext x s)\<lparr>ts_zmqHeightRetries := n\<rparr>"
  "ext x (s\<lparr>ts_zmqState := z\<rparr>) = (ext x s)\<lparr>ts_zmqState := z\<rparr>"
  by (simp_all add: ext_def)

lemma requestHeight_ext: "requestHeight env f (ext x s) = ext x (requestHeight env f s)"
  by (simp add: requestHeight_def Let_def ext_upd [symmetric] notify_ext ext_act [symmetric])

lemma notifyZmq_ext: "notifyZmq env (ext x s) = ext x (notifyZmq env s)"
  by (simp add: notifyZmq_def Let_def ext_upd [symmetric] notify_ext requestHeight_ext)

lemma writeZmq_ext:
  "ts_zmqSocket s \<Longrightarrow> writeZmq env bs (more x s) = (fst (writeZmq env bs s), ext x (snd (writeZmq env bs s)))"
  by (auto simp: writeZmq_def ext_def closeZmq_def Let_def ts_act_def)

lemma ext_open: "ts_zmqSocket s \<Longrightarrow> ext x s = more x s"
  by (simp add: ext_def)

lemma ext_closed: "ext x (closeZmq s) = closeZmq s"
  by (simp add: ext_def closeZmq_def Let_def ts_act_def)

lemma parse_ext:
  assumes "ts_zmqSocket s"
  shows "fst (parseZmqMessage env s) \<Longrightarrow> parseZmqMessage env (more x s) = (True, ext x (snd (parseZmqMessage env s)))"
    and "\<not> fst (parseZmqMessage env s) \<Longrightarrow> snd (parseZmqMessage env s) = s \<or>
      \<not> ts_zmqSocket (snd (parseZmqMessage env s)) \<and> parseZmqMessage env (more x s) = parseZmqMessage env s"
proof -
  assume "fst (parseZmqMessage env s)"
  then obtain used d where z: "zmq_scan 0 0 (ts_zmqRecvBuf s) = Some (Some (used, d))"
    by (auto simp: parseZmqMessage_def split: option.splits)
  define s1 where "s1 = s\<lparr>ts_zmqRecvBuf := drop used (ts_zmqRecvBuf s)\<rparr>"
  have "used \<le> length (ts_zmqRecvBuf s)" using zmq_scan_uses [OF z] by simp
  then have e: "ext x s1 = (more x s)\<lparr>ts_zmqRecvBuf := drop used (ts_zmqRecvBuf s @ x)\<rparr>"
    using assms by (simp add: s1_def ext_def)
  show "parseZmqMessage env (more x s) = (True, ext x (snd (parseZmqMessage env s)))"
    using zmq_scan_more [OF z, of x] z
    by (simp add: parseZmqMessage_def Let_def e [symmetric, simplified] s1_def [symmetric] notifyZmq_ext)
next
  assume "\<not> fst (parseZmqMessage env s)"
  then consider "zmq_scan 0 0 (ts_zmqRecvBuf s) = None" | "zmq_scan 0 0 (ts_zmqRecvBuf s) = Some None"
    by (auto simp: parseZmqMessage_def Let_def split: option.splits)
  then show "snd (parseZmqMessage env s) = s \<or>
      \<not> ts_zmqSocket (snd (parseZmqMessage env s)) \<and> parseZmqMessage env (more x s) = parseZmqMessage env s"
  proof cases
    case 2
    then show ?thesis
      using zmq_scan_more [OF 2, of x] by (simp add: parseZmqMessage_def closeZmq_more) (simp add: closeZmq_def Let_def ts_act_def)
  qed (simp add: parseZmqMessage_def)
qed

definition extends :: "source_env \<Rightarrow> u8 list \<Rightarrow> source \<Rightarrow> bool \<times> source \<Rightarrow> bool \<times> source \<Rightarrow> bool" where
  "extends env x s r r' \<longleftrightarrow>
     (if fst r then r' = (True, ext x (snd r)) else snd r = s \<or> \<not> ts_zmqSocket (snd r) \<and> r' = r)"

lemma extends_closed: "\<not> ts_zmqSocket s1 \<Longrightarrow> extends env x s (False, s1) (False, s1)"
  by (simp add: extends_def)

lemma closed_closeZmq [simp]: "\<not> ts_zmqSocket (closeZmq s)"
  by (simp add: closeZmq_def Let_def ts_act_def)

lemma extends_write:
  assumes "ts_zmqSocket s0" "\<And>s. ext x (f s) = f (ext x s)"
  shows "extends env x s (case writeZmq env bs s0 of (False, s1) \<Rightarrow> (False, s1) | (True, s1) \<Rightarrow> (True, f s1))
    (case writeZmq env bs (more x s0) of (False, s1) \<Rightarrow> (False, s1) | (True, s1) \<Rightarrow> (True, f s1))"
proof (cases "te_writeOk env bs")
  case True
  then show ?thesis
    using assms by (simp add: writeZmq_def extends_def ext_act ext_open [symmetric] del: ext_frame(3)) (simp add: ext_def)
next
  case False
  then show ?thesis using assms(1) closeZmq_more [where s = s0] by (simp add: writeZmq_def extends_def)
qed

lemma read_round_ext:
  assumes o: "ts_zmqSocket s"
  shows "extends env x s (read_round env s) (read_round env (more x s))"
proof (cases "ts_zmqState s")
  case ZmqGreeting1
  show ?thesis
  proof (cases "length (ts_zmqRecvBuf s) < kZmqGreetingSize1")
    case True
    then show ?thesis using ZmqGreeting1 by (simp add: read_round_def extends_def)
  next
    case False
    then have n: "(ts_zmqRecvBuf s @ x) ! 0 = ts_zmqRecvBuf s ! 0" "(ts_zmqRecvBuf s @ x) ! 9 = ts_zmqRecvBuf s ! 9"
        "(ts_zmqRecvBuf s @ x) ! 10 = ts_zmqRecvBuf s ! 10"
      by (auto simp: nth_append kZmqGreetingSize1_def)
    from False show ?thesis
      using ZmqGreeting1 extends_write [OF o, of x "\<lambda>s. s\<lparr>ts_zmqState := ZmqGreeting2\<rparr>" env s "drop kZmqGreetingSize1 kZmqGreeting"]
      by (simp add: read_round_def Let_def n ext_upd closeZmq_more extends_closed del: nth_append_left)
  qed
next
  case ZmqGreeting2
  show ?thesis
  proof (cases "length (ts_zmqRecvBuf s) < length kZmqGreeting")
    case True
    then show ?thesis using ZmqGreeting2 by (simp add: read_round_def extends_def)
  next
    case False
    have "length kZmqGreeting = 64" by (simp add: kZmqGreeting_def chars_def)
    have w: "extends env x s (writeZmq env bs s0) (writeZmq env bs (more x s0))" if "ts_zmqSocket s0" for bs s0
      using extends_write [OF that, of x id env s bs]
      by (cases "writeZmq env bs s0"; cases "writeZmq env bs (more x s0)") (simp split: bool.splits)
    have "extends env x s (writeZmq env bs (s0\<lparr>ts_zmqState := z\<rparr>)) (writeZmq env bs (s0\<lparr>ts_zmqRecvBuf := ts_zmqRecvBuf s0 @ x, ts_zmqState := z\<rparr>))"
      if "ts_zmqSocket s0" for bs s0 z
    proof -
      have c: "s0\<lparr>ts_zmqRecvBuf := b, ts_zmqState := z\<rparr> = s0\<lparr>ts_zmqState := z, ts_zmqRecvBuf := b\<rparr>" for b
        by (cases s0) simp
      show ?thesis using w [of "s0\<lparr>ts_zmqState := z\<rparr>" bs] that unfolding c by simp
    qed
    note w' = this [of "s\<lparr>ts_zmqRecvBuf := drop (length kZmqGreeting) (ts_zmqRecvBuf s)\<rparr>" kZmqHandshake ZmqHandshake]
    show ?thesis
      using ZmqGreeting2 o False \<open>length kZmqGreeting = 64\<close> w' by (simp add: read_round_def Let_def closeZmq_more extends_closed)
  qed
next
  case ZmqHandshake
  show ?thesis
  proof (cases "length (ts_zmqRecvBuf s) < 2 \<or> 18 \<le> unat (ts_zmqRecvBuf s ! 1) \<and> ts_zmqRecvBuf s ! 0 = 4 \<and> length (ts_zmqRecvBuf s) < unat (ts_zmqRecvBuf s ! 1) + 2")
    case True
    then have "read_round env s = (False, s)" using ZmqHandshake by (auto simp: read_round_def Let_def)
    then show ?thesis by (simp add: extends_def)
  next
    case False
    then have n: "(ts_zmqRecvBuf s @ x) ! 0 = ts_zmqRecvBuf s ! 0" "(ts_zmqRecvBuf s @ x) ! 1 = ts_zmqRecvBuf s ! 1"
      by (auto simp: nth_append)
    show ?thesis
    proof (cases "ts_zmqRecvBuf s ! 0 = 4 \<and> 18 \<le> unat (ts_zmqRecvBuf s ! 1)")
      case True
      then have long: "unat (ts_zmqRecvBuf s ! 1) + 2 \<le> length (ts_zmqRecvBuf s)" "20 \<le> length (ts_zmqRecvBuf s)"
        using False by auto
      then have "take 18 (drop 2 (ts_zmqRecvBuf s @ x)) = take 18 (drop 2 (ts_zmqRecvBuf s))" by simp
      then show ?thesis
        using ZmqHandshake o True long n
          extends_write [of "s\<lparr>ts_zmqRecvBuf := drop (unat (ts_zmqRecvBuf s ! 1) + 2) (ts_zmqRecvBuf s)\<rparr>" x "\<lambda>s. s\<lparr>ts_zmqState := ZmqConnected\<rparr>" env s kZmqSubscribe]
        by (simp add: read_round_def Let_def n ext_upd closeZmq_more extends_closed del: One_nat_def drop_append take_append)
          (simp add: ext_def)
    next
      case no: False
      then show ?thesis
        using ZmqHandshake False n
        by (auto simp: read_round_def Let_def closeZmq_more extends_closed simp del: One_nat_def)
    qed
  qed
next
  case ZmqConnected
  then show ?thesis
    using parse_ext [OF o, of env x] by (auto simp: read_round_def extends_def prod_eq_iff)
qed (simp_all add: read_round_def extends_def)

lemma writeZmq_open: "fst (writeZmq env bs s) \<Longrightarrow> ts_zmqSocket (snd (writeZmq env bs s))"
  by (simp add: writeZmq_def ts_act_def split: if_splits)

lemma closed_round:
  assumes "fst (read_round env s)" "ts_zmqSocket s" "\<not> ts_zmqSocket (snd (read_round env s))"
  shows "ts_zmqState (snd (read_round env s)) = ZmqDisconnected"
proof (cases "ts_zmqState s = ZmqConnected")
  case True
  then have r: "read_round env s = parseZmqMessage env s" by (simp add: read_round_def)
  obtain used d where "zmq_scan 0 0 (ts_zmqRecvBuf s) = Some (Some (used, d))"
    using assms(1) unfolding r by (auto simp: parseZmqMessage_def split: option.splits)
  then show ?thesis
    using assms(2,3) zmq_kept_notifyZmq [of "s\<lparr>ts_zmqRecvBuf := drop used (ts_zmqRecvBuf s)\<rparr>" env] unfolding r
    by (auto simp: parseZmqMessage_def Let_def zmq_kept_def split: if_splits)
next
  case False
  then show ?thesis
    using assms writeZmq_open
    by (cases "ts_zmqState s") (simp_all add: read_round_def Let_def case_prod_beta' split: if_splits bool.splits)
qed

lemma read_loop_stuck: "ts_zmqState s = ZmqDisconnected \<Longrightarrow> read_loop env s = s"
  by (simp add: read_loop.simps [of env s] read_round_def)

lemma read_loop_more:
  "ts_zmqSocket s \<Longrightarrow> read_loop env (more x s) =
     (let t = read_loop env s in if ts_zmqSocket t then read_loop env (more x t) else t)"
proof (induction env s rule: read_loop.induct)
  case (1 env s)
  obtain go s1 where r: "read_round env s = (go, s1)" by fastforce
  have e: "extends env x s (go, s1) (read_round env (more x s))" using read_round_ext [OF 1(2), of env x] r by simp
  show ?case
  proof (cases go)
    case True
    with e have r': "read_round env (more x s) = (True, ext x s1)" by (simp add: extends_def)
    show ?thesis
    proof (cases "ts_zmqSocket s1")
      case True
      with 1(1) [OF r [symmetric]] \<open>go\<close> show ?thesis
        using r r' by (simp add: read_loop.simps [of env s] read_loop.simps [of env "more x s"] ext_def)
    next
      case False
      then have "ts_zmqState s1 = ZmqDisconnected" using closed_round [of env s] r 1(2) \<open>go\<close> by simp
      then show ?thesis
        using r r' \<open>go\<close> False
        by (simp add: read_loop.simps [of env s] read_loop.simps [of env "more x s"] ext_def read_loop_stuck)
    qed
  next
    case False
    with e have "s1 = s \<or> \<not> ts_zmqSocket s1 \<and> read_round env (more x s) = (False, s1)" by (simp add: extends_def)
    then show ?thesis
      using r False 1(2) by (auto simp: read_loop.simps [of env s] read_loop.simps [of env "more x s"])
  qed
qed

text \<open>C26: How the ZMQ stream of a daemon is cut into reads does not matter: two reads one after the other do what one
  read of their bytes together does, in every state of the handshake, with complete, split and oversized messages,
  and also when a write fails or an observer shuts the source down in between.
\<close>

theorem source_reads_compose: "readZmq env b (readZmq env a s) = readZmq env (a @ b) s"
proof (cases "ts_zmqSocket s \<and> a \<noteq> [] \<and> b \<noteq> []")
  case True
  then show ?thesis using read_loop_more [of "more a s" env b] by (simp add: readZmq_def Let_def)
qed (auto simp: readZmq_def)

end
